theory Spec2Isabelle
  imports Main "HOL-Library.Word"
begin

unbundle bit_operations_syntax

section \<open>Bytes, files and fatal errors\<close>

text \<open>
  A file descriptor opened for reading is the list of bytes not yet read; one opened for
  writing is the list of bytes written so far. Every \<^verbatim>\<open>err_exit\<close> of the program is a
  value of \<open>error\<close>. The source has no bounds checks on its buffers; where C would read
  or write outside a buffer (undefined behaviour) the model stops with \<open>OutOfBounds\<close>.
  Failures of the operating system other than end of file (a failing \<^verbatim>\<open>read\<close>,
  \<^verbatim>\<open>write\<close>, \<^verbatim>\<open>open\<close> or \<^verbatim>\<open>malloc\<close>) are outside the model.
\<close>

type_synonym byte = "8 word"

datatype error =
    UnexpectedEOF     \<comment> \<open>"read: unexpected end of file"\<close>
  | BadMagic          \<comment> \<open>"Input file doesn't have the expected magic header field!"\<close>
  | BadVersion        \<comment> \<open>"Image version %d.%d not supported"\<close>
  | ZeroRepeat        \<comment> \<open>"Zero repeat length after command code in image"\<close>
  | InvalidCommand    \<comment> \<open>"Invalid command code in image"\<close>
  | HeaderMismatch    \<comment> \<open>"Input images do not have identical headers"\<close>
  | FirstRemaining    \<comment> \<open>"First input image has %d remaining unused clusters at the end"\<close>
  | SecondRemaining   \<comment> \<open>"Second input image has %d remaining unused clusters at the end"\<close>
  | OutOfBounds       \<comment> \<open>no message: an access outside a C buffer\<close>

text \<open>\<^verbatim>\<open>read_all(fd, buf, count)\<close>: the loop runs while \<open>count > 0\<close>, so a count that is
  zero or negative reads nothing; otherwise it delivers exactly \<open>count\<close> bytes or exits at
  end of file. The result is the bytes stored into \<open>buf\<close> and the rest of the file.\<close>

definition read_all :: "byte list \<Rightarrow> int \<Rightarrow> error + (byte list \<times> byte list)" where
  "read_all fd count =
     (if count \<le> 0 then Inr ([], fd)
      else if int (length fd) < count then Inl UnexpectedEOF
      else Inr (take (nat count) fd, drop (nat count) fd))"

text \<open>\<^verbatim>\<open>write_all(fd, buf, count)\<close> appends the first \<open>count\<close> bytes of \<open>buf\<close>; nothing
  for a count that is zero or negative.\<close>

definition write_all :: "byte list \<Rightarrow> byte list \<Rightarrow> int \<Rightarrow> byte list" where
  "write_all fd buf count = fd @ take (nat count) buf"

text \<open>\<^verbatim>\<open>memcmp(a, b, n) == 0\<close> on two buffers whose allocated contents are \<open>a\<close> and
  \<open>b\<close>.\<close>

definition memcmp :: "byte list \<Rightarrow> byte list \<Rightarrow> nat \<Rightarrow> error + bool" where
  "memcmp a b n =
     (if length a < n \<or> length b < n then Inl OutOfBounds
      else Inr (take n a = take n b))"

text \<open>Little-endian integers in memory (the program only compiles for little-endian
  hosts, where \<^verbatim>\<open>le32_to_cpu\<close>, \<^verbatim>\<open>sle64_to_cpu\<close> and \<^verbatim>\<open>cpu_to_sle64\<close> are the
  identity): the value of a field stored in the given bytes, and the eight bytes of a
  64-bit value.\<close>

fun le_word :: "byte list \<Rightarrow> 'a::len word" where
  "le_word [] = 0"
| "le_word (b # bs) = ucast b OR push_bit 8 (le_word bs)"

definition sle64_bytes :: "64 word \<Rightarrow> byte list" where
  "sle64_bytes w = map (\<lambda>i. ucast (drop_bit (8 * i) w)) [0, 1, 2, 3, 4, 5, 6, 7]"

section \<open>Image header and image state\<close>

definition CMD_SKIP :: byte where "CMD_SKIP = 0"
definition CMD_DATA :: byte where "CMD_DATA = 1"
definition CMD_DROP :: byte where "CMD_DROP = 2"

text \<open>The two magic tags, \<^verbatim>\<open>"\0ntfsclone-image"\<close> and \<^verbatim>\<open>"\0ntfsclone-delta"\<close>, as ASCII
  codes.\<close>

definition IMAGE_MAGIC_SIZE :: nat where "IMAGE_MAGIC_SIZE = 16"

definition IMAGE_MAGIC :: "byte list" where
  "IMAGE_MAGIC = [0, 110, 116, 102, 115, 99, 108, 111, 110, 101, 45, 105, 109, 97, 103, 101]"

definition DELTA_MAGIC :: "byte list" where
  "DELTA_MAGIC = [0, 110, 116, 102, 115, 99, 108, 111, 110, 101, 45, 100, 101, 108, 116, 97]"

definition NTFSCLONE_IMG_VER_MAJOR :: byte where "NTFSCLONE_IMG_VER_MAJOR = 10"
definition NTFSCLONE_IMG_VER_MINOR_OLD :: byte where "NTFSCLONE_IMG_VER_MINOR_OLD = 0"
definition NTFSCLONE_IMG_VER_MINOR_NEW :: byte where "NTFSCLONE_IMG_VER_MINOR_NEW = 1"
definition NTFS_MAX_CLUSTER_SIZE :: nat where "NTFS_MAX_CLUSTER_SIZE = 65536"

text \<open>
  \<^verbatim>\<open>struct image_hdr\<close> is packed, and the program reads, compares and writes it as raw
  memory, so the model keeps it as its 50 bytes:
  \<open>magic\<close> at 0 (16 bytes), \<open>major_ver\<close> at 16, \<open>minor_ver\<close> at 17, \<open>cluster_size\<close> at 18
  (4), \<open>device_size\<close> at 22 (8), \<open>nr_clusters\<close> at 30 (8), \<open>inuse\<close> at 38 (8),
  \<open>offset_to_image_data\<close> at 46 (4).
\<close>

definition sizeof_image_hdr :: nat where "sizeof_image_hdr = 50"

definition hdr_magic :: "byte list \<Rightarrow> byte list" where
  "hdr_magic h = take 16 h"
definition hdr_major_ver :: "byte list \<Rightarrow> byte" where
  "hdr_major_ver h = h ! 16"
definition hdr_minor_ver :: "byte list \<Rightarrow> byte" where
  "hdr_minor_ver h = h ! 17"
definition hdr_cluster_size :: "byte list \<Rightarrow> byte list" where
  "hdr_cluster_size h = take 4 (drop 18 h)"
definition hdr_device_size :: "byte list \<Rightarrow> byte list" where
  "hdr_device_size h = take 8 (drop 22 h)"
definition hdr_nr_clusters :: "byte list \<Rightarrow> byte list" where
  "hdr_nr_clusters h = take 8 (drop 30 h)"
definition hdr_offset_to_image_data :: "byte list \<Rightarrow> byte list" where
  "hdr_offset_to_image_data h = take 4 (drop 46 h)"

text \<open>
  \<^verbatim>\<open>struct input_image\<close>. \<open>fd\<close> is the unread rest of the file. \<open>hdr_extra\<close> holds
  the bytes read into the allocated block (none while the pointer is null). \<open>cdata\<close> stands for
  the array of \<open>NTFS_MAX_CLUSTER_SIZE\<close> bytes: the list holds the bytes stored so far, the
  rest of the array is still zero from the \<^verbatim>\<open>memset\<close>.
\<close>

record input_image =
  fd :: "byte list"
  hdr :: "byte list"
  hdr_extra :: "byte list"
  hdr_extra_len :: "32 word"
  csize :: "32 word"
  ccount :: "64 word"
  bbs_present :: bool
  cmd :: byte
  cmd_repeat :: "64 word"
  cdata :: "byte list"

text \<open>\<^verbatim>\<open>struct output_image\<close>; \<open>ofd\<close> is what has been written to the file.\<close>

record output_image =
  ofd :: "byte list"
  ocmd :: byte
  ocmd_repeat :: "64 word"

text \<open>The first \<open>n\<close> bytes of the array \<open>cdata\<close>, for \<open>n\<close> within the array.\<close>

definition cdata_bytes :: "byte list \<Rightarrow> nat \<Rightarrow> byte list" where
  "cdata_bytes buf n = take n buf @ replicate (n - length buf) 0"

section \<open>Opening and creating images\<close>

text \<open>
  \<^verbatim>\<open>open_input_image\<close>, from the contents of the file: the header up to
  \<open>offset_to_image_data\<close> (46 bytes) is read and checked, then the offset, then the extra
  block of \<open>offset_to_image_data - sizeof(hdr)\<close> bytes (a 32-bit difference; it is passed
  to \<^verbatim>\<open>read_all\<close> as an \<^verbatim>\<open>int\<close>).
\<close>

definition open_input_image :: "byte list \<Rightarrow> byte list \<Rightarrow> error + input_image" where
  "open_input_image file magic =
     (case read_all file 46 of
        Inl e \<Rightarrow> Inl e
      | Inr (h, fd1) \<Rightarrow>
          if take IMAGE_MAGIC_SIZE (hdr_magic h) \<noteq> take IMAGE_MAGIC_SIZE magic then Inl BadMagic
          else if hdr_major_ver h \<noteq> NTFSCLONE_IMG_VER_MAJOR \<or>
                  (hdr_minor_ver h \<noteq> NTFSCLONE_IMG_VER_MINOR_OLD \<and>
                   hdr_minor_ver h \<noteq> NTFSCLONE_IMG_VER_MINOR_NEW) then Inl BadVersion
          else
            (case read_all fd1 4 of
               Inl e \<Rightarrow> Inl e
             | Inr (off, fd2) \<Rightarrow>
                 let len = (le_word off :: 32 word) - of_nat sizeof_image_hdr in
                 (case (if 0 < len then read_all fd2 (sint len) else Inr ([], fd2)) of
                    Inl e \<Rightarrow> Inl e
                  | Inr (extra, fd3) \<Rightarrow>
                      Inr \<lparr> fd = fd3, hdr = h @ off, hdr_extra = extra, hdr_extra_len = len,
                            csize = le_word (hdr_cluster_size h),
                            ccount = le_word (hdr_nr_clusters h),
                            bbs_present = (hdr_minor_ver h = NTFSCLONE_IMG_VER_MINOR_NEW),
                            cmd = 0, cmd_repeat = 0, cdata = [] \<rparr>)))"

text \<open>
  \<^verbatim>\<open>create_output_image\<close>: the magic, then the \<open>sizeof(hdr) - IMAGE_MAGIC_SIZE\<close> bytes
  of the given input image's header from \<open>major_ver\<close> on, then its extra block.
\<close>

definition create_output_image :: "byte list \<Rightarrow> input_image \<Rightarrow> output_image" where
  "create_output_image magic old_img =
     (let f1 = write_all [] magic (int IMAGE_MAGIC_SIZE);
          f2 = write_all f1 (drop 16 (hdr old_img)) (int sizeof_image_hdr - int IMAGE_MAGIC_SIZE);
          f3 = (if hdr_extra_len old_img \<noteq> 0
                then write_all f2 (hdr_extra old_img) (sint (hdr_extra_len old_img)) else f2)
      in \<lparr> ofd = f3, ocmd = CMD_DATA, ocmd_repeat = 0 \<rparr>)"

section \<open>Cluster codec: reader\<close>

text \<open>
  \<^verbatim>\<open>read_next_cluster\<close>. A data record stores \<open>csize\<close> bytes (as an \<^verbatim>\<open>int\<close> count) at
  the start of \<open>cdata\<close>; when more than \<open>NTFS_MAX_CLUSTER_SIZE\<close> bytes would arrive the
  array overflows.
\<close>

definition read_next_cluster :: "input_image \<Rightarrow> bool \<Rightarrow> error + input_image" where
  "read_next_cluster img allow_drop_cmd =
     (if 0 <s cmd_repeat img then Inr (img\<lparr>cmd_repeat := cmd_repeat img - 1\<rparr>)
      else
        (case read_all (fd img) 1 of
           Inl e \<Rightarrow> Inl e
         | Inr (c, fd1) \<Rightarrow>
             let img1 = img\<lparr>fd := fd1, cmd := hd c\<rparr> in
             if cmd img1 = CMD_SKIP \<or> (allow_drop_cmd \<and> cmd img1 = CMD_DROP) then
               (case read_all fd1 8 of
                  Inl e \<Rightarrow> Inl e
                | Inr (r, fd2) \<Rightarrow>
                    if (le_word r :: 64 word) = 0 then Inl ZeroRepeat
                    else Inr (img1\<lparr>fd := fd2, cmd_repeat := le_word r - 1\<rparr>))
             else if cmd img1 = CMD_DATA then
               (if int NTFS_MAX_CLUSTER_SIZE < min (sint (csize img1)) (int (length fd1))
                then Inl OutOfBounds
                else
                  (case read_all fd1 (sint (csize img1)) of
                     Inl e \<Rightarrow> Inl e
                   | Inr (d, fd2) \<Rightarrow>
                       Inr (img1\<lparr>fd := fd2, cdata := d @ drop (length d) (cdata img1)\<rparr>)))
             else Inl InvalidCommand))"

section \<open>Cluster codec: writer\<close>

definition write_pending_cmd :: "output_image \<Rightarrow> output_image" where
  "write_pending_cmd img =
     (if ocmd img \<noteq> CMD_DATA then
        (let repeat = ocmd_repeat img;
             f1 = write_all (ofd img) [ocmd img] 1;
             f2 = write_all f1 (sle64_bytes repeat) 8
         in img\<lparr>ofd := f2, ocmd := CMD_DATA, ocmd_repeat := 0\<rparr>)
      else img)"

definition write_cmd :: "output_image \<Rightarrow> byte \<Rightarrow> output_image" where
  "write_cmd img c =
     (if ocmd img = c then img\<lparr>ocmd_repeat := ocmd_repeat img + 1\<rparr>
      else (write_pending_cmd img)\<lparr>ocmd := c, ocmd_repeat := 1\<rparr>)"

text \<open>\<^verbatim>\<open>write_data(img, cdata, csize)\<close>: \<open>buf\<close> is the \<open>cdata\<close> array of an input image;
  the count is passed to \<^verbatim>\<open>write_all\<close> as an \<^verbatim>\<open>int\<close>.\<close>

definition write_data :: "output_image \<Rightarrow> byte list \<Rightarrow> 32 word \<Rightarrow> error + output_image" where
  "write_data img buf sz =
     (let img1 = write_pending_cmd img;
          f1 = write_all (ofd img1) [ocmd img1] 1
      in if int NTFS_MAX_CLUSTER_SIZE < sint sz then Inl OutOfBounds
         else Inr (img1\<lparr>ofd := write_all f1 (cdata_bytes buf (nat (sint sz))) (sint sz)\<rparr>))"

section \<open>Preparing and finishing an operation\<close>

text \<open>
  \<^verbatim>\<open>prepare_image_files\<close>: both inputs are opened, then
  \<open>offsetof(inuse) - IMAGE_MAGIC_SIZE - 2\<close> bytes of the two headers are compared starting at
  \<open>cluster_size\<close>, then (when the first image has an extra block) as many bytes of the two
  extra blocks as the first image's block has. The output is created from the second
  input image.
\<close>

definition offsetof_cluster_size :: nat where "offsetof_cluster_size = 18"
definition offsetof_inuse :: nat where "offsetof_inuse = 38"

definition prepare_image_files ::
  "byte list \<Rightarrow> byte list \<Rightarrow> byte list \<Rightarrow> byte list \<Rightarrow> byte list \<Rightarrow>
   error + (input_image \<times> input_image \<times> output_image)" where
  "prepare_image_files file1 magic1 file2 magic2 magic3 =
     (case open_input_image file1 magic1 of
        Inl e \<Rightarrow> Inl e
      | Inr img1 \<Rightarrow>
     (case open_input_image file2 magic2 of
        Inl e \<Rightarrow> Inl e
      | Inr img2 \<Rightarrow>
     (case memcmp (drop offsetof_cluster_size (hdr img1)) (drop offsetof_cluster_size (hdr img2))
             (offsetof_inuse - IMAGE_MAGIC_SIZE - 2) of
        Inl e \<Rightarrow> Inl e
      | Inr same \<Rightarrow>
          if \<not> same then Inl HeaderMismatch
          else
            (case (if hdr_extra_len img1 \<noteq> 0
                   then memcmp (hdr_extra img1) (hdr_extra img2) (unat (hdr_extra_len img1))
                   else Inr True) of
               Inl e \<Rightarrow> Inl e
             | Inr same_extra \<Rightarrow>
                 if \<not> same_extra then Inl HeaderMismatch
                 else Inr (img1, img2, create_output_image magic3 img2)))))"

text \<open>\<^verbatim>\<open>finish_image_files\<close> (the \<^verbatim>\<open>fsync\<close> has no effect on the contents).\<close>

definition finish_image_files ::
  "input_image \<Rightarrow> input_image \<Rightarrow> output_image \<Rightarrow> error + output_image" where
  "finish_image_files img1 img2 img3 =
     (if 0 <s cmd_repeat img1 then Inl FirstRemaining
      else if 0 <s cmd_repeat img2 then Inl SecondRemaining
      else Inr (write_pending_cmd img3))"

section \<open>Delta generation\<close>

text \<open>\<^verbatim>\<open>memcmp(old.cdata, new.cdata, old.csize) == 0\<close> on the two cluster arrays.\<close>

definition memcmp_cdata :: "input_image \<Rightarrow> input_image \<Rightarrow> error + bool" where
  "memcmp_cdata old new =
     (let n = unat (csize old) in
      if NTFS_MAX_CLUSTER_SIZE < n then Inl OutOfBounds
      else Inr (cdata_bytes (cdata old) n = cdata_bytes (cdata new) n))"

text \<open>The body of the loop of \<^verbatim>\<open>create_delta\<close> after the two reads. The comparison of
  the payloads is only evaluated when the commands are equal and not skip.\<close>

definition delta_cluster ::
  "input_image \<Rightarrow> input_image \<Rightarrow> output_image \<Rightarrow> error + output_image" where
  "delta_cluster old new delta =
     (case (if cmd old = cmd new
            then (if cmd old = CMD_SKIP then Inr True else memcmp_cdata old new)
            else Inr False) of
        Inl e \<Rightarrow> Inl e
      | Inr unchanged \<Rightarrow>
          if unchanged then Inr (write_cmd delta CMD_SKIP)
          else if cmd new = CMD_SKIP then Inr (write_cmd delta CMD_DROP)
          else write_data delta (cdata new) (csize new))"

text \<open>The loop \<^verbatim>\<open>for(pos = 0; pos < ccount; pos++)\<close> with the number of its
  iterations as argument.\<close>

fun delta_loop ::
  "nat \<Rightarrow> input_image \<Rightarrow> input_image \<Rightarrow> output_image \<Rightarrow>
   error + (input_image \<times> input_image \<times> output_image)" where
  "delta_loop 0 old new delta = Inr (old, new, delta)"
| "delta_loop (Suc n) old new delta =
     (case read_next_cluster old False of
        Inl e \<Rightarrow> Inl e
      | Inr old1 \<Rightarrow>
     (case read_next_cluster new False of
        Inl e \<Rightarrow> Inl e
      | Inr new1 \<Rightarrow>
     (case delta_cluster old1 new1 delta of
        Inl e \<Rightarrow> Inl e
      | Inr delta1 \<Rightarrow> delta_loop n old1 new1 delta1)))"

text \<open>The code after the loop of \<^verbatim>\<open>create_delta\<close> that deals with the backup boot
  sector of one image only.\<close>

definition delta_tail ::
  "input_image \<Rightarrow> input_image \<Rightarrow> output_image \<Rightarrow>
   error + (input_image \<times> input_image \<times> output_image)" where
  "delta_tail old new delta =
     (if bbs_present old \<and> \<not> bbs_present new then
        (case read_next_cluster old False of
           Inl e \<Rightarrow> Inl e
         | Inr old1 \<Rightarrow> Inr (old1, new, delta))
      else if \<not> bbs_present old \<and> bbs_present new then
        (case read_next_cluster new False of
           Inl e \<Rightarrow> Inl e
         | Inr new1 \<Rightarrow>
             (case write_data delta (cdata new1) (csize new1) of
                Inl e \<Rightarrow> Inl e
              | Inr delta1 \<Rightarrow> Inr (old, new1, delta1)))
      else Inr (old, new, delta))"

text \<open>\<^verbatim>\<open>create_delta\<close>, from the contents of the two input files to the contents of the
  delta file. The loop counter is a signed 64-bit integer: a count that is not positive
  gives no iteration. (\<open>ccount += 1\<close> wraps here; in C the overflow is undefined.)\<close>

definition create_delta :: "byte list \<Rightarrow> byte list \<Rightarrow> error + byte list" where
  "create_delta file1 file2 =
     (case prepare_image_files file1 IMAGE_MAGIC file2 IMAGE_MAGIC DELTA_MAGIC of
        Inl e \<Rightarrow> Inl e
      | Inr (old, new, delta) \<Rightarrow>
          let count = (if bbs_present old \<and> bbs_present new then ccount old + 1 else ccount old)
          in
          (case delta_loop (nat (sint count)) old new delta of
             Inl e \<Rightarrow> Inl e
           | Inr (old1, new1, delta1) \<Rightarrow>
          (case delta_tail old1 new1 delta1 of
             Inl e \<Rightarrow> Inl e
           | Inr (old2, new2, delta2) \<Rightarrow>
          (case finish_image_files old2 new2 delta2 of
             Inl e \<Rightarrow> Inl e
           | Inr delta3 \<Rightarrow> Inr (ofd delta3)))))"

section \<open>Patch application\<close>

text \<open>The body of the loop of \<^verbatim>\<open>apply_patch\<close> after the two reads.\<close>

definition patch_cluster ::
  "input_image \<Rightarrow> input_image \<Rightarrow> output_image \<Rightarrow> error + output_image" where
  "patch_cluster old delta new =
     (if cmd delta = CMD_DROP \<or> (cmd old = CMD_SKIP \<and> cmd delta = CMD_SKIP)
      then Inr (write_cmd new CMD_SKIP)
      else if cmd delta = CMD_SKIP then write_data new (cdata old) (csize old)
      else write_data new (cdata delta) (csize delta))"

fun patch_loop ::
  "nat \<Rightarrow> input_image \<Rightarrow> input_image \<Rightarrow> output_image \<Rightarrow>
   error + (input_image \<times> input_image \<times> output_image)" where
  "patch_loop 0 old delta new = Inr (old, delta, new)"
| "patch_loop (Suc n) old delta new =
     (case read_next_cluster old False of
        Inl e \<Rightarrow> Inl e
      | Inr old1 \<Rightarrow>
     (case read_next_cluster delta True of
        Inl e \<Rightarrow> Inl e
      | Inr delta1 \<Rightarrow>
     (case patch_cluster old1 delta1 new of
        Inl e \<Rightarrow> Inl e
      | Inr new1 \<Rightarrow> patch_loop n old1 delta1 new1)))"

definition patch_tail ::
  "input_image \<Rightarrow> input_image \<Rightarrow> output_image \<Rightarrow>
   error + (input_image \<times> input_image \<times> output_image)" where
  "patch_tail old delta new =
     (if bbs_present old \<and> \<not> bbs_present delta then
        (case read_next_cluster old False of
           Inl e \<Rightarrow> Inl e
         | Inr old1 \<Rightarrow> Inr (old1, delta, new))
      else if \<not> bbs_present old \<and> bbs_present delta then
        (case read_next_cluster delta False of
           Inl e \<Rightarrow> Inl e
         | Inr delta1 \<Rightarrow>
             (case write_data new (cdata delta1) (csize delta1) of
                Inl e \<Rightarrow> Inl e
              | Inr new1 \<Rightarrow> Inr (old, delta1, new1)))
      else Inr (old, delta, new))"

text \<open>\<^verbatim>\<open>apply_patch\<close>. The source computes \<open>ccount\<close> (one more when both inputs have the
  backup boot sector) and then bounds the loop by \<open>old.ccount\<close>: \<open>patch_count\<close> is the
  value it computes, \<open>apply_patch\<close> uses what the loop condition names.\<close>

definition patch_count :: "input_image \<Rightarrow> input_image \<Rightarrow> 64 word" where
  "patch_count old delta =
     (if bbs_present old \<and> bbs_present delta then ccount old + 1 else ccount old)"

definition apply_patch :: "byte list \<Rightarrow> byte list \<Rightarrow> error + byte list" where
  "apply_patch file1 file2 =
     (case prepare_image_files file1 IMAGE_MAGIC file2 DELTA_MAGIC IMAGE_MAGIC of
        Inl e \<Rightarrow> Inl e
      | Inr (old, delta, new) \<Rightarrow>
          let count = patch_count old delta in
          (case patch_loop (nat (sint (ccount old))) old delta new of
             Inl e \<Rightarrow> Inl e
           | Inr (old1, delta1, new1) \<Rightarrow>
          (case patch_tail old1 delta1 new1 of
             Inl e \<Rightarrow> Inl e
           | Inr (old2, delta2, new2) \<Rightarrow>
          (case finish_image_files old2 delta2 new2 of
             Inl e \<Rightarrow> Inl e
           | Inr new3 \<Rightarrow> Inr (ofd new3)))))"

section \<open>Cluster events and sequences of codec operations\<close>

text \<open>The decoded unit that generation and patching work on: after a successful
  \<open>read_next_cluster\<close> the image presents a command and, for data, the cluster that was
  read (\<open>csize\<close> bytes of \<open>cdata\<close>, counted as the \<^verbatim>\<open>int\<close> that \<open>read_all\<close> received).\<close>

datatype event = Skip | Data "byte list" | Drop

definition event_of :: "input_image \<Rightarrow> event" where
  "event_of img =
     (if cmd img = CMD_DATA then Data (cdata_bytes (cdata img) (nat (sint (csize img))))
      else if cmd img = CMD_DROP then Drop
      else Skip)"

definition cmd_event :: "byte \<Rightarrow> event" where
  "cmd_event c = (if c = CMD_DROP then Drop else Skip)"

text \<open>\<open>n\<close> successive calls of \<open>read_next_cluster\<close>, with the events they present.\<close>

fun read_clusters :: "nat \<Rightarrow> input_image \<Rightarrow> bool \<Rightarrow> error + (event list \<times> input_image)" where
  "read_clusters 0 img allow_drop_cmd = Inr ([], img)"
| "read_clusters (Suc n) img allow_drop_cmd =
     (case read_next_cluster img allow_drop_cmd of
        Inl e \<Rightarrow> Inl e
      | Inr img1 \<Rightarrow>
          (case read_clusters n img1 allow_drop_cmd of
             Inl e \<Rightarrow> Inl e
           | Inr (evs, img2) \<Rightarrow> Inr (event_of img1 # evs, img2)))"

text \<open>\<open>n\<close> successive calls of \<open>write_cmd\<close> with the same command.\<close>

fun write_cmds :: "nat \<Rightarrow> output_image \<Rightarrow> byte \<Rightarrow> output_image" where
  "write_cmds 0 img c = img"
| "write_cmds (Suc n) img c = write_cmds n (write_cmd img c) c"

text \<open>Writing one event of a stream with clusters of \<open>sz\<close> bytes, and a list of them.\<close>

definition emit :: "32 word \<Rightarrow> output_image \<Rightarrow> event \<Rightarrow> error + output_image" where
  "emit sz img e =
     (case e of
        Skip \<Rightarrow> Inr (write_cmd img CMD_SKIP)
      | Drop \<Rightarrow> Inr (write_cmd img CMD_DROP)
      | Data p \<Rightarrow> write_data img p sz)"

fun emit_all :: "32 word \<Rightarrow> output_image \<Rightarrow> event list \<Rightarrow> error + output_image" where
  "emit_all sz img [] = Inr img"
| "emit_all sz img (e # es) =
     (case emit sz img e of
        Inl err \<Rightarrow> Inl err
      | Inr img1 \<Rightarrow> emit_all sz img1 es)"

text \<open>The per-cluster policies as the design document words them, on events (not taken
  from the code, and compared with \<open>delta_cluster\<close> and \<open>patch_cluster\<close> below): what
  generation emits for the events of OLD and NEW, and what patching emits for the events
  of OLD and DELTA.\<close>

fun spec_delta_event :: "event \<Rightarrow> event \<Rightarrow> event" where
  "spec_delta_event Skip Skip = Skip"
| "spec_delta_event (Data p) (Data q) = (if p = q then Skip else Data q)"
| "spec_delta_event old Skip = Drop"
| "spec_delta_event old new = new"

fun spec_patch_event :: "event \<Rightarrow> event \<Rightarrow> event" where
  "spec_patch_event old Drop = Skip"
| "spec_patch_event Skip Skip = Skip"
| "spec_patch_event old Skip = old"
| "spec_patch_event old delta = delta"

text \<open>A piece of a command stream decodes to a list of events: a reader for clusters of
  \<open>sz\<close> bytes that stands in front of it with no pending run reads exactly these events
  and then stands behind it with no pending run.\<close>

definition decodes_to :: "bool \<Rightarrow> 32 word \<Rightarrow> byte list \<Rightarrow> event list \<Rightarrow> bool" where
  "decodes_to allow_drop_cmd sz bytes evs =
     (\<forall>img rest. cmd_repeat img = 0 \<and> csize img = sz \<longrightarrow>
        (\<exists>img1. read_clusters (length evs) (img\<lparr>fd := bytes @ rest\<rparr>) allow_drop_cmd = Inr (evs, img1) \<and>
                fd img1 = rest \<and> cmd_repeat img1 = 0))"

text \<open>An event that a stream with clusters of \<open>sz\<close> bytes can hold: drop only where it
  is allowed, data with a payload of one cluster.\<close>

definition wf_event :: "bool \<Rightarrow> 32 word \<Rightarrow> event \<Rightarrow> bool" where
  "wf_event allow_drop_cmd sz e =
     (case e of Skip \<Rightarrow> True | Drop \<Rightarrow> allow_drop_cmd | Data p \<Rightarrow> length p = nat (sint sz))"

text \<open>The state of a writer that started as \<open>w0\<close> (no pending run) and was given the events
  \<open>evs\<close>: what it has written decodes to all events but the last \<open>k\<close>, which are its
  pending run.\<close>

definition writer_inv ::
  "bool \<Rightarrow> 32 word \<Rightarrow> output_image \<Rightarrow> output_image \<Rightarrow> event list \<Rightarrow> bool" where
  "writer_inv allow_drop_cmd sz w0 w evs =
     (\<exists>bytes k. ofd w = ofd w0 @ bytes \<and> k \<le> length evs \<and>
        decodes_to allow_drop_cmd sz bytes (take (length evs - k) evs) \<and>
        (if ocmd w = CMD_DATA then k = 0
         else (ocmd w = CMD_SKIP \<or> (allow_drop_cmd \<and> ocmd w = CMD_DROP)) \<and> 0 < k \<and>
              ocmd_repeat w = of_nat k \<and>
              drop (length evs - k) evs = replicate k (cmd_event (ocmd w))))"

text \<open>Two states used in examples: a reader with no pending run in front of the given
  bytes, for clusters of \<open>sz\<close> bytes, and a writer that has written nothing and has no
  pending run.\<close>

definition reader_at :: "byte list \<Rightarrow> 32 word \<Rightarrow> input_image" where
  "reader_at s sz =
     \<lparr> fd = s, hdr = [], hdr_extra = [], hdr_extra_len = 0, csize = sz, ccount = 0,
       bbs_present = False, cmd = 0, cmd_repeat = 0, cdata = [] \<rparr>"

definition writer_start :: output_image where
  "writer_start = \<lparr> ofd = [], ocmd = CMD_DATA, ocmd_repeat = 0 \<rparr>"

text \<open>The bytes of an example image file with the given magic, minor version, cluster
  size, device size, cluster count and in-use count (as little-endian bytes), a short
  extra block and a command stream.\<close>

definition image_file ::
  "byte list \<Rightarrow> byte \<Rightarrow> byte list \<Rightarrow> byte list \<Rightarrow> byte list \<Rightarrow> byte list \<Rightarrow>
   byte list \<Rightarrow> byte list \<Rightarrow> byte list" where
  "image_file magic minor cluster_size device_size nr_clusters inuse extra cmds =
     magic @ [NTFSCLONE_IMG_VER_MAJOR, minor] @ cluster_size @ device_size @ nr_clusters @
     inuse @ [of_nat (sizeof_image_hdr + length extra), 0, 0, 0] @ extra @ cmds"

text \<open>Example images with clusters of one byte. \<open>ex_old\<close>: old format, three clusters
  (data 5, then two unallocated). \<open>ex_new\<close>: new format, three clusters (data 5,
  unallocated, data 6) and the trailing cluster (data 9). \<open>ex_delta\<close> is the delta of
  the two.\<close>

definition ex_old :: "byte list" where
  "ex_old = image_file IMAGE_MAGIC 0 [1, 0, 0, 0] [3, 0, 0, 0, 0, 0, 0, 0] [3, 0, 0, 0, 0, 0, 0, 0]
     [1, 0, 0, 0, 0, 0, 0, 0] [] ([1, 5] @ [0, 2, 0, 0, 0, 0, 0, 0, 0])"

definition ex_new :: "byte list" where
  "ex_new = image_file IMAGE_MAGIC 1 [1, 0, 0, 0] [3, 0, 0, 0, 0, 0, 0, 0] [3, 0, 0, 0, 0, 0, 0, 0]
     [2, 0, 0, 0, 0, 0, 0, 0] [] ([1, 5] @ [0, 1, 0, 0, 0, 0, 0, 0, 0] @ [1, 6] @ [1, 9])"

definition ex_delta :: "byte list" where
  "ex_delta = image_file DELTA_MAGIC 1 [1, 0, 0, 0] [3, 0, 0, 0, 0, 0, 0, 0] [3, 0, 0, 0, 0, 0, 0, 0]
     [2, 0, 0, 0, 0, 0, 0, 0] [] ([0, 2, 0, 0, 0, 0, 0, 0, 0] @ [1, 6] @ [1, 9])"

text \<open>\<open>ex_split\<close>: old format, two unallocated clusters written as two run records of
  one cluster each; \<open>ex_merged\<close>: the same image with one run record of two clusters;
  \<open>ex_split_delta\<close>: the delta of \<open>ex_split\<close> with itself.\<close>

definition ex_split :: "byte list" where
  "ex_split = image_file IMAGE_MAGIC 0 [1, 0, 0, 0] [2, 0, 0, 0, 0, 0, 0, 0] [2, 0, 0, 0, 0, 0, 0, 0]
     [0, 0, 0, 0, 0, 0, 0, 0] [] ([0, 1, 0, 0, 0, 0, 0, 0, 0] @ [0, 1, 0, 0, 0, 0, 0, 0, 0])"

definition ex_merged :: "byte list" where
  "ex_merged = image_file IMAGE_MAGIC 0 [1, 0, 0, 0] [2, 0, 0, 0, 0, 0, 0, 0] [2, 0, 0, 0, 0, 0, 0, 0]
     [0, 0, 0, 0, 0, 0, 0, 0] [] [0, 2, 0, 0, 0, 0, 0, 0, 0]"

definition ex_split_delta :: "byte list" where
  "ex_split_delta = image_file DELTA_MAGIC 0 [1, 0, 0, 0] [2, 0, 0, 0, 0, 0, 0, 0]
     [2, 0, 0, 0, 0, 0, 0, 0] [0, 0, 0, 0, 0, 0, 0, 0] [] [0, 2, 0, 0, 0, 0, 0, 0, 0]"

text \<open>Images of the new format with one cluster (data 5) and a trailing cluster:
  \<open>ex_bbs9\<close> with the trailing cluster data 9, \<open>ex_bbs8\<close> with data 8;
  \<open>ex_bbs_same_delta\<close> is the delta of \<open>ex_bbs9\<close> with itself, \<open>ex_bbs_delta\<close> the
  delta from \<open>ex_bbs9\<close> to \<open>ex_bbs8\<close>; \<open>ex_bbs_cut\<close> is \<open>ex_bbs8\<close> without its
  trailing cluster.\<close>

definition ex_bbs9 :: "byte list" where
  "ex_bbs9 = image_file IMAGE_MAGIC 1 [1, 0, 0, 0] [1, 0, 0, 0, 0, 0, 0, 0] [1, 0, 0, 0, 0, 0, 0, 0]
     [1, 0, 0, 0, 0, 0, 0, 0] [] ([1, 5] @ [1, 9])"

definition ex_bbs8 :: "byte list" where
  "ex_bbs8 = image_file IMAGE_MAGIC 1 [1, 0, 0, 0] [1, 0, 0, 0, 0, 0, 0, 0] [1, 0, 0, 0, 0, 0, 0, 0]
     [1, 0, 0, 0, 0, 0, 0, 0] [] ([1, 5] @ [1, 8])"

definition ex_bbs_same_delta :: "byte list" where
  "ex_bbs_same_delta = image_file DELTA_MAGIC 1 [1, 0, 0, 0] [1, 0, 0, 0, 0, 0, 0, 0]
     [1, 0, 0, 0, 0, 0, 0, 0] [1, 0, 0, 0, 0, 0, 0, 0] [] [0, 2, 0, 0, 0, 0, 0, 0, 0]"

definition ex_bbs_delta :: "byte list" where
  "ex_bbs_delta = image_file DELTA_MAGIC 1 [1, 0, 0, 0] [1, 0, 0, 0, 0, 0, 0, 0]
     [1, 0, 0, 0, 0, 0, 0, 0] [1, 0, 0, 0, 0, 0, 0, 0] [] ([0, 1, 0, 0, 0, 0, 0, 0, 0] @ [1, 8])"

definition ex_bbs_cut :: "byte list" where
  "ex_bbs_cut = image_file IMAGE_MAGIC 1 [1, 0, 0, 0] [1, 0, 0, 0, 0, 0, 0, 0] [1, 0, 0, 0, 0, 0, 0, 0]
     [1, 0, 0, 0, 0, 0, 0, 0] [] [1, 5]"

text \<open>\<open>ex_merged_inuse\<close> is \<open>ex_merged\<close> with a different in-use count, and
  \<open>ex_merged_inuse_delta\<close> the delta from \<open>ex_merged\<close> to it.\<close>

definition ex_merged_inuse :: "byte list" where
  "ex_merged_inuse = image_file IMAGE_MAGIC 0 [1, 0, 0, 0] [2, 0, 0, 0, 0, 0, 0, 0]
     [2, 0, 0, 0, 0, 0, 0, 0] [1, 0, 0, 0, 0, 0, 0, 0] [] [0, 2, 0, 0, 0, 0, 0, 0, 0]"

definition ex_merged_inuse_delta :: "byte list" where
  "ex_merged_inuse_delta = image_file DELTA_MAGIC 0 [1, 0, 0, 0] [2, 0, 0, 0, 0, 0, 0, 0]
     [2, 0, 0, 0, 0, 0, 0, 0] [1, 0, 0, 0, 0, 0, 0, 0] [] [0, 2, 0, 0, 0, 0, 0, 0, 0]"

text \<open>Images whose command stream does not hold the declared number of clusters:
  \<open>ex_run3\<close> declares two clusters and holds one run of three; \<open>ex_run3_delta\<close> is a
  delta file of the same shape; \<open>ex_long\<close> declares one cluster and holds two data
  records (\<open>ex_long_delta\<close> is its delta with itself); \<open>ex_short\<close> declares two
  clusters and holds one data record, and \<open>ex_short_delta\<close> is a delta file of the
  same shape.\<close>

definition ex_run3 :: "byte list" where
  "ex_run3 = image_file IMAGE_MAGIC 0 [1, 0, 0, 0] [2, 0, 0, 0, 0, 0, 0, 0] [2, 0, 0, 0, 0, 0, 0, 0]
     [0, 0, 0, 0, 0, 0, 0, 0] [] [0, 3, 0, 0, 0, 0, 0, 0, 0]"

definition ex_run3_delta :: "byte list" where
  "ex_run3_delta = image_file DELTA_MAGIC 0 [1, 0, 0, 0] [2, 0, 0, 0, 0, 0, 0, 0]
     [2, 0, 0, 0, 0, 0, 0, 0] [0, 0, 0, 0, 0, 0, 0, 0] [] [0, 3, 0, 0, 0, 0, 0, 0, 0]"

definition ex_long :: "byte list" where
  "ex_long = image_file IMAGE_MAGIC 0 [1, 0, 0, 0] [1, 0, 0, 0, 0, 0, 0, 0] [1, 0, 0, 0, 0, 0, 0, 0]
     [2, 0, 0, 0, 0, 0, 0, 0] [] ([1, 5] @ [1, 9])"

definition ex_long_delta :: "byte list" where
  "ex_long_delta = image_file DELTA_MAGIC 0 [1, 0, 0, 0] [1, 0, 0, 0, 0, 0, 0, 0]
     [1, 0, 0, 0, 0, 0, 0, 0] [2, 0, 0, 0, 0, 0, 0, 0] [] [0, 1, 0, 0, 0, 0, 0, 0, 0]"

definition ex_short :: "byte list" where
  "ex_short = image_file IMAGE_MAGIC 0 [1, 0, 0, 0] [2, 0, 0, 0, 0, 0, 0, 0] [2, 0, 0, 0, 0, 0, 0, 0]
     [1, 0, 0, 0, 0, 0, 0, 0] [] [1, 5]"

definition ex_short_delta :: "byte list" where
  "ex_short_delta = image_file DELTA_MAGIC 0 [1, 0, 0, 0] [2, 0, 0, 0, 0, 0, 0, 0]
     [2, 0, 0, 0, 0, 0, 0, 0] [1, 0, 0, 0, 0, 0, 0, 0] [] [1, 5]"

section \<open>Facts about little-endian words\<close>

lemma byte_step:
  "ucast (ucast (drop_bit k w) :: byte) OR push_bit 8 (drop_bit (k + 8) w) = drop_bit k (w :: 64 word)"
  apply (rule bit_word_eqI)
  apply (simp add: bit_simps)
  apply (metis add.commute add.left_commute le_add_diff_inverse not_less)
  done

lemma le_word_sle64_bytes: "(le_word (sle64_bytes w) :: 64 word) = w"
proof -
  have 7: "ucast (ucast (drop_bit 56 w) :: byte) = drop_bit 56 w"
    using byte_step [of 56 w] by simp
  have 6: "ucast (ucast (drop_bit 48 w) :: byte) OR push_bit 8 (drop_bit 56 w) = drop_bit 48 w"
    using byte_step [of 48 w] by simp
  have 5: "ucast (ucast (drop_bit 40 w) :: byte) OR push_bit 8 (drop_bit 48 w) = drop_bit 40 w"
    using byte_step [of 40 w] by simp
  have 4: "ucast (ucast (drop_bit 32 w) :: byte) OR push_bit 8 (drop_bit 40 w) = drop_bit 32 w"
    using byte_step [of 32 w] by simp
  have 3: "ucast (ucast (drop_bit 24 w) :: byte) OR push_bit 8 (drop_bit 32 w) = drop_bit 24 w"
    using byte_step [of 24 w] by simp
  have 2: "ucast (ucast (drop_bit 16 w) :: byte) OR push_bit 8 (drop_bit 24 w) = drop_bit 16 w"
    using byte_step [of 16 w] by simp
  have 1: "ucast (ucast (drop_bit 8 w) :: byte) OR push_bit 8 (drop_bit 16 w) = drop_bit 8 w"
    using byte_step [of 8 w] by simp
  have 0: "ucast (ucast w :: byte) OR push_bit 8 (drop_bit 8 w) = w"
    using byte_step [of 0 w] by simp
  show ?thesis
    by (simp add: sle64_bytes_def 7 6 5 4 3 2 1 0)
qed

lemma length_sle64_bytes: "length (sle64_bytes w) = 8"
  by (simp add: sle64_bytes_def)

lemma sint_of_nat_64: "n < 2 ^ 63 \<Longrightarrow> sint (of_nat n :: 64 word) = int n"
  by (simp add: signed_of_nat signed_take_bit_int_eq_self)

lemma sless_of_nat_64: "n < 2 ^ 63 \<Longrightarrow> (0 <s (of_nat n :: 64 word)) = (0 < n)"
  by (simp add: word_sless_alt sint_of_nat_64)

lemma of_nat_64_eq_0: "n < 2 ^ 63 \<Longrightarrow> ((of_nat n :: 64 word) = 0) = (n = 0)"
proof
  assume a: "n < 2 ^ 63" "(of_nat n :: 64 word) = 0"
  then have "sint (of_nat n :: 64 word) = 0" by simp
  with a(1) show "n = 0" by (simp add: sint_of_nat_64)
qed simp

section \<open>Facts about the reader\<close>

lemma read_pending:
  "0 <s cmd_repeat img \<Longrightarrow>
   read_next_cluster img a = Inr (img\<lparr>cmd_repeat := cmd_repeat img - 1\<rparr>)"
  by (simp add: read_next_cluster_def)

lemma read_all_append:
  "0 < n \<Longrightarrow> int (length bs) = n \<Longrightarrow> read_all (bs @ rest) n = Inr (bs, rest)"
  by (auto simp: read_all_def)

lemma read_run_record:
  assumes "\<not> 0 <s cmd_repeat img" "fd img = c # sle64_bytes r @ rest"
    and "c = CMD_SKIP \<or> (a \<and> c = CMD_DROP)"
  shows "read_next_cluster img a =
           (if r = 0 then Inl ZeroRepeat
            else Inr (img\<lparr>fd := rest, cmd := c, cmd_repeat := r - 1\<rparr>))"
proof -
  have 1: "read_all (fd img) 1 = Inr ([c], sle64_bytes r @ rest)"
    using assms(2) by (simp add: read_all_def)
  have 2: "read_all (sle64_bytes r @ rest) 8 = Inr (sle64_bytes r, rest)"
    by (rule read_all_append) (simp_all add: length_sle64_bytes)
  show ?thesis
    using assms(1,3) by (simp add: read_next_cluster_def 1 2 Let_def le_word_sle64_bytes)
qed

lemma read_data_record:
  assumes "\<not> 0 <s cmd_repeat img" "fd img = CMD_DATA # p @ rest"
    and "length p = nat (sint (csize img))" "length p \<le> NTFS_MAX_CLUSTER_SIZE"
  shows "read_next_cluster img a =
           Inr (img\<lparr>fd := rest, cmd := CMD_DATA, cdata := p @ drop (length p) (cdata img)\<rparr>)"
proof -
  have 1: "read_all (fd img) 1 = Inr ([CMD_DATA], p @ rest)"
    using assms(2) by (simp add: read_all_def)
  have 2: "read_all (p @ rest) (sint (csize img)) = Inr (p, rest)"
    using assms(3) by (cases "0 < sint (csize img)") (simp_all add: read_all_def)
  have 3: "\<not> int NTFS_MAX_CLUSTER_SIZE < sint (csize img)"
    using assms(3,4) by (cases "0 < sint (csize img)") simp_all
  show ?thesis
    using assms(1) 3
    by (simp add: read_next_cluster_def 1 2 Let_def CMD_DATA_def CMD_SKIP_def CMD_DROP_def
          min_less_iff_conj del: length_append)
qed

lemma read_clusters_pending:
  "k < 2 ^ 63 \<Longrightarrow> cmd_repeat img = of_nat k \<Longrightarrow>
   read_clusters k img a = Inr (replicate k (event_of img), img\<lparr>cmd_repeat := 0\<rparr>)"
proof (induction k arbitrary: img)
  case 0
  then show ?case by simp
next
  case (Suc k)
  have pos: "0 <s cmd_repeat img"
    using Suc.prems by (simp add: sless_of_nat_64 del: of_nat_Suc)
  have step: "read_next_cluster img a = Inr (img\<lparr>cmd_repeat := of_nat k\<rparr>)"
    using Suc.prems(2) by (simp add: read_pending [OF pos])
  have "read_clusters k (img\<lparr>cmd_repeat := of_nat k\<rparr>) a =
          Inr (replicate k (event_of (img\<lparr>cmd_repeat := of_nat k\<rparr>)),
               img\<lparr>cmd_repeat := of_nat k\<rparr>\<lparr>cmd_repeat := 0\<rparr>)"
    using Suc.prems(1) by (intro Suc.IH) simp_all
  then show ?case
    by (simp add: step event_of_def)
qed

lemma read_clusters_run:
  assumes "\<not> 0 <s cmd_repeat img" "fd img = c # sle64_bytes (of_nat n) @ rest"
    and "c = CMD_SKIP \<or> (a \<and> c = CMD_DROP)" "0 < n" "n < 2 ^ 63"
  shows "read_clusters n img a =
           Inr (replicate n (cmd_event c), img\<lparr>fd := rest, cmd := c, cmd_repeat := 0\<rparr>)"
proof -
  obtain k where n: "n = Suc k" using assms(4) by (cases n) auto
  let ?img1 = "img\<lparr>fd := rest, cmd := c, cmd_repeat := of_nat k\<rparr>"
  have nz: "(of_nat n :: 64 word) \<noteq> 0"
    using assms(4,5) by (simp add: of_nat_64_eq_0)
  have step: "read_next_cluster img a = Inr ?img1"
    using read_run_record [OF assms(1,2,3)] nz by (simp add: n)
  have ev: "event_of ?img1 = cmd_event c"
    using assms(3) by (auto simp: event_of_def cmd_event_def CMD_SKIP_def CMD_DATA_def CMD_DROP_def)
  have "read_clusters k ?img1 a = Inr (replicate k (event_of ?img1), ?img1\<lparr>cmd_repeat := 0\<rparr>)"
    using assms(5) n by (intro read_clusters_pending) simp_all
  then show ?thesis
    by (simp add: n step ev)
qed

section \<open>Facts about the writer\<close>

lemma write_cmds_same:
  "ocmd w = c \<Longrightarrow> write_cmds n w c = w\<lparr>ocmd_repeat := ocmd_repeat w + of_nat n\<rparr>"
  by (induction n arbitrary: w) (simp_all add: write_cmd_def add.assoc add.commute)

lemma write_cmds_fresh:
  "ocmd w \<noteq> c \<Longrightarrow>
   write_cmds (Suc n) w c = (write_pending_cmd w)\<lparr>ocmd := c, ocmd_repeat := of_nat (Suc n)\<rparr>"
  by (simp add: write_cmd_def write_cmds_same add.commute)

lemma write_pending_cmd_run:
  "ocmd w \<noteq> CMD_DATA \<Longrightarrow>
   write_pending_cmd w =
     w\<lparr>ofd := ofd w @ ocmd w # sle64_bytes (ocmd_repeat w), ocmd := CMD_DATA, ocmd_repeat := 0\<rparr>"
  by (simp add: write_pending_cmd_def write_all_def Let_def length_sle64_bytes)

lemma write_pending_cmd_none: "ocmd w = CMD_DATA \<Longrightarrow> write_pending_cmd w = w"
  by (simp add: write_pending_cmd_def)

lemma ocmd_write_pending_cmd: "ocmd (write_pending_cmd w) = CMD_DATA"
  by (simp add: write_pending_cmd_def Let_def)

lemma ocmd_repeat_write_pending_cmd:
  "ocmd w \<noteq> CMD_DATA \<or> ocmd_repeat w = 0 \<Longrightarrow> ocmd_repeat (write_pending_cmd w) = 0"
  by (auto simp: write_pending_cmd_def Let_def)

lemma write_cmds_flush:
  assumes "ocmd w \<noteq> c" "c \<noteq> CMD_DATA" "0 < n"
  shows "ofd (write_pending_cmd (write_cmds n w c)) =
           ofd (write_pending_cmd w) @ c # sle64_bytes (of_nat n)"
proof -
  obtain k where n: "n = Suc k" using assms(3) by (cases n) auto
  show ?thesis
    unfolding n write_cmds_fresh [OF assms(1)] using assms(2)
    by (simp add: write_pending_cmd_run ocmd_write_pending_cmd del: of_nat_Suc)
qed

lemma emit_pending_bound:
  assumes "emit sz w e = Inr w'" "ocmd w = CMD_DATA \<or> (0 < unat (ocmd_repeat w) \<and> unat (ocmd_repeat w) \<le> k)"
    and "Suc k < 2 ^ 64"
  shows "ocmd w' = CMD_DATA \<or> (0 < unat (ocmd_repeat w') \<and> unat (ocmd_repeat w') \<le> Suc k)"
proof (cases e)
  case Skip
  show ?thesis
  proof (cases "ocmd w = CMD_SKIP")
    case True
    then have b: "0 < unat (ocmd_repeat w)" "unat (ocmd_repeat w) \<le> k"
      using assms(2) by (auto simp: CMD_SKIP_def CMD_DATA_def)
    have "unat (ocmd_repeat w + 1) = unat (ocmd_repeat w) + 1"
      using b assms(3) by (simp add: unat_word_ariths)
    with b assms(1) Skip True show ?thesis
      by (auto simp: emit_def write_cmd_def)
  next
    case False
    with assms(1) Skip show ?thesis by (auto simp: emit_def write_cmd_def)
  qed
next
  case Drop
  show ?thesis
  proof (cases "ocmd w = CMD_DROP")
    case True
    then have b: "0 < unat (ocmd_repeat w)" "unat (ocmd_repeat w) \<le> k"
      using assms(2) by (auto simp: CMD_DROP_def CMD_DATA_def)
    have "unat (ocmd_repeat w + 1) = unat (ocmd_repeat w) + 1"
      using b assms(3) by (simp add: unat_word_ariths)
    with b assms(1) Drop True show ?thesis
      by (auto simp: emit_def write_cmd_def)
  next
    case False
    with assms(1) Drop show ?thesis by (auto simp: emit_def write_cmd_def)
  qed
next
  case (Data p)
  with assms(1) show ?thesis
    by (auto simp: emit_def write_data_def Let_def ocmd_write_pending_cmd split: if_splits)
qed

lemma emit_all_pending_bound:
  "emit_all sz w evs = Inr w' \<Longrightarrow>
   ocmd w = CMD_DATA \<or> (0 < unat (ocmd_repeat w) \<and> unat (ocmd_repeat w) \<le> k) \<Longrightarrow>
   k + length evs < 2 ^ 64 \<Longrightarrow>
   ocmd w' = CMD_DATA \<or> (0 < unat (ocmd_repeat w') \<and> unat (ocmd_repeat w') \<le> k + length evs)"
proof (induction evs arbitrary: w k)
  case Nil
  then show ?case by simp
next
  case (Cons e es)
  from Cons.prems(1) obtain w1 where 1: "emit sz w e = Inr w1" and 2: "emit_all sz w1 es = Inr w'"
    by (auto split: sum.splits)
  have 3: "ocmd w1 = CMD_DATA \<or> (0 < unat (ocmd_repeat w1) \<and> unat (ocmd_repeat w1) \<le> Suc k)"
    using emit_pending_bound [OF 1 Cons.prems(2)] Cons.prems(3) by simp
  show ?case
    using Cons.IH [OF 2 3] Cons.prems(3) by simp
qed

lemma of_nat_nat_sint: "0 <s (r :: 64 word) \<Longrightarrow> of_nat (nat (sint r)) = r"
  by (simp add: word_sless_alt)

lemma nat_sint_less: "nat (sint (r :: 64 word)) < 2 ^ 63"
  using sint_lt [of r] by simp

lemma read_clusters_numeral:
  "read_clusters (numeral k) img a =
     (case read_next_cluster img a of
        Inl e \<Rightarrow> Inl e
      | Inr img1 \<Rightarrow>
          (case read_clusters (pred_numeral k) img1 a of
             Inl e \<Rightarrow> Inl e
           | Inr (evs, img2) \<Rightarrow> Inr (event_of img1 # evs, img2)))"
  by (simp add: numeral_eq_Suc)

lemma write_cmds_numeral:
  "write_cmds (numeral k) w c = write_cmds (pred_numeral k) (write_cmd w c) c"
  by (simp add: numeral_eq_Suc)

lemma emit_all_replicate_Skip:
  "emit_all sz w (replicate n Skip) = Inr (write_cmds n w CMD_SKIP)"
  by (induction n arbitrary: w) (simp_all add: emit_def)

lemma emit_all_replicate_Drop:
  "emit_all sz w (replicate n Drop) = Inr (write_cmds n w CMD_DROP)"
  by (induction n arbitrary: w) (simp_all add: emit_def)

lemma length_cdata_bytes: "length (cdata_bytes buf n) = n"
  by (simp add: cdata_bytes_def)

lemma cdata_bytes_self: "length p = n \<Longrightarrow> cdata_bytes p n = p"
  by (simp add: cdata_bytes_def)

lemma cdata_bytes_idem: "cdata_bytes (cdata_bytes buf n) n = cdata_bytes buf n"
  by (rule cdata_bytes_self) (rule length_cdata_bytes)

lemma nat_sint_csize: "unat (sz :: 32 word) \<le> NTFS_MAX_CLUSTER_SIZE \<Longrightarrow> nat (sint sz) = unat sz"
proof -
  assume a: "unat sz \<le> NTFS_MAX_CLUSTER_SIZE"
  from a have "unat sz \<le> 65536" by (simp add: NTFS_MAX_CLUSTER_SIZE_def)
  then have "uint sz \<le> 65536" using uint_nat [of sz] by linarith
  then have "uint sz < 2 ^ 31" by simp
  moreover have "- (2 ^ 31) \<le> uint sz"
    by (rule order_trans [of _ 0]) simp_all
  ultimately have "sint sz = uint sz"
    by (simp add: sint_uint signed_take_bit_int_eq_self)
  then show ?thesis by simp
qed

lemma write_data_emit:
  "write_data w buf sz = emit sz w (Data (cdata_bytes buf (nat (sint sz))))"
  by (simp add: emit_def write_data_def cdata_bytes_idem Let_def)

section \<open>Facts about the loop bodies\<close>

lemma emit_Skip: "emit sz w Skip = Inr (write_cmd w CMD_SKIP)"
  by (simp add: emit_def)

lemma emit_Drop: "emit sz w Drop = Inr (write_cmd w CMD_DROP)"
  by (simp add: emit_def)

lemma read_next_cluster_fields:
  assumes "read_next_cluster img a = Inr img1"
  shows "csize img1 = csize img \<and> ccount img1 = ccount img \<and> bbs_present img1 = bbs_present img \<and>
         hdr img1 = hdr img \<and> hdr_extra img1 = hdr_extra img \<and> hdr_extra_len img1 = hdr_extra_len img"
  using assms
  by (auto simp: read_next_cluster_def Let_def split: if_splits sum.splits prod.splits)

lemma read_next_cluster_cmd:
  assumes "read_next_cluster img a = Inr img1"
    and "cmd img = CMD_SKIP \<or> cmd img = CMD_DATA \<or> (a \<and> cmd img = CMD_DROP)"
  shows "cmd img1 = CMD_SKIP \<or> cmd img1 = CMD_DATA \<or> (a \<and> cmd img1 = CMD_DROP)"
  using assms
  by (auto simp: read_next_cluster_def Let_def split: if_splits sum.splits prod.splits)

lemma delta_cluster_emit:
  assumes "cmd old = CMD_SKIP \<or> cmd old = CMD_DATA" "cmd new = CMD_SKIP \<or> cmd new = CMD_DATA"
    and "csize new = csize old"
    and "unat (csize old) \<le> NTFS_MAX_CLUSTER_SIZE \<or> \<not> (cmd old = CMD_DATA \<and> cmd new = CMD_DATA)"
  shows "delta_cluster old new delta =
           emit (csize new) delta (spec_delta_event (event_of old) (event_of new))"
proof -
  have ne: "CMD_SKIP \<noteq> CMD_DATA" "CMD_DROP \<noteq> CMD_DATA" "CMD_SKIP \<noteq> CMD_DROP"
    by (simp_all add: CMD_SKIP_def CMD_DATA_def CMD_DROP_def)
  consider (ss) "cmd old = CMD_SKIP" "cmd new = CMD_SKIP"
    | (sd) "cmd old = CMD_SKIP" "cmd new = CMD_DATA"
    | (ds) "cmd old = CMD_DATA" "cmd new = CMD_SKIP"
    | (dd) "cmd old = CMD_DATA" "cmd new = CMD_DATA"
    using assms(1,2) by blast
  then show ?thesis
  proof cases
    case ss
    then show ?thesis using ne by (simp add: delta_cluster_def event_of_def emit_Skip emit_Drop)
  next
    case sd
    then show ?thesis using ne
      by (simp add: delta_cluster_def event_of_def write_data_emit)
  next
    case ds
    then show ?thesis using ne
      by (simp add: delta_cluster_def event_of_def emit_Skip emit_Drop)
  next
    case dd
    with assms(4) have b: "unat (csize old) \<le> NTFS_MAX_CLUSTER_SIZE" by simp
    then have n: "nat (sint (csize old)) = unat (csize old)" by (rule nat_sint_csize)
    show ?thesis using dd ne b n assms(3)
      by (simp add: delta_cluster_def event_of_def memcmp_cdata_def Let_def write_data_emit emit_Skip emit_Drop)
  qed
qed

lemma delta_cluster_bound:
  assumes "delta_cluster old new delta = Inr d" "cmd old = CMD_DATA" "cmd new = CMD_DATA"
  shows "unat (csize old) \<le> NTFS_MAX_CLUSTER_SIZE"
  using assms
  by (auto simp: delta_cluster_def memcmp_cdata_def Let_def CMD_SKIP_def CMD_DATA_def split: if_splits)

lemma patch_cluster_emit:
  assumes "cmd old = CMD_SKIP \<or> cmd old = CMD_DATA"
    and "cmd delta = CMD_SKIP \<or> cmd delta = CMD_DATA \<or> cmd delta = CMD_DROP"
    and "csize delta = csize old"
  shows "patch_cluster old delta new =
           emit (csize old) new (spec_patch_event (event_of old) (event_of delta))"
proof -
  have ne: "CMD_SKIP \<noteq> CMD_DATA" "CMD_DROP \<noteq> CMD_DATA" "CMD_SKIP \<noteq> CMD_DROP"
    by (simp_all add: CMD_SKIP_def CMD_DATA_def CMD_DROP_def)
  consider (drop) "cmd delta = CMD_DROP"
    | (ss) "cmd old = CMD_SKIP" "cmd delta = CMD_SKIP"
    | (ds) "cmd old = CMD_DATA" "cmd delta = CMD_SKIP"
    | (sd) "cmd old = CMD_SKIP" "cmd delta = CMD_DATA"
    | (dd) "cmd old = CMD_DATA" "cmd delta = CMD_DATA"
    using assms(1,2) by blast
  then show ?thesis
  proof cases
    case drop
    then show ?thesis using ne by (simp add: patch_cluster_def event_of_def emit_Skip emit_Drop)
  next
    case ss
    then show ?thesis using ne by (simp add: patch_cluster_def event_of_def emit_Skip emit_Drop)
  next
    case ds
    then show ?thesis using ne by (simp add: patch_cluster_def event_of_def write_data_emit)
  next
    case sd
    then show ?thesis using ne assms(3) by (simp add: patch_cluster_def event_of_def write_data_emit)
  next
    case dd
    then show ?thesis using ne assms(3) by (simp add: patch_cluster_def event_of_def write_data_emit)
  qed
qed


lemma emit_ok:
  "unat sz \<le> NTFS_MAX_CLUSTER_SIZE \<Longrightarrow> \<exists>w1. emit sz w e = Inr w1"
proof -
  assume a: "unat sz \<le> NTFS_MAX_CLUSTER_SIZE"
  have "int (nat (sint sz)) \<le> int NTFS_MAX_CLUSTER_SIZE"
    using a by (simp only: nat_sint_csize [OF a] of_nat_le_iff)
  then have "\<not> int NTFS_MAX_CLUSTER_SIZE < sint sz" by linarith
  then show ?thesis
    by (cases e) (simp_all add: emit_def write_data_def Let_def)
qed

section \<open>Facts about opening and preparing images\<close>

lemma word_not_gt_0: "\<not> 0 < (w :: 'a::len word) \<Longrightarrow> w = 0"
  using word_gt_0 [of w] by auto

lemma read_all_Inr:
  "read_all f n = Inr (bs, rest) \<Longrightarrow> f = bs @ rest \<and> length bs = nat n"
  by (auto simp: read_all_def split: if_splits)

lemma open_input_image_Inr:
  assumes "open_input_image file magic = Inr img"
  shows "file = hdr img @ hdr_extra img @ fd img \<and> length (hdr img) = 50 \<and>
         take 16 (hdr img) = take 16 magic \<and>
         hdr_major_ver (hdr img) = NTFSCLONE_IMG_VER_MAJOR \<and>
         (hdr_minor_ver (hdr img) = NTFSCLONE_IMG_VER_MINOR_OLD \<or>
          hdr_minor_ver (hdr img) = NTFSCLONE_IMG_VER_MINOR_NEW) \<and>
         hdr_extra_len img = le_word (hdr_offset_to_image_data (hdr img)) - 50 \<and>
         length (hdr_extra img) = nat (sint (hdr_extra_len img)) \<and>
         csize img = le_word (hdr_cluster_size (hdr img)) \<and>
         ccount img = le_word (hdr_nr_clusters (hdr img)) \<and>
         bbs_present img = (hdr_minor_ver (hdr img) = NTFSCLONE_IMG_VER_MINOR_NEW) \<and>
         cmd img = 0 \<and> cmd_repeat img = 0 \<and> cdata img = []"
proof -
  from assms obtain h fd1 where 1: "read_all file 46 = Inr (h, fd1)"
    by (auto simp: open_input_image_def split: sum.splits)
  from assms 1 have 2: "take IMAGE_MAGIC_SIZE (hdr_magic h) = take IMAGE_MAGIC_SIZE magic"
    and 3: "hdr_major_ver h = NTFSCLONE_IMG_VER_MAJOR"
      "hdr_minor_ver h = NTFSCLONE_IMG_VER_MINOR_OLD \<or> hdr_minor_ver h = NTFSCLONE_IMG_VER_MINOR_NEW"
    by (auto simp: open_input_image_def split: if_splits)
  from assms 1 2 3 obtain off fd2 where 4: "read_all fd1 4 = Inr (off, fd2)"
    by (auto simp: open_input_image_def split: sum.splits)
  let ?len = "(le_word off :: 32 word) - 50"
  from assms 1 2 3 4 obtain extra fd3 where
    5: "(if 0 < ?len then read_all fd2 (sint ?len) else Inr ([], fd2)) = Inr (extra, fd3)"
    by (auto simp: open_input_image_def sizeof_image_hdr_def Let_def split: sum.splits)
  from assms 1 2 3 4 5 have img: "img = \<lparr> fd = fd3, hdr = h @ off, hdr_extra = extra, hdr_extra_len = ?len,
                            csize = le_word (hdr_cluster_size h),
                            ccount = le_word (hdr_nr_clusters h),
                            bbs_present = (hdr_minor_ver h = NTFSCLONE_IMG_VER_MINOR_NEW),
                            cmd = 0, cmd_repeat = 0, cdata = [] \<rparr>"
    by (auto simp: open_input_image_def sizeof_image_hdr_def Let_def split: sum.splits)
  have h: "file = h @ fd1" "length h = 46" using read_all_Inr [OF 1] by simp_all
  have off: "fd1 = off @ fd2" "length off = 4" using read_all_Inr [OF 4] by simp_all
  have extra: "fd2 = extra @ fd3 \<and> length extra = nat (sint ?len)"
  proof (cases "0 < ?len")
    case True
    with 5 show ?thesis using read_all_Inr [of fd2 "sint ?len" extra fd3] by simp
  next
    case False
    then have "?len = 0" by (rule word_not_gt_0)
    with 5 show ?thesis by simp
  qed
  show ?thesis
    unfolding img using h off extra 2 3
    by (simp add: hdr_magic_def hdr_major_ver_def hdr_minor_ver_def hdr_cluster_size_def
          hdr_nr_clusters_def hdr_offset_to_image_data_def nth_append IMAGE_MAGIC_SIZE_def)
qed

lemma read_all_append2:
  "length bs = nat n \<Longrightarrow> read_all (bs @ rest) n = Inr (bs, rest)"
  by (cases "0 < n") (simp_all add: read_all_def)

lemma open_input_image_intro:
  assumes "length h = 50" "take 16 h = take 16 magic"
    and "hdr_major_ver h = NTFSCLONE_IMG_VER_MAJOR"
    and "hdr_minor_ver h = NTFSCLONE_IMG_VER_MINOR_OLD \<or> hdr_minor_ver h = NTFSCLONE_IMG_VER_MINOR_NEW"
    and "len = le_word (hdr_offset_to_image_data h) - 50"
    and "length extra = nat (sint len)"
  shows "open_input_image (h @ extra @ rest) magic =
           Inr \<lparr> fd = rest, hdr = h, hdr_extra = extra, hdr_extra_len = len,
                 csize = le_word (hdr_cluster_size h),
                 ccount = le_word (hdr_nr_clusters h),
                 bbs_present = (hdr_minor_ver h = NTFSCLONE_IMG_VER_MINOR_NEW),
                 cmd = 0, cmd_repeat = 0, cdata = [] \<rparr>"
proof -
  let ?h = "take 46 h" and ?off = "drop 46 h"
  have 1: "read_all (h @ t) 46 = Inr (?h, ?off @ t)" for t
    using assms(1) by (simp add: read_all_def)
  have 2: "read_all (?off @ t) 4 = Inr (?off, t)" for t
    using assms(1) by (intro read_all_append2) simp
  have acc: "hdr_magic ?h = take 16 h" "hdr_major_ver ?h = hdr_major_ver h"
    "hdr_minor_ver ?h = hdr_minor_ver h" "hdr_cluster_size ?h = hdr_cluster_size h"
    "hdr_nr_clusters ?h = hdr_nr_clusters h"
    using assms(1)
    by (simp_all add: hdr_magic_def hdr_major_ver_def hdr_minor_ver_def hdr_cluster_size_def
          hdr_nr_clusters_def drop_take)
  have len: "le_word ?off - 50 = len"
    using assms(1,5) by (simp add: hdr_offset_to_image_data_def)
  show ?thesis
  proof (cases "0 < len")
    case True
    have 3: "read_all (extra @ rest) (sint len) = Inr (extra, rest)"
      using assms(6) by (simp add: read_all_append2)
    show ?thesis
      using assms(2,3,4) True
      by (simp add: open_input_image_def 1 2 3 acc IMAGE_MAGIC_SIZE_def sizeof_image_hdr_def
            len Let_def)
  next
    case False
    then have "len = 0" by (rule word_not_gt_0)
    then have "extra = []" "\<not> 0 < len" using assms(6) by simp_all
    then show ?thesis
      using assms(2,3,4)
      by (simp add: open_input_image_def 1 2 acc IMAGE_MAGIC_SIZE_def sizeof_image_hdr_def
            len Let_def)
  qed
qed

lemmas eval_open = image_file_def IMAGE_MAGIC_def DELTA_MAGIC_def open_input_image_def read_all_def
  IMAGE_MAGIC_SIZE_def hdr_magic_def hdr_major_ver_def hdr_minor_ver_def
  NTFSCLONE_IMG_VER_MAJOR_def NTFSCLONE_IMG_VER_MINOR_OLD_def NTFSCLONE_IMG_VER_MINOR_NEW_def
  sizeof_image_hdr_def hdr_cluster_size_def hdr_nr_clusters_def Let_def

lemmas eval_prepare = prepare_image_files_def memcmp_def offsetof_cluster_size_def
  offsetof_inuse_def create_output_image_def write_all_def CMD_SKIP_def CMD_DATA_def CMD_DROP_def

lemmas eval_codec = read_next_cluster_def write_cmd_def write_pending_cmd_def write_data_def
  sle64_bytes_def cdata_bytes_def NTFS_MAX_CLUSTER_SIZE_def word_sless_alt memcmp_cdata_def
  delta_cluster_def patch_cluster_def delta_tail_def patch_tail_def finish_image_files_def
  patch_count_def

lemma header_slices:
  assumes "38 \<le> length h1" "38 \<le> length h2"
  shows "(take 20 (drop 18 h1) = take 20 (drop 18 h2)) =
         (hdr_cluster_size h1 = hdr_cluster_size h2 \<and> hdr_device_size h1 = hdr_device_size h2 \<and>
          hdr_nr_clusters h1 = hdr_nr_clusters h2)"
proof -
  have s: "take 20 (drop 18 h) = hdr_cluster_size h @ hdr_device_size h @ hdr_nr_clusters h" for h
  proof -
    have "take 20 (drop 18 h) = take 4 (drop 18 h) @ take 16 (drop 4 (drop 18 h))"
      using take_add [of 4 16 "drop 18 h"] by simp
    also have "take 16 (drop 4 (drop 18 h)) = take 8 (drop 22 h) @ take 8 (drop 8 (drop 22 h))"
      using take_add [of 8 8 "drop 22 h"] by simp
    finally show ?thesis
      by (simp add: hdr_cluster_size_def hdr_device_size_def hdr_nr_clusters_def)
  qed
  have l: "length (hdr_cluster_size h1) = length (hdr_cluster_size h2)"
    "length (hdr_device_size h1) = length (hdr_device_size h2)"
    using assms by (simp_all add: hdr_cluster_size_def hdr_device_size_def)
  show ?thesis
    unfolding s using l by simp
qed

lemma prepare_image_files_checks:
  assumes "open_input_image file1 magic1 = Inr img1" "open_input_image file2 magic2 = Inr img2"
  shows "prepare_image_files file1 magic1 file2 magic2 magic3 =
           (if hdr_cluster_size (hdr img1) \<noteq> hdr_cluster_size (hdr img2) \<or>
               hdr_device_size (hdr img1) \<noteq> hdr_device_size (hdr img2) \<or>
               hdr_nr_clusters (hdr img1) \<noteq> hdr_nr_clusters (hdr img2) then Inl HeaderMismatch
            else if hdr_extra_len img1 = 0 then Inr (img1, img2, create_output_image magic3 img2)
            else if length (hdr_extra img1) < unat (hdr_extra_len img1) \<or>
                    length (hdr_extra img2) < unat (hdr_extra_len img1) then Inl OutOfBounds
            else if take (unat (hdr_extra_len img1)) (hdr_extra img1) \<noteq>
                    take (unat (hdr_extra_len img1)) (hdr_extra img2) then Inl HeaderMismatch
            else Inr (img1, img2, create_output_image magic3 img2))"
proof -
  have l: "38 \<le> length (hdr img1)" "38 \<le> length (hdr img2)"
    using open_input_image_Inr [OF assms(1)] open_input_image_Inr [OF assms(2)] by simp_all
  have m: "memcmp (drop offsetof_cluster_size (hdr img1)) (drop offsetof_cluster_size (hdr img2))
             (offsetof_inuse - IMAGE_MAGIC_SIZE - 2) =
           Inr (hdr_cluster_size (hdr img1) = hdr_cluster_size (hdr img2) \<and>
                hdr_device_size (hdr img1) = hdr_device_size (hdr img2) \<and>
                hdr_nr_clusters (hdr img1) = hdr_nr_clusters (hdr img2))"
  proof -
    have b: "\<not> length (hdr img1) - 18 < 20" "\<not> length (hdr img2) - 18 < 20"
      using l by arith+
    show ?thesis
      using b header_slices [OF l]
      by (simp add: memcmp_def offsetof_cluster_size_def offsetof_inuse_def IMAGE_MAGIC_SIZE_def)
  qed
  show ?thesis
    by (simp only: prepare_image_files_def assms sum.case m) (simp add: memcmp_def)
qed

section \<open>Facts about the loops\<close>

lemma read_clusters_add:
  "read_clusters (m + n) img a =
     (case read_clusters m img a of
        Inl e \<Rightarrow> Inl e
      | Inr (evs1, img1) \<Rightarrow>
          (case read_clusters n img1 a of
             Inl e \<Rightarrow> Inl e
           | Inr (evs2, img2) \<Rightarrow> Inr (evs1 @ evs2, img2)))"
  by (induction m arbitrary: img) (auto split: sum.splits)

lemma read_clusters_length:
  "read_clusters n img a = Inr (evs, img1) \<Longrightarrow> length evs = n"
  by (induction n arbitrary: img evs) (auto split: sum.splits)

lemma read_clusters_fields:
  "read_clusters n img a = Inr (evs, img1) \<Longrightarrow>
   csize img1 = csize img \<and> ccount img1 = ccount img \<and> bbs_present img1 = bbs_present img \<and>
   hdr img1 = hdr img \<and> hdr_extra img1 = hdr_extra img \<and> hdr_extra_len img1 = hdr_extra_len img"
proof (induction n arbitrary: img evs)
  case 0
  then show ?case by simp
next
  case (Suc n)
  from Suc.prems obtain img2 evs2 where 1: "read_next_cluster img a = Inr img2"
    and 2: "read_clusters n img2 a = Inr (evs2, img1)"
    by (auto split: sum.splits)
  show ?case
    using Suc.IH [OF 2] read_next_cluster_fields [OF 1] by simp
qed

lemma read_clusters_cmd:
  "read_clusters n img a = Inr (evs, img1) \<Longrightarrow>
   cmd img = CMD_SKIP \<or> cmd img = CMD_DATA \<or> (a \<and> cmd img = CMD_DROP) \<Longrightarrow>
   cmd img1 = CMD_SKIP \<or> cmd img1 = CMD_DATA \<or> (a \<and> cmd img1 = CMD_DROP)"
proof (induction n arbitrary: img evs)
  case 0
  then show ?case by simp
next
  case (Suc n)
  from Suc.prems(1) obtain img2 evs2 where 1: "read_next_cluster img a = Inr img2"
    and 2: "read_clusters n img2 a = Inr (evs2, img1)"
    by (auto split: sum.splits)
  show ?case
    using Suc.IH [OF 2] read_next_cluster_cmd [OF 1 Suc.prems(2)] by simp
qed

lemma emit_all_ok:
  "unat sz \<le> NTFS_MAX_CLUSTER_SIZE \<Longrightarrow> \<exists>w1. emit_all sz w evs = Inr w1"
proof (induction evs arbitrary: w)
  case Nil
  then show ?case by simp
next
  case (Cons e es)
  obtain w1 where "emit sz w e = Inr w1" using emit_ok [OF Cons.prems] by blast
  then show ?case using Cons.IH [OF Cons.prems, of w1] by simp
qed

lemma emit_all_append:
  "emit_all sz w (xs @ ys) =
     (case emit_all sz w xs of Inl e \<Rightarrow> Inl e | Inr w1 \<Rightarrow> emit_all sz w1 ys)"
  by (induction xs arbitrary: w) (auto split: sum.splits)

lemma delta_loop_Inr:
  assumes "delta_loop n old new delta = Inr (old', new', delta')"
    and "cmd old = CMD_SKIP \<or> cmd old = CMD_DATA" "cmd new = CMD_SKIP \<or> cmd new = CMD_DATA"
    and "csize new = csize old"
  shows "\<exists>eo en. read_clusters n old False = Inr (eo, old') \<and>
                 read_clusters n new False = Inr (en, new') \<and>
                 emit_all (csize old) delta (map2 spec_delta_event eo en) = Inr delta'"
  using assms
proof (induction n arbitrary: old new delta)
  case 0
  then show ?case by simp
next
  case (Suc n)
  from Suc.prems(1) obtain old1 new1 delta1 where
    r1: "read_next_cluster old False = Inr old1" and r2: "read_next_cluster new False = Inr new1"
    and c: "delta_cluster old1 new1 delta = Inr delta1"
    and l: "delta_loop n old1 new1 delta1 = Inr (old', new', delta')"
    by (auto split: sum.splits)
  have co: "cmd old1 = CMD_SKIP \<or> cmd old1 = CMD_DATA"
    using read_next_cluster_cmd [OF r1] Suc.prems(2) by simp
  have cn: "cmd new1 = CMD_SKIP \<or> cmd new1 = CMD_DATA"
    using read_next_cluster_cmd [OF r2] Suc.prems(3) by simp
  have sz: "csize old1 = csize old" "csize new1 = csize new"
    using read_next_cluster_fields [OF r1] read_next_cluster_fields [OF r2] by simp_all
  have b: "unat (csize old1) \<le> NTFS_MAX_CLUSTER_SIZE \<or> \<not> (cmd old1 = CMD_DATA \<and> cmd new1 = CMD_DATA)"
    using delta_cluster_bound [OF c] by blast
  have e: "emit (csize old) delta (spec_delta_event (event_of old1) (event_of new1)) = Inr delta1"
    using delta_cluster_emit [OF co cn _ b, of delta] c sz Suc.prems(4) by simp
  obtain eo en where i: "read_clusters n old1 False = Inr (eo, old')"
    "read_clusters n new1 False = Inr (en, new')"
    "emit_all (csize old1) delta1 (map2 spec_delta_event eo en) = Inr delta'"
    using Suc.IH [OF l co cn] sz Suc.prems(4) by auto
  have "read_clusters (Suc n) old False = Inr (event_of old1 # eo, old')"
    "read_clusters (Suc n) new False = Inr (event_of new1 # en, new')"
    "emit_all (csize old) delta (map2 spec_delta_event (event_of old1 # eo) (event_of new1 # en)) = Inr delta'"
    using r1 r2 i e sz by simp_all
  then show ?case by blast
qed

lemma patch_loop_intro:
  assumes "read_clusters n old False = Inr (eo, old')" "read_clusters n delta True = Inr (ed, delta')"
    and "emit_all (csize old) new (map2 spec_patch_event eo ed) = Inr new'"
    and "cmd old = CMD_SKIP \<or> cmd old = CMD_DATA"
    and "cmd delta = CMD_SKIP \<or> cmd delta = CMD_DATA \<or> cmd delta = CMD_DROP"
    and "csize delta = csize old"
  shows "patch_loop n old delta new = Inr (old', delta', new')"
  using assms
proof (induction n arbitrary: old delta new eo ed)
  case 0
  then show ?case by simp
next
  case (Suc n)
  from Suc.prems(1) obtain old1 eo1 where r1: "read_next_cluster old False = Inr old1"
    and s1: "read_clusters n old1 False = Inr (eo1, old')" and eo: "eo = event_of old1 # eo1"
    by (auto split: sum.splits)
  from Suc.prems(2) obtain delta1 ed1 where r2: "read_next_cluster delta True = Inr delta1"
    and s2: "read_clusters n delta1 True = Inr (ed1, delta')" and ed: "ed = event_of delta1 # ed1"
    by (auto split: sum.splits)
  have co: "cmd old1 = CMD_SKIP \<or> cmd old1 = CMD_DATA"
    using read_next_cluster_cmd [OF r1] Suc.prems(4) by simp
  have cd: "cmd delta1 = CMD_SKIP \<or> cmd delta1 = CMD_DATA \<or> cmd delta1 = CMD_DROP"
    using read_next_cluster_cmd [OF r2] Suc.prems(5) by auto
  have sz: "csize old1 = csize old" "csize delta1 = csize delta"
    using read_next_cluster_fields [OF r1] read_next_cluster_fields [OF r2] by simp_all
  from Suc.prems(3) obtain new1 where
    e: "emit (csize old) new (spec_patch_event (event_of old1) (event_of delta1)) = Inr new1"
    and es: "emit_all (csize old) new1 (map2 spec_patch_event eo1 ed1) = Inr new'"
    unfolding eo ed by (auto split: sum.splits)
  have c: "patch_cluster old1 delta1 new = Inr new1"
    using patch_cluster_emit [OF co cd, of new] e sz Suc.prems(6) by simp
  have "patch_loop n old1 delta1 new1 = Inr (old', delta', new')"
    using Suc.IH [OF s1 s2 _ co cd] es sz Suc.prems(6) by simp
  then show ?case using r1 r2 c by simp
qed

section \<open>The reader decodes what the writer encodes\<close>

lemma decodes_to_Nil: "decodes_to a sz [] []"
  by (simp add: decodes_to_def)

lemma decodes_to_append:
  assumes "decodes_to a sz b1 e1" "decodes_to a sz b2 e2"
  shows "decodes_to a sz (b1 @ b2) (e1 @ e2)"
  unfolding decodes_to_def
proof (intro allI impI)
  fix img :: input_image and rest
  assume i: "cmd_repeat img = 0 \<and> csize img = sz"
  from assms(1) i obtain img1 where
    1: "read_clusters (length e1) (img\<lparr>fd := b1 @ (b2 @ rest)\<rparr>) a = Inr (e1, img1)"
    and f1: "fd img1 = b2 @ rest" "cmd_repeat img1 = 0"
    unfolding decodes_to_def by blast
  have s1: "csize img1 = sz"
    using read_clusters_fields [OF 1] i by simp
  from assms(2) f1(2) s1 obtain img2 where
    2: "read_clusters (length e2) (img1\<lparr>fd := b2 @ rest\<rparr>) a = Inr (e2, img2)"
    and f2: "fd img2 = rest" "cmd_repeat img2 = 0"
    unfolding decodes_to_def by blast
  have "img1\<lparr>fd := b2 @ rest\<rparr> = img1" using f1(1) by simp
  with 2 have r2: "read_clusters (length e2) img1 a = Inr (e2, img2)" by simp
  have "read_clusters (length (e1 @ e2)) (img\<lparr>fd := (b1 @ b2) @ rest\<rparr>) a = Inr (e1 @ e2, img2)"
    using 1 r2 by (simp add: read_clusters_add)
  with f2 show "\<exists>img1. read_clusters (length (e1 @ e2)) (img\<lparr>fd := (b1 @ b2) @ rest\<rparr>) a =
                   Inr (e1 @ e2, img1) \<and> fd img1 = rest \<and> cmd_repeat img1 = 0"
    by blast
qed

lemma decodes_to_run:
  assumes "c = CMD_SKIP \<or> (a \<and> c = CMD_DROP)" "0 < n" "n < 2 ^ 63"
  shows "decodes_to a sz (c # sle64_bytes (of_nat n)) (replicate n (cmd_event c))"
  unfolding decodes_to_def
proof (intro allI impI)
  fix img :: input_image and rest
  assume i: "cmd_repeat img = 0 \<and> csize img = sz"
  let ?img = "img\<lparr>fd := (c # sle64_bytes (of_nat n)) @ rest\<rparr>"
  have "read_clusters n ?img a =
          Inr (replicate n (cmd_event c), ?img\<lparr>fd := rest, cmd := c, cmd_repeat := 0\<rparr>)"
    using assms i by (intro read_clusters_run) simp_all
  then show "\<exists>img1. read_clusters (length (replicate n (cmd_event c))) ?img a =
                 Inr (replicate n (cmd_event c), img1) \<and> fd img1 = rest \<and> cmd_repeat img1 = 0"
    by simp
qed

lemma decodes_to_data:
  assumes "length p = nat (sint sz)" "length p \<le> NTFS_MAX_CLUSTER_SIZE"
  shows "decodes_to a sz (CMD_DATA # p) [Data p]"
  unfolding decodes_to_def
proof (intro allI impI)
  fix img :: input_image and rest
  assume i: "cmd_repeat img = 0 \<and> csize img = sz"
  let ?img = "img\<lparr>fd := (CMD_DATA # p) @ rest\<rparr>"
  let ?img1 = "?img\<lparr>fd := rest, cmd := CMD_DATA, cdata := p @ drop (length p) (cdata ?img)\<rparr>"
  have r: "read_next_cluster ?img a = Inr ?img1"
    using assms i by (intro read_data_record) simp_all
  have e: "event_of ?img1 = Data p"
    using assms(1) i by (simp add: event_of_def cdata_bytes_def)
  show "\<exists>img1. read_clusters (length [Data p]) ?img a = Inr ([Data p], img1) \<and>
          fd img1 = rest \<and> cmd_repeat img1 = 0"
    using r e i by simp
qed

lemma writer_inv_init: "ocmd w0 = CMD_DATA \<Longrightarrow> writer_inv a sz w0 w0 []"
  unfolding writer_inv_def
  by (rule exI [of _ "[]"], rule exI [of _ 0]) (simp add: decodes_to_Nil)

lemma writer_inv_flush:
  assumes "writer_inv a sz w0 w evs" "length evs < 2 ^ 63"
  shows "\<exists>bytes. ofd (write_pending_cmd w) = ofd w0 @ bytes \<and> decodes_to a sz bytes evs"
proof -
  from assms(1) obtain bytes k where
    o: "ofd w = ofd w0 @ bytes" and k: "k \<le> length evs"
    and d: "decodes_to a sz bytes (take (length evs - k) evs)"
    and p: "if ocmd w = CMD_DATA then k = 0
            else (ocmd w = CMD_SKIP \<or> (a \<and> ocmd w = CMD_DROP)) \<and> 0 < k \<and>
                 ocmd_repeat w = of_nat k \<and>
                 drop (length evs - k) evs = replicate k (cmd_event (ocmd w))"
    unfolding writer_inv_def by blast
  show ?thesis
  proof (cases "ocmd w = CMD_DATA")
    case True
    with p have "k = 0" by simp
    with d o True show ?thesis by (auto simp: write_pending_cmd_none)
  next
    case False
    with p have c: "ocmd w = CMD_SKIP \<or> (a \<and> ocmd w = CMD_DROP)" and k0: "0 < k"
      and r: "ocmd_repeat w = of_nat k"
      and t: "drop (length evs - k) evs = replicate k (cmd_event (ocmd w))"
      by simp_all
    have kb: "k < 2 ^ 63" using k assms(2) by simp
    have run: "decodes_to a sz (ocmd w # sle64_bytes (of_nat k)) (replicate k (cmd_event (ocmd w)))"
      using c k0 kb by (rule decodes_to_run)
    have "decodes_to a sz (bytes @ ocmd w # sle64_bytes (of_nat k))
            (take (length evs - k) evs @ drop (length evs - k) evs)"
      unfolding t using d run by (rule decodes_to_append)
    then have "decodes_to a sz (bytes @ ocmd w # sle64_bytes (of_nat k)) evs" by simp
    moreover have "ofd (write_pending_cmd w) = ofd w0 @ bytes @ ocmd w # sle64_bytes (of_nat k)"
      using False o r by (simp add: write_pending_cmd_run)
    ultimately show ?thesis by blast
  qed
qed

lemma writer_inv_run:
  assumes "writer_inv a sz w0 w evs" "length evs < 2 ^ 63"
    and "c = CMD_SKIP \<or> (a \<and> c = CMD_DROP)"
  shows "writer_inv a sz w0 (write_cmd w c) (evs @ [cmd_event c])"
proof (cases "ocmd w = c")
  case True
  from assms(1) obtain bytes k where
    o: "ofd w = ofd w0 @ bytes" and k: "k \<le> length evs"
    and d: "decodes_to a sz bytes (take (length evs - k) evs)"
    and p: "if ocmd w = CMD_DATA then k = 0
            else (ocmd w = CMD_SKIP \<or> (a \<and> ocmd w = CMD_DROP)) \<and> 0 < k \<and>
                 ocmd_repeat w = of_nat k \<and>
                 drop (length evs - k) evs = replicate k (cmd_event (ocmd w))"
    unfolding writer_inv_def by blast
  have nd: "c \<noteq> CMD_DATA" using assms(3) by (auto simp: CMD_SKIP_def CMD_DATA_def CMD_DROP_def)
  with p True have k0: "0 < k" and r: "ocmd_repeat w = of_nat k"
    and t: "drop (length evs - k) evs = replicate k (cmd_event c)"
    by simp_all
  let ?w = "write_cmd w c"
  have w: "?w = w\<lparr>ocmd_repeat := of_nat (Suc k)\<rparr>"
    using True r by (simp add: write_cmd_def)
  have 1: "ofd ?w = ofd w0 @ bytes" using w o by simp
  have 2: "Suc k \<le> length (evs @ [cmd_event c])" using k by simp
  have 3: "decodes_to a sz bytes (take (length (evs @ [cmd_event c]) - Suc k) (evs @ [cmd_event c]))"
    using d k by simp
  have 4: "drop (length (evs @ [cmd_event c]) - Suc k) (evs @ [cmd_event c]) =
             replicate (Suc k) (cmd_event c)"
    using t k by (simp add: replicate_append_same)
  have 5: "ocmd ?w = c" "ocmd_repeat ?w = of_nat (Suc k)" using w True by simp_all
  show ?thesis
    unfolding writer_inv_def
    apply (rule exI [of _ bytes], rule exI [of _ "Suc k"])
    using 1 2 3 4 5 nd assms(3) apply simp
    done
next
  case False
  obtain bytes where o: "ofd (write_pending_cmd w) = ofd w0 @ bytes" and d: "decodes_to a sz bytes evs"
    using writer_inv_flush [OF assms(1,2)] by blast
  have nd: "c \<noteq> CMD_DATA" using assms(3) by (auto simp: CMD_SKIP_def CMD_DATA_def CMD_DROP_def)
  let ?w = "write_cmd w c"
  have w: "?w = (write_pending_cmd w)\<lparr>ocmd := c, ocmd_repeat := 1\<rparr>"
    using False by (simp add: write_cmd_def)
  have 1: "ofd ?w = ofd w0 @ bytes" "ocmd ?w = c" "ocmd_repeat ?w = of_nat 1"
    using w o by simp_all
  show ?thesis
    unfolding writer_inv_def
    apply (rule exI [of _ bytes], rule exI [of _ 1])
    using 1 d nd assms(3) apply simp
    done
qed

lemma writer_inv_data:
  assumes "writer_inv a sz w0 w evs" "length evs < 2 ^ 63"
    and "write_data w p sz = Inr w1" "length p = nat (sint sz)"
  shows "writer_inv a sz w0 w1 (evs @ [Data p])"
proof -
  obtain bytes where o: "ofd (write_pending_cmd w) = ofd w0 @ bytes" and d: "decodes_to a sz bytes evs"
    using writer_inv_flush [OF assms(1,2)] by blast
  from assms(3) have b: "\<not> int NTFS_MAX_CLUSTER_SIZE < sint sz"
    by (auto simp: write_data_def Let_def split: if_splits)
  then have lp: "length p \<le> NTFS_MAX_CLUSTER_SIZE" using assms(4) by simp
  have w1: "w1 = (write_pending_cmd w)\<lparr>ofd := ofd (write_pending_cmd w) @ CMD_DATA # p\<rparr>"
    using assms(3,4) b
    by (simp add: write_data_def Let_def write_all_def ocmd_write_pending_cmd cdata_bytes_self)
  have dd: "decodes_to a sz (CMD_DATA # p) [Data p]"
    using assms(4) lp by (rule decodes_to_data)
  have 1: "ofd w1 = ofd w0 @ bytes @ CMD_DATA # p" "ocmd w1 = CMD_DATA"
    using w1 o by (simp_all add: ocmd_write_pending_cmd)
  have 2: "decodes_to a sz (bytes @ CMD_DATA # p) (evs @ [Data p])"
    using d dd by (rule decodes_to_append)
  show ?thesis
    unfolding writer_inv_def
    apply (rule exI [of _ "bytes @ CMD_DATA # p"], rule exI [of _ 0])
    using 1 2 apply simp
    done
qed

lemma writer_inv_emit:
  assumes "writer_inv a sz w0 w evs" "length evs < 2 ^ 63"
    and "emit sz w e = Inr w1" "wf_event a sz e"
  shows "writer_inv a sz w0 w1 (evs @ [e])"
proof (cases e)
  case Skip
  have "writer_inv a sz w0 (write_cmd w CMD_SKIP) (evs @ [cmd_event CMD_SKIP])"
    using assms(1,2) by (rule writer_inv_run) simp
  then show ?thesis
    using assms(3) Skip by (simp add: emit_def cmd_event_def CMD_SKIP_def CMD_DROP_def)
next
  case Drop
  have "writer_inv a sz w0 (write_cmd w CMD_DROP) (evs @ [cmd_event CMD_DROP])"
    using assms(1,2) assms(4) Drop by (intro writer_inv_run) (simp_all add: wf_event_def)
  then show ?thesis
    using assms(3) Drop by (simp add: emit_def cmd_event_def)
next
  case (Data p)
  show ?thesis
    unfolding Data using assms(1,2)
    by (rule writer_inv_data) (use assms(3,4) Data in \<open>simp_all add: emit_def wf_event_def\<close>)
qed

lemma emit_all_writer_inv:
  assumes "emit_all sz w0 evs = Inr w" "ocmd w0 = CMD_DATA" "length evs \<le> 2 ^ 63"
    and "\<forall>e\<in>set evs. wf_event a sz e"
  shows "writer_inv a sz w0 w evs"
  using assms(1,3,4)
proof (induction evs arbitrary: w rule: rev_induct)
  case Nil
  then show ?case using assms(2) by (simp add: writer_inv_init)
next
  case (snoc e evs)
  from snoc.prems(1) obtain w1 where 1: "emit_all sz w0 evs = Inr w1" and 2: "emit sz w1 e = Inr w"
    by (auto simp: emit_all_append split: sum.splits)
  have "writer_inv a sz w0 w1 evs"
    using snoc.IH [OF 1] snoc.prems(2,3) by simp
  then show ?case
    using snoc.prems(2,3) 2 by (intro writer_inv_emit) simp_all
qed

lemma emit_all_decodes:
  assumes "emit_all sz w0 evs = Inr w" "ocmd w0 = CMD_DATA" "length evs < 2 ^ 63"
    and "\<forall>e\<in>set evs. wf_event a sz e"
  shows "\<exists>bytes. ofd (write_pending_cmd w) = ofd w0 @ bytes \<and> decodes_to a sz bytes evs"
  using emit_all_writer_inv [OF assms(1,2) _ assms(4)] assms(3)
  by (intro writer_inv_flush) simp_all

lemma write_pending_cmd_prefix:
  "write_pending_cmd (w\<lparr>ofd := pre @ ofd w\<rparr>) =
     (write_pending_cmd w)\<lparr>ofd := pre @ ofd (write_pending_cmd w)\<rparr>"
  by (simp add: write_pending_cmd_def write_all_def Let_def)

lemma write_cmd_prefix:
  "write_cmd (w\<lparr>ofd := pre @ ofd w\<rparr>) c = (write_cmd w c)\<lparr>ofd := pre @ ofd (write_cmd w c)\<rparr>"
  by (simp add: write_cmd_def write_pending_cmd_prefix)

lemma write_data_prefix:
  "write_data w p sz = Inr w1 \<Longrightarrow>
   write_data (w\<lparr>ofd := pre @ ofd w\<rparr>) p sz = Inr (w1\<lparr>ofd := pre @ ofd w1\<rparr>)"
  by (auto simp: write_data_def write_pending_cmd_prefix write_all_def Let_def split: if_splits)

lemma emit_prefix:
  "emit sz w e = Inr w1 \<Longrightarrow> emit sz (w\<lparr>ofd := pre @ ofd w\<rparr>) e = Inr (w1\<lparr>ofd := pre @ ofd w1\<rparr>)"
  by (cases e) (auto simp: emit_def write_cmd_prefix write_data_prefix)

lemma emit_all_prefix:
  "emit_all sz w evs = Inr w1 \<Longrightarrow>
   emit_all sz (w\<lparr>ofd := pre @ ofd w\<rparr>) evs = Inr (w1\<lparr>ofd := pre @ ofd w1\<rparr>)"
proof (induction evs arbitrary: w)
  case Nil
  then show ?case by simp
next
  case (Cons e es)
  from Cons.prems obtain w2 where 1: "emit sz w e = Inr w2" and 2: "emit_all sz w2 es = Inr w1"
    by (auto split: sum.splits)
  show ?case
    using emit_prefix [OF 1, of pre] Cons.IH [OF 2] by simp
qed

lemma patch_delta_event:
  "old \<noteq> Drop \<Longrightarrow> new \<noteq> Drop \<Longrightarrow> spec_patch_event old (spec_delta_event old new) = new"
  by (cases old; cases new) simp_all

lemma map2_patch_delta:
  "length eo = length en \<Longrightarrow> \<forall>e\<in>set eo. e \<noteq> Drop \<Longrightarrow> \<forall>e\<in>set en. e \<noteq> Drop \<Longrightarrow>
   map2 spec_patch_event eo (map2 spec_delta_event eo en) = en"
proof (induction eo en rule: list_induct2)
  case Nil
  then show ?case by simp
next
  case (Cons x xs y ys)
  then show ?case by (simp add: patch_delta_event)
qed

lemma wf_delta_event:
  "wf_event False sz new \<Longrightarrow> wf_event True sz (spec_delta_event old new)"
  by (cases old; cases new) (simp_all add: wf_event_def)

lemma event_of_not_Drop:
  "cmd img = CMD_SKIP \<or> cmd img = CMD_DATA \<Longrightarrow> event_of img \<noteq> Drop"
  by (auto simp: event_of_def CMD_SKIP_def CMD_DATA_def CMD_DROP_def)

lemma read_clusters_not_Drop:
  "read_clusters n img False = Inr (evs, img1) \<Longrightarrow>
   cmd img = CMD_SKIP \<or> cmd img = CMD_DATA \<Longrightarrow> \<forall>e\<in>set evs. e \<noteq> Drop"
proof (induction n arbitrary: img evs)
  case 0
  then show ?case by simp
next
  case (Suc n)
  from Suc.prems(1) obtain img2 evs2 where 1: "read_next_cluster img False = Inr img2"
    and 2: "read_clusters n img2 False = Inr (evs2, img1)" and e: "evs = event_of img2 # evs2"
    by (auto split: sum.splits)
  have c: "cmd img2 = CMD_SKIP \<or> cmd img2 = CMD_DATA"
    using read_next_cluster_cmd [OF 1] Suc.prems(2) by simp
  show ?case
    unfolding e using Suc.IH [OF 2 c] event_of_not_Drop [OF c] by simp
qed

lemma create_output_image_bytes:
  assumes "length (hdr img) = 50" "length (hdr_extra img) = nat (sint (hdr_extra_len img))"
    and "length magic = 16"
  shows "create_output_image magic img =
           \<lparr> ofd = magic @ drop 16 (hdr img) @ hdr_extra img, ocmd = CMD_DATA, ocmd_repeat = 0 \<rparr>"
proof (cases "hdr_extra_len img = 0")
  case True
  then have "hdr_extra img = []" using assms(2) by simp
  then show ?thesis
    using assms(1,3) True
    by (simp add: create_output_image_def write_all_def IMAGE_MAGIC_SIZE_def sizeof_image_hdr_def)
next
  case False
  then show ?thesis
    using assms
    by (simp add: create_output_image_def write_all_def IMAGE_MAGIC_SIZE_def sizeof_image_hdr_def)
qed

lemma hdr_retag:
  assumes "length m = 16" "length h = 50"
  shows "length (m @ drop 16 h) = 50" "take 16 (m @ drop 16 h) = m"
    "hdr_major_ver (m @ drop 16 h) = hdr_major_ver h"
    "hdr_minor_ver (m @ drop 16 h) = hdr_minor_ver h"
    "hdr_cluster_size (m @ drop 16 h) = hdr_cluster_size h"
    "hdr_device_size (m @ drop 16 h) = hdr_device_size h"
    "hdr_nr_clusters (m @ drop 16 h) = hdr_nr_clusters h"
    "hdr_offset_to_image_data (m @ drop 16 h) = hdr_offset_to_image_data h"
  using assms
  by (simp_all add: hdr_major_ver_def hdr_minor_ver_def hdr_cluster_size_def hdr_device_size_def
        hdr_nr_clusters_def hdr_offset_to_image_data_def nth_append)

lemma open_input_image_retag:
  assumes "open_input_image file magic = Inr img" "length m = 16"
  shows "open_input_image (m @ drop 16 (hdr img) @ hdr_extra img @ rest) m =
           Inr (img\<lparr>fd := rest, hdr := m @ drop 16 (hdr img)\<rparr>)"
proof -
  note f = open_input_image_Inr [OF assms(1)]
  have l: "length (hdr img) = 50" using f by simp
  note r = hdr_retag [OF assms(2) l]
  have "open_input_image ((m @ drop 16 (hdr img)) @ hdr_extra img @ rest) m =
          Inr \<lparr> fd = rest, hdr = m @ drop 16 (hdr img), hdr_extra = hdr_extra img,
                hdr_extra_len = hdr_extra_len img,
                csize = le_word (hdr_cluster_size (m @ drop 16 (hdr img))),
                ccount = le_word (hdr_nr_clusters (m @ drop 16 (hdr img))),
                bbs_present = (hdr_minor_ver (m @ drop 16 (hdr img)) = NTFSCLONE_IMG_VER_MINOR_NEW),
                cmd = 0, cmd_repeat = 0, cdata = [] \<rparr>"
    using f r assms(2) by (intro open_input_image_intro) simp_all
  also have "\<dots> = Inr (img\<lparr>fd := rest, hdr := m @ drop 16 (hdr img)\<rparr>)"
    using f r by simp
  finally show ?thesis by simp
qed

lemma read_tail_cluster:
  assumes "fd r = CMD_DATA # p" "cmd_repeat r = 0" "length p = nat (sint (csize r))"
    and "length p \<le> NTFS_MAX_CLUSTER_SIZE"
  shows "\<exists>r2. read_next_cluster r a = Inr r2 \<and> fd r2 = [] \<and> cmd_repeat r2 = 0 \<and>
              write_data w (cdata r2) (csize r2) = emit (csize r) w (Data p)"
proof -
  let ?r2 = "r\<lparr>fd := [], cmd := CMD_DATA, cdata := p @ drop (length p) (cdata r)\<rparr>"
  have 1: "read_next_cluster r a = Inr ?r2"
    using assms by (intro read_data_record) simp_all
  have 2: "cdata_bytes (cdata ?r2) (nat (sint (csize ?r2))) = p"
    using assms(3) by (simp add: cdata_bytes_def)
  have "write_data w (cdata ?r2) (csize ?r2) = emit (csize r) w (Data p)"
    unfolding write_data_emit 2 by simp
  with 1 assms(2) show ?thesis by simp
qed

lemma prepare_image_files_Inr:
  assumes "prepare_image_files f1 m1 f2 m2 m3 = Inr (img1, img2, out)"
  shows "open_input_image f1 m1 = Inr img1" "open_input_image f2 m2 = Inr img2"
    "out = create_output_image m3 img2"
  using assms
  by (auto simp: prepare_image_files_def split: sum.splits if_splits)

lemma prepare_image_files_fields:
  assumes "prepare_image_files f1 m1 f2 m2 m3 = Inr (img1, img2, out)"
  shows "csize img2 = csize img1" "ccount img2 = ccount img1"
proof -
  note o = prepare_image_files_Inr [OF assms]
  have "hdr_cluster_size (hdr img1) = hdr_cluster_size (hdr img2) \<and>
        hdr_nr_clusters (hdr img1) = hdr_nr_clusters (hdr img2)"
    using prepare_image_files_checks [OF o(1,2), of m3] assms by (auto split: if_splits)
  then show "csize img2 = csize img1" "ccount img2 = ccount img1"
    using open_input_image_Inr [OF o(1)] open_input_image_Inr [OF o(2)] by simp_all
qed

lemma prepare_image_files_retag:
  assumes "prepare_image_files f1 m1 f2 m2 m3 = Inr (img1, img2, out)"
    and "open_input_image g2 k2 = Inr img3"
    and "hdr_cluster_size (hdr img3) = hdr_cluster_size (hdr img2)"
    and "hdr_device_size (hdr img3) = hdr_device_size (hdr img2)"
    and "hdr_nr_clusters (hdr img3) = hdr_nr_clusters (hdr img2)"
    and "hdr_extra img3 = hdr_extra img2"
  shows "prepare_image_files f1 m1 g2 k2 k3 = Inr (img1, img3, create_output_image k3 img3)"
proof -
  note o = prepare_image_files_Inr [OF assms(1)]
  have c: "prepare_image_files f1 m1 f2 m2 m3 \<noteq> Inl HeaderMismatch"
    "prepare_image_files f1 m1 f2 m2 m3 \<noteq> Inl OutOfBounds"
    using assms(1) by simp_all
  show ?thesis
    using c unfolding prepare_image_files_checks [OF o(1,2)] prepare_image_files_checks [OF o(1) assms(2)]
    by (simp add: assms(3-6) split: if_splits)
qed

lemma create_delta_Inr:
  assumes "create_delta f1 f2 = Inr D"
  shows "\<exists>old new d0 old1 new1 d1 old2 new2 d2.
           prepare_image_files f1 IMAGE_MAGIC f2 IMAGE_MAGIC DELTA_MAGIC = Inr (old, new, d0) \<and>
           delta_loop (nat (sint (if bbs_present old \<and> bbs_present new then ccount old + 1
                                  else ccount old))) old new d0 = Inr (old1, new1, d1) \<and>
           delta_tail old1 new1 d1 = Inr (old2, new2, d2) \<and>
           \<not> 0 <s cmd_repeat old2 \<and> \<not> 0 <s cmd_repeat new2 \<and>
           D = ofd (write_pending_cmd d2)"
proof -
  from assms obtain old new d0 where
    1: "prepare_image_files f1 IMAGE_MAGIC f2 IMAGE_MAGIC DELTA_MAGIC = Inr (old, new, d0)"
    by (cases "prepare_image_files f1 IMAGE_MAGIC f2 IMAGE_MAGIC DELTA_MAGIC")
       (auto simp: create_delta_def)
  let ?n = "nat (sint (if bbs_present old \<and> bbs_present new then ccount old + 1 else ccount old))"
  from assms 1 obtain old1 new1 d1 where 2: "delta_loop ?n old new d0 = Inr (old1, new1, d1)"
    by (cases "delta_loop ?n old new d0") (auto simp: create_delta_def Let_def)
  from assms 1 2 obtain old2 new2 d2 where 3: "delta_tail old1 new1 d1 = Inr (old2, new2, d2)"
    by (cases "delta_tail old1 new1 d1") (auto simp: create_delta_def Let_def)
  from assms 1 2 3 have 4: "finish_image_files old2 new2 d2 = Inr (write_pending_cmd d2)"
    "D = ofd (write_pending_cmd d2)"
    by (auto simp: create_delta_def Let_def finish_image_files_def split: if_splits)
  then have "\<not> 0 <s cmd_repeat old2 \<and> \<not> 0 <s cmd_repeat new2"
    by (auto simp: finish_image_files_def split: if_splits)
  with 1 2 3 4 show ?thesis by blast
qed

lemma apply_patch_intro:
  assumes "prepare_image_files f1 IMAGE_MAGIC f2 DELTA_MAGIC IMAGE_MAGIC = Inr (old, delta, n0)"
    and "patch_loop (nat (sint (ccount old))) old delta n0 = Inr (old1, delta1, n1)"
    and "patch_tail old1 delta1 n1 = Inr (old2, delta2, n2)"
    and "\<not> 0 <s cmd_repeat old2" "\<not> 0 <s cmd_repeat delta2"
  shows "apply_patch f1 f2 = Inr (ofd (write_pending_cmd n2))"
  using assms by (simp add: apply_patch_def finish_image_files_def Let_def)

lemma length_magic: "length IMAGE_MAGIC = 16" "length DELTA_MAGIC = 16"
  by (simp_all add: IMAGE_MAGIC_def DELTA_MAGIC_def)

lemma wf_event_not_Drop: "wf_event False sz e \<Longrightarrow> e \<noteq> Drop"
  by (auto simp: wf_event_def)

lemma wf_map2_delta_event:
  "\<forall>e\<in>set en. wf_event False sz e \<Longrightarrow> \<forall>e\<in>set (map2 spec_delta_event eo en). wf_event True sz e"
  by (auto simp: wf_delta_event dest!: set_zip_rightD)

lemma roundtrip_loop:
  assumes prep: "prepare_image_files OLD IMAGE_MAGIC NEW IMAGE_MAGIC DELTA_MAGIC = Inr (old, new, d0)"
    and loop: "delta_loop n old new d0 = Inr (old1, new1, d1)"
    and enc: "emit_all (csize new) writer_start en = Inr wn"
    and wf: "\<forall>e\<in>set en. wf_event False (csize new) e"
    and len: "length en = n" "n < 2 ^ 63"
    and fdn: "fd new = ofd (write_pending_cmd wn) @ tlb"
  shows "fd new1 = tlb \<and> cmd_repeat new1 = 0 \<and> csize new1 = csize new \<and>
         (\<exists>bytes_d. ofd (write_pending_cmd d1) =
                       DELTA_MAGIC @ drop 16 (hdr new) @ hdr_extra new @ bytes_d \<and>
            (\<forall>t. \<exists>delta delta1 n0.
               prepare_image_files OLD IMAGE_MAGIC
                 (DELTA_MAGIC @ drop 16 (hdr new) @ hdr_extra new @ bytes_d @ t)
                 DELTA_MAGIC IMAGE_MAGIC = Inr (old, delta, n0) \<and>
               patch_loop n old delta n0 =
                 Inr (old1, delta1, wn\<lparr>ofd := (hdr new @ hdr_extra new) @ ofd wn\<rparr>) \<and>
               fd delta1 = t \<and> cmd_repeat delta1 = 0 \<and> csize delta1 = csize new \<and>
               bbs_present delta1 = bbs_present new \<and> ccount old = ccount new))"
proof -
  let ?sz = "csize new"
  let ?HN = "hdr new @ hdr_extra new"
  note o = prepare_image_files_Inr [OF prep]
  note fo = open_input_image_Inr [OF o(1)] and fn = open_input_image_Inr [OF o(2)]
  note szs = prepare_image_files_fields [OF prep]
  have v: "cmd old = CMD_SKIP \<or> cmd old = CMD_DATA" "cmd new = CMD_SKIP \<or> cmd new = CMD_DATA"
    using fo fn by (simp_all add: CMD_SKIP_def)
  from delta_loop_Inr [OF loop v szs(1)] obtain eo en' where
    ro: "read_clusters n old False = Inr (eo, old1)"
    and rn: "read_clusters n new False = Inr (en', new1)"
    and ed: "emit_all (csize old) d0 (map2 spec_delta_event eo en') = Inr d1"
    by blast
  have ws: "ocmd writer_start = CMD_DATA" "ofd writer_start = []"
    by (simp_all add: writer_start_def)
  from emit_all_decodes [OF enc ws(1) _ wf] len obtain bytes_n where
    bn: "ofd (write_pending_cmd wn) = bytes_n" and dn: "decodes_to False ?sz bytes_n en"
    using ws(2) by auto
  have "new\<lparr>fd := bytes_n @ tlb\<rparr> = new" using fdn bn by simp
  with dn fn obtain new1' where
    "read_clusters (length en) new False = Inr (en, new1')" "fd new1' = tlb" "cmd_repeat new1' = 0"
    unfolding decodes_to_def by metis
  with rn len have en: "en' = en" and n1: "fd new1 = tlb" "cmd_repeat new1 = 0"
    by simp_all
  have s1: "csize new1 = csize new" using read_clusters_fields [OF rn] by simp
  have d0: "d0 = \<lparr> ofd = DELTA_MAGIC @ drop 16 (hdr new) @ hdr_extra new, ocmd = CMD_DATA,
                    ocmd_repeat = 0 \<rparr>"
    unfolding o(3) using fn length_magic by (intro create_output_image_bytes) simp_all
  have leo: "length eo = n" using read_clusters_length [OF ro] .
  have ldev: "length (map2 spec_delta_event eo en) = n" using leo len by simp
  have wfd: "\<forall>e\<in>set (map2 spec_delta_event eo en). wf_event True ?sz e"
    using wf by (rule wf_map2_delta_event)
  have ed': "emit_all ?sz d0 (map2 spec_delta_event eo en) = Inr d1"
    using ed en szs by simp
  from emit_all_decodes [OF ed' _ _ wfd] ldev len(2) d0 obtain bytes_d where
    bd: "ofd (write_pending_cmd d1) = DELTA_MAGIC @ drop 16 (hdr new) @ hdr_extra new @ bytes_d"
    and dd: "decodes_to True ?sz bytes_d (map2 spec_delta_event eo en)"
    by auto
  have "\<exists>delta delta1 n0.
               prepare_image_files OLD IMAGE_MAGIC
                 (DELTA_MAGIC @ drop 16 (hdr new) @ hdr_extra new @ bytes_d @ t)
                 DELTA_MAGIC IMAGE_MAGIC = Inr (old, delta, n0) \<and>
               patch_loop n old delta n0 = Inr (old1, delta1, wn\<lparr>ofd := ?HN @ ofd wn\<rparr>) \<and>
               fd delta1 = t \<and> cmd_repeat delta1 = 0 \<and> csize delta1 = csize new \<and>
               bbs_present delta1 = bbs_present new \<and> ccount old = ccount new" for t
  proof -
    let ?delta = "new\<lparr>fd := bytes_d @ t, hdr := DELTA_MAGIC @ drop 16 (hdr new)\<rparr>"
    let ?n0 = "create_output_image IMAGE_MAGIC ?delta"
    have l50: "length (hdr new) = 50" using fn by simp
    note rt = hdr_retag [OF length_magic(2) l50]
    have od: "open_input_image (DELTA_MAGIC @ drop 16 (hdr new) @ hdr_extra new @ bytes_d @ t)
                DELTA_MAGIC = Inr ?delta"
      using open_input_image_retag [OF o(2) length_magic(2)] .
    have p: "prepare_image_files OLD IMAGE_MAGIC
               (DELTA_MAGIC @ drop 16 (hdr new) @ hdr_extra new @ bytes_d @ t)
               DELTA_MAGIC IMAGE_MAGIC = Inr (old, ?delta, ?n0)"
      using prep od by (rule prepare_image_files_retag) (simp_all add: rt)
    have "IMAGE_MAGIC @ drop 16 (hdr new) = take 16 (hdr new) @ drop 16 (hdr new)"
      using fn length_magic(1) by simp
    then have hn: "IMAGE_MAGIC @ drop 16 (hdr new) = hdr new" by simp
    have "?n0 = \<lparr> ofd = IMAGE_MAGIC @ drop 16 (hdr ?delta) @ hdr_extra ?delta, ocmd = CMD_DATA,
                    ocmd_repeat = 0 \<rparr>"
      using fn rt(1) length_magic(1) by (intro create_output_image_bytes) simp_all
    also have "IMAGE_MAGIC @ drop 16 (hdr ?delta) @ hdr_extra ?delta = ?HN"
      using hn length_magic(2) by simp
    finally have n0: "?n0 = writer_start\<lparr>ofd := ?HN @ ofd writer_start\<rparr>"
      by (simp add: writer_start_def)
    have "?delta\<lparr>fd := bytes_d @ t\<rparr> = ?delta" by simp
    moreover have "cmd_repeat ?delta = 0 \<and> csize ?delta = ?sz" using fn by simp
    ultimately obtain delta1 where
      rd: "read_clusters (length (map2 spec_delta_event eo en)) ?delta True =
             Inr (map2 spec_delta_event eo en, delta1)"
      and f1: "fd delta1 = t" "cmd_repeat delta1 = 0"
      using dd unfolding decodes_to_def by metis
    have nd: "\<forall>e\<in>set eo. e \<noteq> Drop" using read_clusters_not_Drop [OF ro v(1)] .
    have nn: "\<forall>e\<in>set en. e \<noteq> Drop" using wf wf_event_not_Drop by blast
    have pe: "map2 spec_patch_event eo (map2 spec_delta_event eo en) = en"
      using leo len(1) nd nn by (intro map2_patch_delta) simp_all
    have em: "emit_all (csize old) ?n0 (map2 spec_patch_event eo (map2 spec_delta_event eo en)) =
                Inr (wn\<lparr>ofd := ?HN @ ofd wn\<rparr>)"
      unfolding pe n0 using emit_all_prefix [OF enc, of ?HN] szs by simp
    have vd: "cmd ?delta = CMD_SKIP \<or> cmd ?delta = CMD_DATA \<or> cmd ?delta = CMD_DROP"
      using fn by (simp add: CMD_SKIP_def)
    have pl: "patch_loop n old ?delta ?n0 = Inr (old1, delta1, wn\<lparr>ofd := ?HN @ ofd wn\<rparr>)"
      using ro rd [unfolded ldev] em v(1) vd szs by (intro patch_loop_intro) simp_all
    have "csize delta1 = csize new \<and> bbs_present delta1 = bbs_present new"
      using read_clusters_fields [OF rd] by simp
    with p pl f1 szs show ?thesis by auto
  qed
  with n1 s1 bd show ?thesis by blast
qed

lemma emit_Data_Inr:
  assumes "emit sz w (Data p) = Inr w1" "length p = nat (sint sz)"
  shows "w1 = (write_pending_cmd w)\<lparr>ofd := ofd (write_pending_cmd w) @ CMD_DATA # p\<rparr>"
    and "length p \<le> NTFS_MAX_CLUSTER_SIZE"
proof -
  from assms(1) have b: "\<not> int NTFS_MAX_CLUSTER_SIZE < sint sz"
    by (auto simp: emit_def write_data_def Let_def split: if_splits)
  then show "length p \<le> NTFS_MAX_CLUSTER_SIZE" using assms(2) by simp
  show "w1 = (write_pending_cmd w)\<lparr>ofd := ofd (write_pending_cmd w) @ CMD_DATA # p\<rparr>"
    using assms b
    by (simp add: emit_def write_data_def Let_def write_all_def ocmd_write_pending_cmd
          cdata_bytes_self)
qed

lemma write_pending_cmd_idem: "write_pending_cmd (write_pending_cmd w) = write_pending_cmd w"
  by (simp add: write_pending_cmd_none ocmd_write_pending_cmd)

lemma delta_loop_numeral:
  "delta_loop (numeral k) old new delta =
     (case read_next_cluster old False of
        Inl e \<Rightarrow> Inl e
      | Inr old1 \<Rightarrow>
     (case read_next_cluster new False of
        Inl e \<Rightarrow> Inl e
      | Inr new1 \<Rightarrow>
     (case delta_cluster old1 new1 delta of
        Inl e \<Rightarrow> Inl e
      | Inr delta1 \<Rightarrow> delta_loop (pred_numeral k) old1 new1 delta1)))"
  by (simp add: numeral_eq_Suc)

lemma patch_loop_numeral:
  "patch_loop (numeral k) old delta new =
     (case read_next_cluster old False of
        Inl e \<Rightarrow> Inl e
      | Inr old1 \<Rightarrow>
     (case read_next_cluster delta True of
        Inl e \<Rightarrow> Inl e
      | Inr delta1 \<Rightarrow>
     (case patch_cluster old1 delta1 new of
        Inl e \<Rightarrow> Inl e
      | Inr new1 \<Rightarrow> patch_loop (pred_numeral k) old1 delta1 new1)))"
  by (simp add: numeral_eq_Suc)

lemmas eval_ops = create_delta_def apply_patch_def delta_loop_numeral patch_loop_numeral

section \<open>The header of the output\<close>

lemma write_pending_cmd_appends: "\<exists>bs. ofd (write_pending_cmd w) = ofd w @ bs"
  by (simp add: write_pending_cmd_def write_all_def Let_def)

lemma write_cmd_appends: "\<exists>bs. ofd (write_cmd w c) = ofd w @ bs"
  using write_pending_cmd_appends [of w] by (auto simp: write_cmd_def)

lemma write_data_appends: "write_data w buf sz = Inr w1 \<Longrightarrow> \<exists>bs. ofd w1 = ofd w @ bs"
  using write_pending_cmd_appends [of w]
  by (auto simp: write_data_def write_all_def Let_def split: if_splits)

lemma delta_cluster_appends: "delta_cluster old new w = Inr w1 \<Longrightarrow> \<exists>bs. ofd w1 = ofd w @ bs"
  using write_cmd_appends [of w] write_data_appends [of w]
  by (auto simp: delta_cluster_def split: sum.splits if_splits)

lemma patch_cluster_appends: "patch_cluster old delta w = Inr w1 \<Longrightarrow> \<exists>bs. ofd w1 = ofd w @ bs"
  using write_cmd_appends [of w] write_data_appends [of w]
  by (auto simp: patch_cluster_def split: if_splits)

lemma delta_loop_appends:
  "delta_loop n old new w = Inr (old1, new1, w1) \<Longrightarrow> \<exists>bs. ofd w1 = ofd w @ bs"
proof (induction n arbitrary: old new w)
  case 0
  then show ?case by simp
next
  case (Suc n)
  from Suc.prems obtain o2 n2 w2 where c: "delta_cluster o2 n2 w = Inr w2"
    and l: "delta_loop n o2 n2 w2 = Inr (old1, new1, w1)"
    by (auto split: sum.splits)
  from delta_cluster_appends [OF c] Suc.IH [OF l] show ?case by auto
qed

lemma patch_loop_appends:
  "patch_loop n old delta w = Inr (old1, delta1, w1) \<Longrightarrow> \<exists>bs. ofd w1 = ofd w @ bs"
proof (induction n arbitrary: old delta w)
  case 0
  then show ?case by simp
next
  case (Suc n)
  from Suc.prems obtain o2 d2 w2 where c: "patch_cluster o2 d2 w = Inr w2"
    and l: "patch_loop n o2 d2 w2 = Inr (old1, delta1, w1)"
    by (auto split: sum.splits)
  from patch_cluster_appends [OF c] Suc.IH [OF l] show ?case by auto
qed

lemma delta_tail_appends:
  "delta_tail old new w = Inr (old1, new1, w1) \<Longrightarrow> \<exists>bs. ofd w1 = ofd w @ bs"
  by (auto simp: delta_tail_def split: if_splits sum.splits dest: write_data_appends)

lemma patch_tail_appends:
  "patch_tail old delta w = Inr (old1, delta1, w1) \<Longrightarrow> \<exists>bs. ofd w1 = ofd w @ bs"
  by (auto simp: patch_tail_def split: if_splits sum.splits dest: write_data_appends)

lemma apply_patch_Inr:
  assumes "apply_patch f1 f2 = Inr N"
  shows "\<exists>old delta n0 old1 delta1 n1 old2 delta2 n2.
           prepare_image_files f1 IMAGE_MAGIC f2 DELTA_MAGIC IMAGE_MAGIC = Inr (old, delta, n0) \<and>
           patch_loop (nat (sint (ccount old))) old delta n0 = Inr (old1, delta1, n1) \<and>
           patch_tail old1 delta1 n1 = Inr (old2, delta2, n2) \<and>
           \<not> 0 <s cmd_repeat old2 \<and> \<not> 0 <s cmd_repeat delta2 \<and>
           N = ofd (write_pending_cmd n2)"
proof -
  from assms obtain old delta n0 where
    1: "prepare_image_files f1 IMAGE_MAGIC f2 DELTA_MAGIC IMAGE_MAGIC = Inr (old, delta, n0)"
    by (cases "prepare_image_files f1 IMAGE_MAGIC f2 DELTA_MAGIC IMAGE_MAGIC")
       (auto simp: apply_patch_def)
  let ?n = "nat (sint (ccount old))"
  from assms 1 obtain old1 delta1 n1 where 2: "patch_loop ?n old delta n0 = Inr (old1, delta1, n1)"
    by (cases "patch_loop ?n old delta n0") (auto simp: apply_patch_def Let_def)
  from assms 1 2 obtain old2 delta2 n2 where 3: "patch_tail old1 delta1 n1 = Inr (old2, delta2, n2)"
    by (cases "patch_tail old1 delta1 n1") (auto simp: apply_patch_def Let_def)
  from assms 1 2 3 have 4: "finish_image_files old2 delta2 n2 = Inr (write_pending_cmd n2)"
    "N = ofd (write_pending_cmd n2)"
    by (auto simp: apply_patch_def Let_def finish_image_files_def split: if_splits)
  then have "\<not> 0 <s cmd_repeat old2 \<and> \<not> 0 <s cmd_repeat delta2"
    by (auto simp: finish_image_files_def split: if_splits)
  with 1 2 3 4 show ?thesis by blast
qed

lemma create_delta_header:
  assumes "create_delta OLD NEW = Inr DELTA"
  shows "\<exists>old new cmds. open_input_image OLD IMAGE_MAGIC = Inr old \<and>
           open_input_image NEW IMAGE_MAGIC = Inr new \<and>
           DELTA = DELTA_MAGIC @ drop 16 (hdr new) @ hdr_extra new @ cmds"
proof -
  from create_delta_Inr [OF assms] obtain old new d0 old1 new1 d1 old2 new2 d2 where
    p: "prepare_image_files OLD IMAGE_MAGIC NEW IMAGE_MAGIC DELTA_MAGIC = Inr (old, new, d0)"
    and l: "delta_loop (nat (sint (if bbs_present old \<and> bbs_present new then ccount old + 1
                  else ccount old))) old new d0 = Inr (old1, new1, d1)"
    and t: "delta_tail old1 new1 d1 = Inr (old2, new2, d2)"
    and D: "DELTA = ofd (write_pending_cmd d2)"
    by blast
  note o = prepare_image_files_Inr [OF p]
  note fn = open_input_image_Inr [OF o(2)]
  have "d0 = \<lparr> ofd = DELTA_MAGIC @ drop 16 (hdr new) @ hdr_extra new, ocmd = CMD_DATA,
                ocmd_repeat = 0 \<rparr>"
    unfolding o(3) using fn length_magic by (intro create_output_image_bytes) simp_all
  then have "ofd d0 = DELTA_MAGIC @ drop 16 (hdr new) @ hdr_extra new" by simp
  with delta_loop_appends [OF l] delta_tail_appends [OF t] write_pending_cmd_appends [of d2] D
  have "\<exists>cmds. DELTA = DELTA_MAGIC @ drop 16 (hdr new) @ hdr_extra new @ cmds" by auto
  with o show ?thesis by blast
qed

lemma apply_patch_header:
  assumes "apply_patch OLD DELTA = Inr OUT"
  shows "\<exists>old delta cmds. open_input_image OLD IMAGE_MAGIC = Inr old \<and>
           open_input_image DELTA DELTA_MAGIC = Inr delta \<and>
           OUT = IMAGE_MAGIC @ drop 16 (hdr delta) @ hdr_extra delta @ cmds"
proof -
  from apply_patch_Inr [OF assms] obtain old delta n0 old1 delta1 n1 old2 delta2 n2 where
    p: "prepare_image_files OLD IMAGE_MAGIC DELTA DELTA_MAGIC IMAGE_MAGIC = Inr (old, delta, n0)"
    and l: "patch_loop (nat (sint (ccount old))) old delta n0 = Inr (old1, delta1, n1)"
    and t: "patch_tail old1 delta1 n1 = Inr (old2, delta2, n2)"
    and D: "OUT = ofd (write_pending_cmd n2)"
    by blast
  note o = prepare_image_files_Inr [OF p]
  note fn = open_input_image_Inr [OF o(2)]
  have "n0 = \<lparr> ofd = IMAGE_MAGIC @ drop 16 (hdr delta) @ hdr_extra delta, ocmd = CMD_DATA,
                ocmd_repeat = 0 \<rparr>"
    unfolding o(3) using fn length_magic by (intro create_output_image_bytes) simp_all
  then have "ofd n0 = IMAGE_MAGIC @ drop 16 (hdr delta) @ hdr_extra delta" by simp
  with patch_loop_appends [OF l] patch_tail_appends [OF t] write_pending_cmd_appends [of n2] D
  have "\<exists>cmds. OUT = IMAGE_MAGIC @ drop 16 (hdr delta) @ hdr_extra delta @ cmds" by auto
  with o show ?thesis by blast
qed

section \<open>The check of the cluster counts\<close>

lemma delta_loop_intro:
  assumes "read_clusters n old False = Inr (eo, old1)" "read_clusters n new False = Inr (en, new1)"
    and "cmd old = CMD_SKIP \<or> cmd old = CMD_DATA" "cmd new = CMD_SKIP \<or> cmd new = CMD_DATA"
    and "csize new = csize old" "unat (csize old) \<le> NTFS_MAX_CLUSTER_SIZE"
  shows "\<exists>delta1. delta_loop n old new delta = Inr (old1, new1, delta1)"
  using assms
proof (induction n arbitrary: old new delta eo en)
  case 0
  then show ?case by simp
next
  case (Suc n)
  from Suc.prems(1) obtain old2 eo2 where r1: "read_next_cluster old False = Inr old2"
    and s1: "read_clusters n old2 False = Inr (eo2, old1)"
    by (auto split: sum.splits)
  from Suc.prems(2) obtain new2 en2 where r2: "read_next_cluster new False = Inr new2"
    and s2: "read_clusters n new2 False = Inr (en2, new1)"
    by (auto split: sum.splits)
  have co: "cmd old2 = CMD_SKIP \<or> cmd old2 = CMD_DATA"
    using read_next_cluster_cmd [OF r1] Suc.prems(3) by simp
  have cn: "cmd new2 = CMD_SKIP \<or> cmd new2 = CMD_DATA"
    using read_next_cluster_cmd [OF r2] Suc.prems(4) by simp
  have sz: "csize old2 = csize old" "csize new2 = csize new"
    using read_next_cluster_fields [OF r1] read_next_cluster_fields [OF r2] by simp_all
  have b: "unat (csize old2) \<le> NTFS_MAX_CLUSTER_SIZE" "unat (csize new2) \<le> NTFS_MAX_CLUSTER_SIZE"
    using sz Suc.prems(5,6) by simp_all
  have "delta_cluster old2 new2 delta =
          emit (csize new2) delta (spec_delta_event (event_of old2) (event_of new2))"
    using co cn sz Suc.prems(5) b(1) by (intro delta_cluster_emit) simp_all
  then obtain delta2 where c: "delta_cluster old2 new2 delta = Inr delta2"
    using emit_ok [OF b(2)] by metis
  obtain delta1 where "delta_loop n old2 new2 delta2 = Inr (old1, new1, delta1)"
    using Suc.IH [OF s1 s2 co cn _ b(1)] sz Suc.prems(5) by auto
  then show ?case using r1 r2 c by simp
qed

lemma patch_loop_ok:
  assumes "read_clusters n old False = Inr (eo, old1)" "read_clusters n delta True = Inr (ed, delta1)"
    and "cmd old = CMD_SKIP \<or> cmd old = CMD_DATA"
    and "cmd delta = CMD_SKIP \<or> cmd delta = CMD_DATA \<or> cmd delta = CMD_DROP"
    and "csize delta = csize old" "unat (csize old) \<le> NTFS_MAX_CLUSTER_SIZE"
  shows "\<exists>new1. patch_loop n old delta new = Inr (old1, delta1, new1)"
proof -
  obtain new1 where "emit_all (csize old) new (map2 spec_patch_event eo ed) = Inr new1"
    using emit_all_ok [OF assms(6)] by blast
  then have "patch_loop n old delta new = Inr (old1, delta1, new1)"
    using assms(1-5) by (intro patch_loop_intro) simp_all
  then show ?thesis by blast
qed

lemma write_data_ok:
  "unat sz \<le> NTFS_MAX_CLUSTER_SIZE \<Longrightarrow> \<exists>w1. write_data w buf sz = Inr w1"
  using emit_ok [of sz w "Data (cdata_bytes buf (nat (sint sz)))"] by (simp add: write_data_emit)

lemma read_clusters_split:
  assumes "read_clusters (m + n) img a = Inr (evs, img2)"
  shows "\<exists>e1 img1 e2. read_clusters m img a = Inr (e1, img1) \<and>
           read_clusters n img1 a = Inr (e2, img2)"
  using assms by (auto simp: read_clusters_add split: sum.splits)

lemma read_clusters_one:
  "read_clusters (if c then 1 else 0) img a = Inr (evs, img1) \<Longrightarrow>
   (if c then read_next_cluster img a = Inr img1 else img1 = img)"
  by (auto split: sum.splits if_splits)

lemma create_delta_count_check:
  assumes prep: "prepare_image_files f1 IMAGE_MAGIC f2 IMAGE_MAGIC DELTA_MAGIC = Inr (old, new, d0)"
    and bound: "unat (csize old) \<le> NTFS_MAX_CLUSTER_SIZE"
    and ro: "read_clusters
               (nat (sint (if bbs_present old \<and> bbs_present new then ccount old + 1 else ccount old)) +
                (if bbs_present old \<and> \<not> bbs_present new then 1 else 0)) old False = Inr (eo, old2)"
    and rn: "read_clusters
               (nat (sint (if bbs_present old \<and> bbs_present new then ccount old + 1 else ccount old)) +
                (if \<not> bbs_present old \<and> bbs_present new then 1 else 0)) new False = Inr (en, new2)"
  shows "\<exists>D. create_delta f1 f2 =
           (if 0 <s cmd_repeat old2 then Inl FirstRemaining
            else if 0 <s cmd_repeat new2 then Inl SecondRemaining
            else Inr D)"
proof -
  let ?n = "nat (sint (if bbs_present old \<and> bbs_present new then ccount old + 1 else ccount old))"
  note o = prepare_image_files_Inr [OF prep]
  note szs = prepare_image_files_fields [OF prep]
  have v: "cmd old = CMD_SKIP \<or> cmd old = CMD_DATA" "cmd new = CMD_SKIP \<or> cmd new = CMD_DATA"
    using open_input_image_Inr [OF o(1)] open_input_image_Inr [OF o(2)]
    by (simp_all add: CMD_SKIP_def)
  from read_clusters_split [OF ro] obtain e1 old1 e2 where
    ro1: "read_clusters ?n old False = Inr (e1, old1)"
    and ro2: "read_clusters (if bbs_present old \<and> \<not> bbs_present new then 1 else 0) old1 False =
                Inr (e2, old2)"
    by blast
  from read_clusters_split [OF rn] obtain e3 new1 e4 where
    rn1: "read_clusters ?n new False = Inr (e3, new1)"
    and rn2: "read_clusters (if \<not> bbs_present old \<and> bbs_present new then 1 else 0) new1 False =
                Inr (e4, new2)"
    by blast
  obtain d1 where loop: "delta_loop ?n old new d0 = Inr (old1, new1, d1)"
    using delta_loop_intro [OF ro1 rn1 v szs(1) bound] by blast
  have b1: "bbs_present old1 = bbs_present old" "bbs_present new1 = bbs_present new"
    "csize new1 = csize old"
    using read_clusters_fields [OF ro1] read_clusters_fields [OF rn1] szs by simp_all
  note t1 = read_clusters_one [OF ro2] and t2 = read_clusters_one [OF rn2]
  have "\<exists>d2. delta_tail old1 new1 d1 = Inr (old2, new2, d2)"
  proof (cases "\<not> bbs_present old \<and> bbs_present new")
    case True
    with t1 t2 have r: "read_next_cluster new1 False = Inr new2" "old2 = old1" by simp_all
    have "csize new2 = csize old"
      using read_next_cluster_fields [OF r(1)] b1 by simp
    then obtain d2 where "write_data d1 (cdata new2) (csize new2) = Inr d2"
      using write_data_ok [of "csize new2" d1 "cdata new2"] bound by auto
    then show ?thesis using True r b1 by (simp add: delta_tail_def)
  next
    case False
    then show ?thesis using t1 t2 b1 by (auto simp: delta_tail_def)
  qed
  then obtain d2 where tail: "delta_tail old1 new1 d1 = Inr (old2, new2, d2)" by blast
  have "create_delta f1 f2 =
          (if 0 <s cmd_repeat old2 then Inl FirstRemaining
           else if 0 <s cmd_repeat new2 then Inl SecondRemaining
           else Inr (ofd (write_pending_cmd d2)))"
    by (simp add: create_delta_def prep loop tail finish_image_files_def Let_def)
  then show ?thesis by blast
qed

lemma apply_patch_count_check:
  assumes prep: "prepare_image_files f1 IMAGE_MAGIC f2 DELTA_MAGIC IMAGE_MAGIC = Inr (old, delta, n0)"
    and bound: "unat (csize old) \<le> NTFS_MAX_CLUSTER_SIZE"
    and ro: "read_clusters
               (nat (sint (ccount old)) +
                (if bbs_present old \<and> \<not> bbs_present delta then 1 else 0)) old False = Inr (eo, old2)"
    and rd: "read_clusters (nat (sint (ccount old))) delta True = Inr (ed, delta1)"
    and rt: "read_clusters (if \<not> bbs_present old \<and> bbs_present delta then 1 else 0) delta1 False =
               Inr (et, delta2)"
  shows "\<exists>N. apply_patch f1 f2 =
           (if 0 <s cmd_repeat old2 then Inl FirstRemaining
            else if 0 <s cmd_repeat delta2 then Inl SecondRemaining
            else Inr N)"
proof -
  let ?n = "nat (sint (ccount old))"
  note o = prepare_image_files_Inr [OF prep]
  note szs = prepare_image_files_fields [OF prep]
  have v: "cmd old = CMD_SKIP \<or> cmd old = CMD_DATA"
    "cmd delta = CMD_SKIP \<or> cmd delta = CMD_DATA \<or> cmd delta = CMD_DROP"
    using open_input_image_Inr [OF o(1)] open_input_image_Inr [OF o(2)]
    by (simp_all add: CMD_SKIP_def)
  from read_clusters_split [OF ro] obtain e1 old1 e2 where
    ro1: "read_clusters ?n old False = Inr (e1, old1)"
    and ro2: "read_clusters (if bbs_present old \<and> \<not> bbs_present delta then 1 else 0) old1 False =
                Inr (e2, old2)"
    by blast
  obtain n1 where loop: "patch_loop ?n old delta n0 = Inr (old1, delta1, n1)"
    using patch_loop_ok [OF ro1 rd v szs(1) bound] by blast
  have b1: "bbs_present old1 = bbs_present old" "bbs_present delta1 = bbs_present delta"
    "csize delta1 = csize old"
    using read_clusters_fields [OF ro1] read_clusters_fields [OF rd] szs by simp_all
  note t1 = read_clusters_one [OF ro2] and t2 = read_clusters_one [OF rt]
  have "\<exists>n2. patch_tail old1 delta1 n1 = Inr (old2, delta2, n2)"
  proof (cases "\<not> bbs_present old \<and> bbs_present delta")
    case True
    with t1 t2 have r: "read_next_cluster delta1 False = Inr delta2" "old2 = old1" by simp_all
    have "csize delta2 = csize old"
      using read_next_cluster_fields [OF r(1)] b1 by simp
    then obtain n2 where "write_data n1 (cdata delta2) (csize delta2) = Inr n2"
      using write_data_ok [of "csize delta2" n1 "cdata delta2"] bound by auto
    then show ?thesis using True r b1 by (simp add: patch_tail_def)
  next
    case False
    then show ?thesis using t1 t2 b1 by (auto simp: patch_tail_def)
  qed
  then obtain n2 where tail: "patch_tail old1 delta1 n1 = Inr (old2, delta2, n2)" by blast
  have "apply_patch f1 f2 =
          (if 0 <s cmd_repeat old2 then Inl FirstRemaining
           else if 0 <s cmd_repeat delta2 then Inl SecondRemaining
           else Inr (ofd (write_pending_cmd n2)))"
    by (simp add: apply_patch_def prep loop tail finish_image_files_def Let_def)
  then show ?thesis by blast
qed

section \<open>Reads that fail\<close>

lemma read_next_cluster_error:
  assumes "read_next_cluster img a = Inl e"
  shows "e = UnexpectedEOF \<or> e = ZeroRepeat \<or> e = InvalidCommand \<or> e = OutOfBounds"
  using assms
  by (auto simp: read_next_cluster_def read_all_def Let_def split: if_splits sum.splits prod.splits)

lemma read_next_cluster_eof:
  assumes "\<not> 0 <s cmd_repeat img" "fd img = []"
  shows "read_next_cluster img a = Inl UnexpectedEOF"
  using assms by (simp add: read_next_cluster_def read_all_def)

lemma delta_loop_add:
  "delta_loop (m + n) old new delta =
     (case delta_loop m old new delta of
        Inl e \<Rightarrow> Inl e
      | Inr (old1, new1, delta1) \<Rightarrow> delta_loop n old1 new1 delta1)"
  by (induction m arbitrary: old new delta) (auto split: sum.splits)

lemma patch_loop_add:
  "patch_loop (m + n) old delta new =
     (case patch_loop m old delta new of
        Inl e \<Rightarrow> Inl e
      | Inr (old1, delta1, new1) \<Rightarrow> patch_loop n old1 delta1 new1)"
  by (induction m arbitrary: old delta new) (auto split: sum.splits)

lemma read_clusters_Suc_last:
  assumes "read_clusters (Suc k) img a = Inr (evs, img2)"
  shows "\<exists>e1 img1. read_clusters k img a = Inr (e1, img1) \<and> read_next_cluster img1 a = Inr img2"
proof -
  from read_clusters_split [of k 1 img a evs img2] assms obtain e1 img1 e2 where
    "read_clusters k img a = Inr (e1, img1)" "read_clusters 1 img1 a = Inr (e2, img2)"
    by auto
  then show ?thesis by (auto split: sum.splits)
qed

lemma create_delta_first_fails:
  assumes prep: "prepare_image_files f1 IMAGE_MAGIC f2 IMAGE_MAGIC DELTA_MAGIC = Inr (old, new, d0)"
    and bound: "unat (csize old) \<le> NTFS_MAX_CLUSTER_SIZE"
    and k: "k < nat (sint (if bbs_present old \<and> bbs_present new then ccount old + 1 else ccount old)) +
                (if bbs_present old \<and> \<not> bbs_present new then 1 else 0)"
    and ro: "read_clusters k old False = Inr (eo, oldk)"
    and rn: "read_clusters k new False = Inr (en, newk)"
    and fail: "read_next_cluster oldk False = Inl e"
  shows "create_delta f1 f2 = Inl e"
proof -
  let ?n = "nat (sint (if bbs_present old \<and> bbs_present new then ccount old + 1 else ccount old))"
  note o = prepare_image_files_Inr [OF prep]
  note szs = prepare_image_files_fields [OF prep]
  have v: "cmd old = CMD_SKIP \<or> cmd old = CMD_DATA" "cmd new = CMD_SKIP \<or> cmd new = CMD_DATA"
    using open_input_image_Inr [OF o(1)] open_input_image_Inr [OF o(2)]
    by (simp_all add: CMD_SKIP_def)
  obtain dk where loop: "delta_loop k old new d0 = Inr (oldk, newk, dk)"
    using delta_loop_intro [OF ro rn v szs(1) bound] by blast
  show ?thesis
  proof (cases "k < ?n")
    case True
    then obtain m where n: "?n = k + Suc m"
      by (metis less_imp_Suc_add add_Suc_right)
    have "delta_loop (k + Suc m) old new d0 = Inl e"
      by (subst delta_loop_add) (simp add: loop fail)
    then have l: "delta_loop ?n old new d0 = Inl e" by (simp only: n)
    show ?thesis by (simp add: create_delta_def prep l Let_def)
  next
    case False
    with k have kn: "k = ?n" and flags: "bbs_present old \<and> \<not> bbs_present new"
      by (auto split: if_splits)
    have b: "bbs_present oldk = bbs_present old" "bbs_present newk = bbs_present new"
      using read_clusters_fields [OF ro] read_clusters_fields [OF rn] by simp_all
    have t: "delta_tail oldk newk dk = Inl e"
      using flags b fail by (simp add: delta_tail_def)
    show ?thesis by (simp add: create_delta_def prep kn [symmetric] loop t Let_def)
  qed
qed

lemma create_delta_second_fails:
  assumes prep: "prepare_image_files f1 IMAGE_MAGIC f2 IMAGE_MAGIC DELTA_MAGIC = Inr (old, new, d0)"
    and bound: "unat (csize old) \<le> NTFS_MAX_CLUSTER_SIZE"
    and k: "k < nat (sint (if bbs_present old \<and> bbs_present new then ccount old + 1 else ccount old)) +
                (if \<not> bbs_present old \<and> bbs_present new then 1 else 0)"
    and ro: "read_clusters
               (min (Suc k)
                  (nat (sint (if bbs_present old \<and> bbs_present new then ccount old + 1 else ccount old)) +
                   (if bbs_present old \<and> \<not> bbs_present new then 1 else 0))) old False = Inr (eo, old1)"
    and rn: "read_clusters k new False = Inr (en, newk)"
    and fail: "read_next_cluster newk False = Inl e"
  shows "create_delta f1 f2 = Inl e"
proof -
  let ?n = "nat (sint (if bbs_present old \<and> bbs_present new then ccount old + 1 else ccount old))"
  note o = prepare_image_files_Inr [OF prep]
  note szs = prepare_image_files_fields [OF prep]
  have v: "cmd old = CMD_SKIP \<or> cmd old = CMD_DATA" "cmd new = CMD_SKIP \<or> cmd new = CMD_DATA"
    using open_input_image_Inr [OF o(1)] open_input_image_Inr [OF o(2)]
    by (simp_all add: CMD_SKIP_def)
  show ?thesis
  proof (cases "k < ?n")
    case True
    then obtain m where n: "?n = k + Suc m"
      by (metis less_imp_Suc_add add_Suc_right)
    from True have "min (Suc k) (?n + (if bbs_present old \<and> \<not> bbs_present new then 1 else 0)) = Suc k"
      by simp
    with ro have "read_clusters (Suc k) old False = Inr (eo, old1)" by simp
    from read_clusters_Suc_last [OF this] obtain ek oldk where
      rk: "read_clusters k old False = Inr (ek, oldk)"
      and nx: "read_next_cluster oldk False = Inr old1"
      by blast
    obtain dk where loop: "delta_loop k old new d0 = Inr (oldk, newk, dk)"
      using delta_loop_intro [OF rk rn v szs(1) bound] by blast
    have "delta_loop (k + Suc m) old new d0 = Inl e"
      by (subst delta_loop_add) (simp add: loop nx fail)
    then have l: "delta_loop ?n old new d0 = Inl e" by (simp only: n)
    show ?thesis by (simp add: create_delta_def prep l Let_def)
  next
    case False
    with k have kn: "k = ?n" and flags: "\<not> bbs_present old \<and> bbs_present new"
      by (auto split: if_splits)
    from kn flags ro have rk: "read_clusters k old False = Inr (eo, old1)" by simp
    obtain dk where loop: "delta_loop k old new d0 = Inr (old1, newk, dk)"
      using delta_loop_intro [OF rk rn v szs(1) bound] by blast
    have b: "bbs_present old1 = bbs_present old" "bbs_present newk = bbs_present new"
      using read_clusters_fields [OF rk] read_clusters_fields [OF rn] by simp_all
    have t: "delta_tail old1 newk dk = Inl e"
      using flags b fail by (simp add: delta_tail_def)
    show ?thesis by (simp add: create_delta_def prep kn [symmetric] loop t Let_def)
  qed
qed

lemma apply_patch_first_fails:
  assumes prep: "prepare_image_files f1 IMAGE_MAGIC f2 DELTA_MAGIC IMAGE_MAGIC = Inr (old, delta, n0)"
    and bound: "unat (csize old) \<le> NTFS_MAX_CLUSTER_SIZE"
    and k: "k < nat (sint (ccount old)) + (if bbs_present old \<and> \<not> bbs_present delta then 1 else 0)"
    and ro: "read_clusters k old False = Inr (eo, oldk)"
    and rd: "read_clusters k delta True = Inr (ed, deltak)"
    and fail: "read_next_cluster oldk False = Inl e"
  shows "apply_patch f1 f2 = Inl e"
proof -
  let ?n = "nat (sint (ccount old))"
  note o = prepare_image_files_Inr [OF prep]
  note szs = prepare_image_files_fields [OF prep]
  have v: "cmd old = CMD_SKIP \<or> cmd old = CMD_DATA"
    "cmd delta = CMD_SKIP \<or> cmd delta = CMD_DATA \<or> cmd delta = CMD_DROP"
    using open_input_image_Inr [OF o(1)] open_input_image_Inr [OF o(2)]
    by (simp_all add: CMD_SKIP_def)
  obtain nk where loop: "patch_loop k old delta n0 = Inr (oldk, deltak, nk)"
    using patch_loop_ok [OF ro rd v szs(1) bound] by blast
  show ?thesis
  proof (cases "k < ?n")
    case True
    then obtain m where n: "?n = k + Suc m"
      by (metis less_imp_Suc_add add_Suc_right)
    have "patch_loop (k + Suc m) old delta n0 = Inl e"
      by (subst patch_loop_add) (simp add: loop fail)
    then have l: "patch_loop ?n old delta n0 = Inl e" by (simp only: n)
    show ?thesis by (simp add: apply_patch_def prep l Let_def)
  next
    case False
    with k have kn: "k = ?n" and flags: "bbs_present old \<and> \<not> bbs_present delta"
      by (auto split: if_splits)
    have b: "bbs_present oldk = bbs_present old" "bbs_present deltak = bbs_present delta"
      using read_clusters_fields [OF ro] read_clusters_fields [OF rd] by simp_all
    have t: "patch_tail oldk deltak nk = Inl e"
      using flags b fail by (simp add: patch_tail_def)
    show ?thesis by (simp add: apply_patch_def prep kn [symmetric] loop t Let_def)
  qed
qed

lemma apply_patch_second_fails:
  assumes prep: "prepare_image_files f1 IMAGE_MAGIC f2 DELTA_MAGIC IMAGE_MAGIC = Inr (old, delta, n0)"
    and bound: "unat (csize old) \<le> NTFS_MAX_CLUSTER_SIZE"
    and k: "k < nat (sint (ccount old)) + (if \<not> bbs_present old \<and> bbs_present delta then 1 else 0)"
    and ro: "read_clusters
               (min (Suc k)
                  (nat (sint (ccount old)) +
                   (if bbs_present old \<and> \<not> bbs_present delta then 1 else 0))) old False = Inr (eo, old1)"
    and rd: "read_clusters k delta True = Inr (ed, deltak)"
    and fail: "read_next_cluster deltak (k < nat (sint (ccount old))) = Inl e"
  shows "apply_patch f1 f2 = Inl e"
proof -
  let ?n = "nat (sint (ccount old))"
  note o = prepare_image_files_Inr [OF prep]
  note szs = prepare_image_files_fields [OF prep]
  have v: "cmd old = CMD_SKIP \<or> cmd old = CMD_DATA"
    "cmd delta = CMD_SKIP \<or> cmd delta = CMD_DATA \<or> cmd delta = CMD_DROP"
    using open_input_image_Inr [OF o(1)] open_input_image_Inr [OF o(2)]
    by (simp_all add: CMD_SKIP_def)
  show ?thesis
  proof (cases "k < ?n")
    case True
    then obtain m where n: "?n = k + Suc m"
      by (metis less_imp_Suc_add add_Suc_right)
    from True have "min (Suc k) (?n + (if bbs_present old \<and> \<not> bbs_present delta then 1 else 0)) = Suc k"
      by simp
    with ro have "read_clusters (Suc k) old False = Inr (eo, old1)" by simp
    from read_clusters_Suc_last [OF this] obtain ek oldk where
      rk: "read_clusters k old False = Inr (ek, oldk)"
      and nx: "read_next_cluster oldk False = Inr old1"
      by blast
    obtain nk where loop: "patch_loop k old delta n0 = Inr (oldk, deltak, nk)"
      using patch_loop_ok [OF rk rd v szs(1) bound] by blast
    from fail True have fl: "read_next_cluster deltak True = Inl e" by simp
    have "patch_loop (k + Suc m) old delta n0 = Inl e"
      by (subst patch_loop_add) (simp add: loop nx fl)
    then have l: "patch_loop ?n old delta n0 = Inl e" by (simp only: n)
    show ?thesis by (simp add: apply_patch_def prep l Let_def)
  next
    case False
    with k have kn: "k = ?n" and flags: "\<not> bbs_present old \<and> bbs_present delta"
      by (auto split: if_splits)
    from kn flags ro have rk: "read_clusters k old False = Inr (eo, old1)" by simp
    obtain nk where loop: "patch_loop k old delta n0 = Inr (old1, deltak, nk)"
      using patch_loop_ok [OF rk rd v szs(1) bound] by blast
    have b: "bbs_present old1 = bbs_present old" "bbs_present deltak = bbs_present delta"
      using read_clusters_fields [OF rk] read_clusters_fields [OF rd] by simp_all
    from fail False have fl: "read_next_cluster deltak False = Inl e" by simp
    have t: "patch_tail old1 deltak nk = Inl e"
      using flags b fl by (simp add: patch_tail_def)
    show ?thesis by (simp add: apply_patch_def prep kn [symmetric] loop t Let_def)
  qed
qed

section \<open>C5: the stored repeat count\<close>

text \<open>
  C5 (amended). The stored repeat count of a run record is the number of clusters of the
  run, not that number minus one. Writer: \<open>n\<close> calls of \<open>write_cmd\<close> with a command \<open>c\<close>
  that is not the pending one (\<open>1 \<le> n < 2^63\<close>), then the flush, append the byte \<open>c\<close> and
  the signed 64-bit value \<open>n\<close>. Reader: a run record with a stored count \<open>r > 0\<close> gives
  exactly \<open>r\<close> cluster events of its command; the reader then has no pending run and
  stands right behind the record.
\<close>

theorem repeat_count_is_run_length:
  fixes w :: output_image and img :: input_image
  shows "(ocmd w \<noteq> c \<and> c \<noteq> CMD_DATA \<and> 0 < n \<and> n < 2 ^ 63 \<longrightarrow>
            ofd (write_pending_cmd (write_cmds n w c)) =
              ofd (write_pending_cmd w) @ c # sle64_bytes (of_nat n) \<and>
            sint (of_nat n :: 64 word) = int n) \<and>
         (\<not> 0 <s cmd_repeat img \<and> fd img = c # sle64_bytes r @ rest \<and>
          (c = CMD_SKIP \<or> (a \<and> c = CMD_DROP)) \<and> 0 <s r \<longrightarrow>
            read_clusters (nat (sint r)) img a =
              Inr (replicate (nat (sint r)) (cmd_event c),
                   img\<lparr>fd := rest, cmd := c, cmd_repeat := 0\<rparr>))"
proof (intro conjI impI)
  assume a: "ocmd w \<noteq> c \<and> c \<noteq> CMD_DATA \<and> 0 < n \<and> n < 2 ^ 63"
  then show "ofd (write_pending_cmd (write_cmds n w c)) =
               ofd (write_pending_cmd w) @ c # sle64_bytes (of_nat n)"
    by (simp add: write_cmds_flush)
  from a show "sint (of_nat n :: 64 word) = int n"
    by (simp add: sint_of_nat_64)
next
  assume a: "\<not> 0 <s cmd_repeat img \<and> fd img = c # sle64_bytes r @ rest \<and>
             (c = CMD_SKIP \<or> (a \<and> c = CMD_DROP)) \<and> 0 <s r"
  let ?n = "nat (sint r)"
  have r: "of_nat ?n = r" using a by (simp add: of_nat_nat_sint)
  have pos: "0 < ?n" using a by (simp add: word_sless_alt)
  have "fd img = c # sle64_bytes (of_nat ?n) @ rest" using a r by simp
  then show "read_clusters ?n img a =
               Inr (replicate ?n (cmd_event c), img\<lparr>fd := rest, cmd := c, cmd_repeat := 0\<rparr>)"
    using a pos nat_sint_less [of r] by (intro read_clusters_run) simp_all
qed

theorem repeat_count_is_run_length_witness:
  "(ofd (write_pending_cmd (write_cmds 3 writer_start CMD_SKIP)) =
      ofd (write_pending_cmd writer_start) @ CMD_SKIP # sle64_bytes (of_nat 3) \<and>
    sint (of_nat 3 :: 64 word) = int 3) \<and>
   read_clusters (nat (sint (3 :: 64 word))) (reader_at (CMD_SKIP # sle64_bytes 3 @ [1, 7]) 1) False =
     Inr (replicate (nat (sint (3 :: 64 word))) (cmd_event CMD_SKIP),
          (reader_at (CMD_SKIP # sle64_bytes 3 @ [1, 7]) 1)\<lparr>fd := [1, 7], cmd := CMD_SKIP, cmd_repeat := 0\<rparr>)"
proof -
  have 1: "ocmd writer_start \<noteq> CMD_SKIP \<and> CMD_SKIP \<noteq> CMD_DATA \<and> 0 < (3::nat) \<and> (3::nat) < 2 ^ 63"
    by (simp add: writer_start_def CMD_SKIP_def CMD_DATA_def)
  have 2: "\<not> 0 <s cmd_repeat (reader_at (CMD_SKIP # sle64_bytes 3 @ [1, 7]) 1) \<and>
           fd (reader_at (CMD_SKIP # sle64_bytes 3 @ [1, 7]) 1) = CMD_SKIP # sle64_bytes 3 @ [1, 7] \<and>
           (CMD_SKIP = CMD_SKIP \<or> (False \<and> CMD_SKIP = CMD_DROP)) \<and> 0 <s (3 :: 64 word)"
    by (simp add: reader_at_def word_sless_alt)
  show ?thesis
    using repeat_count_is_run_length [of writer_start CMD_SKIP 3
        "reader_at (CMD_SKIP # sle64_bytes 3 @ [1, 7]) 1" 3 "[1, 7]" False] 1 2
    by blast
qed

text \<open>The claim as stated fails for a run of one cluster: the writer stores 1, not 0, and
  a record with the stored count 1 stands for one cluster (the second event read is the
  data record behind it).\<close>

theorem repeat_count_minus_one_counterexample:
  "ofd (write_pending_cmd (write_cmds 1 writer_start CMD_SKIP)) = [0, 1, 0, 0, 0, 0, 0, 0, 0] \<and>
   ofd (write_pending_cmd (write_cmds 1 writer_start CMD_SKIP)) \<noteq> CMD_SKIP # sle64_bytes (1 - 1) \<and>
   read_clusters 2 (reader_at (CMD_SKIP # sle64_bytes 1 @ [CMD_DATA, 7]) 1) False =
     Inr ([Skip, Data [7]], (reader_at [] 1)\<lparr>cmd := CMD_DATA, cdata := [7]\<rparr>)"
  by (simp add: read_clusters_numeral writer_start_def write_cmd_def write_pending_cmd_def write_all_def
        reader_at_def read_next_cluster_def read_all_def sle64_bytes_def
        CMD_SKIP_def CMD_DATA_def CMD_DROP_def NTFS_MAX_CLUSTER_SIZE_def event_of_def
        cdata_bytes_def word_sless_alt)

section \<open>C6: run-length inverse law\<close>

text \<open>
  C6. A sequence of \<open>n \<ge> 1\<close> events that are all skip, or all drop, written by a writer
  without a pending run and flushed, appends bytes from which a reader without a pending
  run reads exactly these \<open>n\<close> events back, ending right behind them with no pending
  run (a drop run is read by the reader that allows drop, the one of the delta file).
  Whatever events a writer has been given, a pending run that it flushes has a stored
  count that is not zero. The reader exits with "Zero repeat length" on a run record
  with the stored count zero. The counters are signed 64-bit integers, so sequences are
  shorter than \<open>2^63\<close>.
\<close>

theorem run_length_inverse:
  assumes "e = Skip \<and> c = CMD_SKIP \<or> e = Drop \<and> c = CMD_DROP \<and> allow_drop"
    and "0 < n" "n < 2 ^ 63"
    and "ocmd w = CMD_DATA"
    and "\<not> 0 <s cmd_repeat img"
  shows "(\<exists>w1 bytes. emit_all sz w (replicate n e) = Inr w1 \<and>
            ofd (write_pending_cmd w1) = ofd w @ bytes \<and>
            read_clusters n (img\<lparr>fd := bytes @ rest\<rparr>) allow_drop =
              Inr (replicate n e, img\<lparr>fd := rest, cmd := c, cmd_repeat := 0\<rparr>)) \<and>
         (\<forall>evs w'. length evs < 2 ^ 64 \<longrightarrow> emit_all sz w evs = Inr w' \<longrightarrow> ocmd w' \<noteq> CMD_DATA \<longrightarrow>
            ocmd_repeat w' \<noteq> 0 \<and>
            ofd (write_pending_cmd w') = ofd w' @ ocmd w' # sle64_bytes (ocmd_repeat w')) \<and>
         read_next_cluster (img\<lparr>fd := c # sle64_bytes 0 @ rest\<rparr>) allow_drop = Inl ZeroRepeat"
proof (intro conjI allI impI)
  have c: "c \<noteq> CMD_DATA" "c = CMD_SKIP \<or> (allow_drop \<and> c = CMD_DROP)" "cmd_event c = e"
    using assms(1) by (auto simp: CMD_SKIP_def CMD_DATA_def CMD_DROP_def cmd_event_def)
  have enc: "emit_all sz w (replicate n e) = Inr (write_cmds n w c)"
    using assms(1) by (auto simp: emit_all_replicate_Skip emit_all_replicate_Drop)
  have out: "ofd (write_pending_cmd (write_cmds n w c)) = ofd w @ c # sle64_bytes (of_nat n)"
    using write_cmds_flush [of w c n] assms(2,4) c(1) by (simp add: write_pending_cmd_none)
  let ?img = "img\<lparr>fd := (c # sle64_bytes (of_nat n)) @ rest\<rparr>"
  have "read_clusters n ?img allow_drop =
          Inr (replicate n (cmd_event c), ?img\<lparr>fd := rest, cmd := c, cmd_repeat := 0\<rparr>)"
    using assms(2,3,5) c(2) by (intro read_clusters_run) simp_all
  then have dec: "read_clusters n ?img allow_drop =
          Inr (replicate n e, img\<lparr>fd := rest, cmd := c, cmd_repeat := 0\<rparr>)"
    by (simp add: c(3))
  show "\<exists>w1 bytes. emit_all sz w (replicate n e) = Inr w1 \<and>
            ofd (write_pending_cmd w1) = ofd w @ bytes \<and>
            read_clusters n (img\<lparr>fd := bytes @ rest\<rparr>) allow_drop =
              Inr (replicate n e, img\<lparr>fd := rest, cmd := c, cmd_repeat := 0\<rparr>)"
    using enc out dec by blast
  show "read_next_cluster (img\<lparr>fd := c # sle64_bytes 0 @ rest\<rparr>) allow_drop = Inl ZeroRepeat"
    using read_run_record [of "img\<lparr>fd := c # sle64_bytes 0 @ rest\<rparr>" c 0 rest allow_drop]
      assms(5) c(2) by simp
next
  fix evs w'
  assume a: "length evs < 2 ^ 64" "emit_all sz w evs = Inr w'" "ocmd w' \<noteq> CMD_DATA"
  have "ocmd w' = CMD_DATA \<or> (0 < unat (ocmd_repeat w') \<and> unat (ocmd_repeat w') \<le> 0 + length evs)"
    using a(1) assms(4) by (intro emit_all_pending_bound [OF a(2)]) simp_all
  with a(3) have "0 < unat (ocmd_repeat w')" by simp
  then show "ocmd_repeat w' \<noteq> 0" by auto
  show "ofd (write_pending_cmd w') = ofd w' @ ocmd w' # sle64_bytes (ocmd_repeat w')"
    using a(3) by (simp add: write_pending_cmd_run)
qed

theorem run_length_inverse_witness:
  "(\<exists>w1 bytes. emit_all 1 writer_start (replicate 2 Drop) = Inr w1 \<and>
      ofd (write_pending_cmd w1) = ofd writer_start @ bytes \<and>
      read_clusters 2 ((reader_at [] 1)\<lparr>fd := bytes @ [1, 7]\<rparr>) True =
        Inr (replicate 2 Drop, (reader_at [] 1)\<lparr>fd := [1, 7], cmd := CMD_DROP, cmd_repeat := 0\<rparr>)) \<and>
   read_next_cluster ((reader_at [] 1)\<lparr>fd := CMD_DROP # sle64_bytes 0 @ [1, 7]\<rparr>) True =
     Inl ZeroRepeat"
proof -
  have 1: "Drop = Skip \<and> CMD_DROP = CMD_SKIP \<or> Drop = Drop \<and> CMD_DROP = CMD_DROP \<and> True"
    by simp
  have 2: "0 < (2::nat)" "(2::nat) < 2 ^ 63" "ocmd writer_start = CMD_DATA"
    "\<not> 0 <s cmd_repeat (reader_at [] 1)"
    by (simp_all add: writer_start_def reader_at_def)
  show ?thesis
    using run_length_inverse [OF 1 2, of 1 "[1, 7]"] by blast
qed

section \<open>C7: the policy of delta generation\<close>



section \<open>C8: the policy of patch application\<close>



section \<open>C1: applying the generated delta\<close>

text \<open>
  C1 (amended). Let OLD and NEW be images for which \<open>create_delta\<close> succeeds, not both
  with the trailing-cluster flag (the other three combinations of the flags). Let the
  command stream of NEW be what the writer of this program produces for a list of skip
  and data events (maximal runs, as many events as the header declares clusters, plus the
  trailing cluster if NEW has one, nothing behind them), and let the trailing cluster of
  NEW, if it has one, be a data record. Then \<open>apply_patch\<close> on OLD and the generated delta
  succeeds and returns NEW, byte for byte.
\<close>

theorem patch_of_delta_restores_new:
  assumes oo: "open_input_image OLD IMAGE_MAGIC = Inr old"
    and on: "open_input_image NEW IMAGE_MAGIC = Inr new"
    and enc: "emit_all (csize new) writer_start evs = Inr w"
    and fdn: "fd new = ofd (write_pending_cmd w)"
    and wf: "\<forall>e\<in>set evs. wf_event False (csize new) e"
    and len: "length evs = nat (sint (ccount new)) + (if bbs_present new then 1 else 0)"
    and flags: "\<not> (bbs_present old \<and> bbs_present new)"
    and tail: "bbs_present new \<longrightarrow> (\<exists>p. last evs = Data p)"
    and gen: "create_delta OLD NEW = Inr DELTA"
  shows "apply_patch OLD DELTA = Inr NEW"
proof -
  let ?sz = "csize new"
  let ?n = "nat (sint (ccount new))"
  let ?HN = "hdr new @ hdr_extra new"
  from create_delta_Inr [OF gen] obtain old' new' d0 old1 new1 d1 old2 new2 d2 where
    prep0: "prepare_image_files OLD IMAGE_MAGIC NEW IMAGE_MAGIC DELTA_MAGIC = Inr (old', new', d0)"
    and loop0: "delta_loop (nat (sint (if bbs_present old' \<and> bbs_present new' then ccount old' + 1
                  else ccount old'))) old' new' d0 = Inr (old1, new1, d1)"
    and dtail: "delta_tail old1 new1 d1 = Inr (old2, new2, d2)"
    and fin: "\<not> 0 <s cmd_repeat old2" "\<not> 0 <s cmd_repeat new2"
    and D: "DELTA = ofd (write_pending_cmd d2)"
    by blast
  have eq: "old' = old" "new' = new"
    using prepare_image_files_Inr(1,2) [OF prep0] oo on by simp_all
  note prep = prep0 [unfolded eq]
  note szs = prepare_image_files_fields [OF prep]
  have loop: "delta_loop ?n old new d0 = Inr (old1, new1, d1)"
    using loop0 flags unfolding eq by (simp add: szs)
  note fn = open_input_image_Inr [OF on]
  have NEW: "NEW = ?HN @ fd new" using fn by simp
  have nb: "?n < 2 ^ 63" by (rule nat_sint_less)
  have v: "cmd old = CMD_SKIP \<or> cmd old = CMD_DATA" "cmd new = CMD_SKIP \<or> cmd new = CMD_DATA"
    using open_input_image_Inr [OF oo] fn by (simp_all add: CMD_SKIP_def)
  obtain eo en where ro: "read_clusters ?n old False = Inr (eo, old1)"
    and rn: "read_clusters ?n new False = Inr (en, new1)"
    using delta_loop_Inr [OF loop v szs(1)] by blast
  have b1: "bbs_present old1 = bbs_present old" "bbs_present new1 = bbs_present new"
    using read_clusters_fields [OF ro] read_clusters_fields [OF rn] by simp_all
  show ?thesis
  proof (cases "bbs_present new")
    case False
    with len have l: "length evs = ?n" by simp
    have fdn': "fd new = ofd (write_pending_cmd w) @ []" using fdn by simp
    from roundtrip_loop [OF prep loop enc wf l nb fdn'] obtain bytes_d where
      bd: "ofd (write_pending_cmd d1) = DELTA_MAGIC @ drop 16 (hdr new) @ hdr_extra new @ bytes_d"
      and ap: "\<And>t. \<exists>delta delta1 n0.
               prepare_image_files OLD IMAGE_MAGIC
                 (DELTA_MAGIC @ drop 16 (hdr new) @ hdr_extra new @ bytes_d @ t)
                 DELTA_MAGIC IMAGE_MAGIC = Inr (old, delta, n0) \<and>
               patch_loop ?n old delta n0 = Inr (old1, delta1, w\<lparr>ofd := ?HN @ ofd w\<rparr>) \<and>
               fd delta1 = t \<and> cmd_repeat delta1 = 0 \<and> csize delta1 = csize new \<and>
               bbs_present delta1 = bbs_present new \<and> ccount old = ccount new"
      by blast
    from ap [of "[]"] obtain delta delta1 n0 where
      p: "prepare_image_files OLD IMAGE_MAGIC
            (DELTA_MAGIC @ drop 16 (hdr new) @ hdr_extra new @ bytes_d) DELTA_MAGIC IMAGE_MAGIC =
          Inr (old, delta, n0)"
      and pl: "patch_loop ?n old delta n0 = Inr (old1, delta1, w\<lparr>ofd := ?HN @ ofd w\<rparr>)"
      and f1: "cmd_repeat delta1 = 0" "bbs_present delta1 = bbs_present new"
      and cc: "ccount old = ccount new"
      by auto
    have gt: "d2 = d1 \<and> (if bbs_present old then read_next_cluster old1 False = Inr old2
                          else old2 = old1)"
      using dtail False b1 by (auto simp: delta_tail_def split: sum.splits if_splits)
    have DL: "DELTA = DELTA_MAGIC @ drop 16 (hdr new) @ hdr_extra new @ bytes_d"
      using D gt bd by simp
    have pt: "patch_tail old1 delta1 (w\<lparr>ofd := ?HN @ ofd w\<rparr>) =
                Inr (old2, delta1, w\<lparr>ofd := ?HN @ ofd w\<rparr>)"
      using gt False b1 f1 by (auto simp: patch_tail_def)
    have pl': "patch_loop (nat (sint (ccount old))) old delta n0 =
                 Inr (old1, delta1, w\<lparr>ofd := ?HN @ ofd w\<rparr>)"
      using pl cc by simp
    have z: "\<not> 0 <s cmd_repeat delta1" using f1(1) by simp
    have "apply_patch OLD DELTA = Inr (ofd (write_pending_cmd (w\<lparr>ofd := ?HN @ ofd w\<rparr>)))"
      unfolding DL by (rule apply_patch_intro [OF p pl' pt fin(1) z])
    then show ?thesis
      using NEW fdn write_pending_cmd_prefix [of ?HN w] by simp
  next
    case True
    with flags have bo: "\<not> bbs_present old" by simp
    from True tail obtain p where lp: "last evs = Data p" by blast
    from True len have ne: "evs \<noteq> []" by auto
    define en0 where "en0 = butlast evs"
    have evs: "evs = en0 @ [Data p]"
      using ne lp unfolding en0_def by (metis append_butlast_last_id)
    have l: "length en0 = ?n" using len True evs by simp
    from enc obtain wn where e1: "emit_all ?sz writer_start en0 = Inr wn"
      and e2: "emit ?sz wn (Data p) = Inr w"
      unfolding evs by (auto simp: emit_all_append split: sum.splits)
    have wf0: "\<forall>e\<in>set en0. wf_event False ?sz e" using wf evs by simp
    have wp: "length p = nat (sint ?sz)" using wf evs by (simp add: wf_event_def)
    note wd = emit_Data_Inr [OF e2 wp]
    have wfl: "write_pending_cmd w = w"
      using wd(1) by (simp add: write_pending_cmd_none ocmd_write_pending_cmd)
    have fdn': "fd new = ofd (write_pending_cmd wn) @ CMD_DATA # p"
      using fdn wfl wd(1) by simp
    from roundtrip_loop [OF prep loop e1 wf0 l nb fdn'] obtain bytes_d where
      n1: "fd new1 = CMD_DATA # p" "cmd_repeat new1 = 0" "csize new1 = csize new"
      and bd: "ofd (write_pending_cmd d1) = DELTA_MAGIC @ drop 16 (hdr new) @ hdr_extra new @ bytes_d"
      and ap: "\<And>t. \<exists>delta delta1 n0.
               prepare_image_files OLD IMAGE_MAGIC
                 (DELTA_MAGIC @ drop 16 (hdr new) @ hdr_extra new @ bytes_d @ t)
                 DELTA_MAGIC IMAGE_MAGIC = Inr (old, delta, n0) \<and>
               patch_loop ?n old delta n0 = Inr (old1, delta1, wn\<lparr>ofd := ?HN @ ofd wn\<rparr>) \<and>
               fd delta1 = t \<and> cmd_repeat delta1 = 0 \<and> csize delta1 = csize new \<and>
               bbs_present delta1 = bbs_present new \<and> ccount old = ccount new"
      by blast
    from ap [of "CMD_DATA # p"] obtain delta delta1 n0 where
      pp: "prepare_image_files OLD IMAGE_MAGIC
            (DELTA_MAGIC @ drop 16 (hdr new) @ hdr_extra new @ bytes_d @ CMD_DATA # p)
            DELTA_MAGIC IMAGE_MAGIC = Inr (old, delta, n0)"
      and pl: "patch_loop ?n old delta n0 = Inr (old1, delta1, wn\<lparr>ofd := ?HN @ ofd wn\<rparr>)"
      and f1: "fd delta1 = CMD_DATA # p" "cmd_repeat delta1 = 0" "csize delta1 = csize new"
        "bbs_present delta1 = bbs_present new"
      and cc: "ccount old = ccount new"
      by auto
    \<comment> \<open>the tail of the generation\<close>
    from read_tail_cluster [of new1 p False d1] n1 wp wd(2) obtain new2' where
      g1: "read_next_cluster new1 False = Inr new2'"
      and g2: "write_data d1 (cdata new2') (csize new2') = emit ?sz d1 (Data p)"
      by auto
    from dtail True bo b1 g1 g2 have g3: "emit ?sz d1 (Data p) = Inr d2" "old2 = old1"
      by (auto simp: delta_tail_def split: sum.splits)
    note dd = emit_Data_Inr [OF g3(1) wp]
    have DL: "DELTA = DELTA_MAGIC @ drop 16 (hdr new) @ hdr_extra new @ bytes_d @ CMD_DATA # p"
      unfolding D using dd(1) bd
      by (simp add: write_pending_cmd_none ocmd_write_pending_cmd)
    \<comment> \<open>the tail of the patch\<close>
    from read_tail_cluster [of delta1 p False "wn\<lparr>ofd := ?HN @ ofd wn\<rparr>"] f1 wp wd(2)
    obtain delta2 where
      a1: "read_next_cluster delta1 False = Inr delta2" and a2: "cmd_repeat delta2 = 0"
      and a3: "write_data (wn\<lparr>ofd := ?HN @ ofd wn\<rparr>) (cdata delta2) (csize delta2) =
                 emit ?sz (wn\<lparr>ofd := ?HN @ ofd wn\<rparr>) (Data p)"
      by auto
    have a4: "emit ?sz (wn\<lparr>ofd := ?HN @ ofd wn\<rparr>) (Data p) = Inr (w\<lparr>ofd := ?HN @ ofd w\<rparr>)"
      using emit_prefix [OF e2] .
    have pt: "patch_tail old1 delta1 (wn\<lparr>ofd := ?HN @ ofd wn\<rparr>) =
                Inr (old1, delta2, w\<lparr>ofd := ?HN @ ofd w\<rparr>)"
      using True bo b1 f1(4) a1 a3 a4 by (simp add: patch_tail_def)
    have pl': "patch_loop (nat (sint (ccount old))) old delta n0 =
                 Inr (old1, delta1, wn\<lparr>ofd := ?HN @ ofd wn\<rparr>)"
      using pl cc by simp
    have z: "\<not> 0 <s cmd_repeat old1" "\<not> 0 <s cmd_repeat delta2"
      using fin(1) g3(2) a2 by simp_all
    have "apply_patch OLD DELTA = Inr (ofd (write_pending_cmd (w\<lparr>ofd := ?HN @ ofd w\<rparr>)))"
      unfolding DL by (rule apply_patch_intro [OF pp pl' pt z])
    then show ?thesis
      using NEW fdn write_pending_cmd_prefix [of ?HN w] by simp
  qed
qed

theorem patch_of_delta_restores_new_witness:
  "apply_patch ex_old ex_delta = Inr ex_new"
proof -
  let ?old = "\<lparr> fd = [1, 5, 0, 2, 0, 0, 0, 0, 0, 0, 0], hdr = take 50 ex_old, hdr_extra = [],
           hdr_extra_len = 0, csize = 1, ccount = 3, bbs_present = False, cmd = 0,
           cmd_repeat = 0, cdata = [] \<rparr>"
  let ?new = "\<lparr> fd = [1, 5, 0, 1, 0, 0, 0, 0, 0, 0, 0, 1, 6, 1, 9], hdr = take 50 ex_new,
           hdr_extra = [], hdr_extra_len = 0, csize = 1, ccount = 3, bbs_present = True, cmd = 0,
           cmd_repeat = 0, cdata = [] \<rparr>"
  let ?w = "\<lparr> ofd = [1, 5, 0, 1, 0, 0, 0, 0, 0, 0, 0, 1, 6, 1, 9], ocmd = 1, ocmd_repeat = 0 \<rparr>"
  have oo: "open_input_image ex_old IMAGE_MAGIC = Inr ?old"
    by (simp add: ex_old_def eval_open)
  have on: "open_input_image ex_new IMAGE_MAGIC = Inr ?new"
    by (simp add: ex_new_def eval_open)
  have enc: "emit_all (csize ?new) writer_start [Data [5], Skip, Data [6], Data [9]] = Inr ?w"
    by (simp add: writer_start_def emit_def eval_codec eval_prepare)
  have fdn: "fd ?new = ofd (write_pending_cmd ?w)"
    by (simp add: write_pending_cmd_def CMD_DATA_def)
  have wf: "\<forall>e\<in>set [Data [5], Skip, Data [6], Data [9]]. wf_event False (csize ?new) e"
    by (simp add: wf_event_def)
  have len: "length [Data [5], Skip, Data [6], Data [9]] =
               nat (sint (ccount ?new)) + (if bbs_present ?new then 1 else 0)"
    by simp
  have flags: "\<not> (bbs_present ?old \<and> bbs_present ?new)"
    by simp
  have tail: "bbs_present ?new \<longrightarrow> (\<exists>p. last [Data [5], Skip, Data [6], Data [9]] = Data p)"
    by simp
  have gen: "create_delta ex_old ex_new = Inr ex_delta"
    by (simp add: ex_old_def ex_new_def ex_delta_def eval_ops eval_open eval_prepare eval_codec)
  show ?thesis
    by (rule patch_of_delta_restores_new [OF oo on enc fdn wf len flags tail gen])
qed

text \<open>The claim as stated fails for an image whose two unallocated clusters are stored as
  two run records: the delta of the image with itself, applied to it, returns the image
  with one run record of two clusters, which are not the same bytes.\<close>

theorem roundtrip_split_runs_counterexample:
  "create_delta ex_split ex_split = Inr ex_split_delta \<and>
   apply_patch ex_split ex_split_delta = Inr ex_merged \<and>
   ex_merged \<noteq> ex_split"
  by (simp add: ex_split_def ex_split_delta_def ex_merged_def eval_ops eval_open eval_prepare
        eval_codec)

section \<open>C2: the trailing cluster in patch application\<close>

text \<open>
  C2. When OLD and DELTA both have the trailing-cluster flag, \<open>apply_patch\<close> computes
  \<open>ccount + 1\<close> but runs its loop \<open>old.ccount\<close> times, and the code after the loop does
  nothing for this combination: the trailing cluster is never read. For the delta of
  \<open>ex_bbs9\<close> with itself (one skip run of two clusters) the patch exits with "Second input
  image has 1 remaining unused clusters"; for the delta from \<open>ex_bbs9\<close> to \<open>ex_bbs8\<close> it
  succeeds and returns \<open>ex_bbs8\<close> without its trailing cluster.
\<close>

theorem apply_patch_misses_trailing_cluster:
  "create_delta ex_bbs9 ex_bbs9 = Inr ex_bbs_same_delta \<and>
   apply_patch ex_bbs9 ex_bbs_same_delta = Inl SecondRemaining \<and>
   create_delta ex_bbs9 ex_bbs8 = Inr ex_bbs_delta \<and>
   apply_patch ex_bbs9 ex_bbs_delta = Inr ex_bbs_cut \<and>
   ex_bbs_cut \<noteq> ex_bbs8"
  by (simp add: ex_bbs9_def ex_bbs8_def ex_bbs_same_delta_def ex_bbs_delta_def ex_bbs_cut_def
        eval_ops eval_open eval_prepare eval_codec)

section \<open>C3: the cross-check of the two headers\<close>




section \<open>C4: the header of the output image\<close>

text \<open>
  C4 (amended). The output starts with the given magic, followed by the bytes of the
  header of the second input image from \<open>major_ver\<close> on and by its extra block: the
  template is the NEW image when a delta is generated and the DELTA file (not the OLD
  image) when a patch is applied. The second input file itself consists of its header of
  50 bytes, its extra block and its command stream.
\<close>

theorem output_header_from_second_input:
  "(create_delta OLD NEW = Inr DELTA \<longrightarrow>
      (\<exists>old new cmds. open_input_image OLD IMAGE_MAGIC = Inr old \<and>
         open_input_image NEW IMAGE_MAGIC = Inr new \<and>
         length (hdr new) = 50 \<and> NEW = hdr new @ hdr_extra new @ fd new \<and>
         DELTA = DELTA_MAGIC @ drop 16 (hdr new) @ hdr_extra new @ cmds)) \<and>
   (apply_patch OLD2 DELTA2 = Inr OUT \<longrightarrow>
      (\<exists>old delta cmds. open_input_image OLD2 IMAGE_MAGIC = Inr old \<and>
         open_input_image DELTA2 DELTA_MAGIC = Inr delta \<and>
         length (hdr delta) = 50 \<and> DELTA2 = hdr delta @ hdr_extra delta @ fd delta \<and>
         OUT = IMAGE_MAGIC @ drop 16 (hdr delta) @ hdr_extra delta @ cmds))"
proof (intro conjI impI)
  assume "create_delta OLD NEW = Inr DELTA"
  from create_delta_header [OF this] obtain old new cmds where
    1: "open_input_image OLD IMAGE_MAGIC = Inr old" "open_input_image NEW IMAGE_MAGIC = Inr new"
      "DELTA = DELTA_MAGIC @ drop 16 (hdr new) @ hdr_extra new @ cmds"
    by blast
  have "length (hdr new) = 50 \<and> NEW = hdr new @ hdr_extra new @ fd new"
    using open_input_image_Inr [OF 1(2)] by simp
  with 1 show "\<exists>old new cmds. open_input_image OLD IMAGE_MAGIC = Inr old \<and>
         open_input_image NEW IMAGE_MAGIC = Inr new \<and>
         length (hdr new) = 50 \<and> NEW = hdr new @ hdr_extra new @ fd new \<and>
         DELTA = DELTA_MAGIC @ drop 16 (hdr new) @ hdr_extra new @ cmds"
    by blast
next
  assume "apply_patch OLD2 DELTA2 = Inr OUT"
  from apply_patch_header [OF this] obtain old delta cmds where
    1: "open_input_image OLD2 IMAGE_MAGIC = Inr old" "open_input_image DELTA2 DELTA_MAGIC = Inr delta"
      "OUT = IMAGE_MAGIC @ drop 16 (hdr delta) @ hdr_extra delta @ cmds"
    by blast
  have "length (hdr delta) = 50 \<and> DELTA2 = hdr delta @ hdr_extra delta @ fd delta"
    using open_input_image_Inr [OF 1(2)] by simp
  with 1 show "\<exists>old delta cmds. open_input_image OLD2 IMAGE_MAGIC = Inr old \<and>
         open_input_image DELTA2 DELTA_MAGIC = Inr delta \<and>
         length (hdr delta) = 50 \<and> DELTA2 = hdr delta @ hdr_extra delta @ fd delta \<and>
         OUT = IMAGE_MAGIC @ drop 16 (hdr delta) @ hdr_extra delta @ cmds"
    by blast
qed

theorem output_header_from_second_input_witness:
  "(\<exists>old new cmds. open_input_image ex_bbs9 IMAGE_MAGIC = Inr old \<and>
         open_input_image ex_bbs8 IMAGE_MAGIC = Inr new \<and>
         length (hdr new) = 50 \<and> ex_bbs8 = hdr new @ hdr_extra new @ fd new \<and>
         ex_bbs_delta = DELTA_MAGIC @ drop 16 (hdr new) @ hdr_extra new @ cmds) \<and>
   (\<exists>old delta cmds. open_input_image ex_merged IMAGE_MAGIC = Inr old \<and>
         open_input_image ex_merged_inuse_delta DELTA_MAGIC = Inr delta \<and>
         length (hdr delta) = 50 \<and>
         ex_merged_inuse_delta = hdr delta @ hdr_extra delta @ fd delta \<and>
         ex_merged_inuse = IMAGE_MAGIC @ drop 16 (hdr delta) @ hdr_extra delta @ cmds)"
proof -
  have 1: "create_delta ex_bbs9 ex_bbs8 = Inr ex_bbs_delta"
    by (simp add: ex_bbs9_def ex_bbs8_def ex_bbs_delta_def eval_ops eval_open eval_prepare
          eval_codec)
  have 2: "apply_patch ex_merged ex_merged_inuse_delta = Inr ex_merged_inuse"
    by (simp add: ex_merged_def ex_merged_inuse_def ex_merged_inuse_delta_def eval_ops eval_open
          eval_prepare eval_codec)
  show ?thesis
    using output_header_from_second_input
      [of ex_bbs9 ex_bbs8 ex_bbs_delta ex_merged ex_merged_inuse_delta ex_merged_inuse] 1 2
    by blast
qed

text \<open>The claim as stated fails when a patch is applied: the header of the output is that
  of the delta file (here with the in-use count 1), not that of the OLD image (in-use
  count 0).\<close>

theorem patch_header_template_counterexample:
  "apply_patch ex_merged ex_merged_inuse_delta = Inr ex_merged_inuse \<and>
   take 34 (drop 16 ex_merged_inuse) = take 34 (drop 16 ex_merged_inuse_delta) \<and>
   take 34 (drop 16 ex_merged_inuse) \<noteq> take 34 (drop 16 ex_merged)"
  by (simp add: ex_merged_def ex_merged_inuse_def ex_merged_inuse_delta_def eval_ops eval_open
        eval_prepare eval_codec)

section \<open>C9: cluster counts that do not match\<close>

text \<open>
  C9 (amended). The only check of the cluster counts is the one of
  \<open>finish_image_files\<close>, which looks at the repeat counts of the two readers and reads
  nothing. Take two inputs with matching headers and a cluster size within
  \<open>NTFS_MAX_CLUSTER_SIZE\<close>. The operation consumes, cluster by cluster, one cluster of
  the first input and then one of the second, as often as its loop runs, and then one
  more cluster of the input that alone has the trailing cluster. For generation and for
  patching alike:

  \<^item> if all the consumed clusters can be read, the operation ends with "First input image
    has ... remaining unused clusters" if the reader of the first input still has a
    positive repeat count, else with "Second input image has ..." if that of the second
    has one, and succeeds otherwise, whatever follows the consumed clusters in the files;

  \<^item> if the clusters before some consumed cluster can be read from both inputs and the
    read of that cluster from the first input fails, the operation ends with the error of
    this read;

  \<^item> if moreover that cluster can be read from the first input (where the operation
    consumes it) and the read from the second input fails, the operation ends with the
    error of this read;

  \<^item> the error of a read that fails is none of the two messages that name an input;

  \<^item> a read that needs a new record and finds its file at the end fails with "read:
    unexpected end of file".
\<close>

theorem cluster_count_check:
  "(prepare_image_files f1 IMAGE_MAGIC f2 IMAGE_MAGIC DELTA_MAGIC = Inr (old, new, d0) \<and>
    unat (csize old) \<le> NTFS_MAX_CLUSTER_SIZE \<longrightarrow>
    (let n = nat (sint (if bbs_present old \<and> bbs_present new then ccount old + 1 else ccount old));
         n1 = n + (if bbs_present old \<and> \<not> bbs_present new then 1 else 0);
         n2 = n + (if \<not> bbs_present old \<and> bbs_present new then 1 else 0)
     in
       (read_clusters n1 old False = Inr (eo, old2) \<and>
        read_clusters n2 new False = Inr (en, new2) \<longrightarrow>
        (\<exists>D. create_delta f1 f2 =
           (if 0 <s cmd_repeat old2 then Inl FirstRemaining
            else if 0 <s cmd_repeat new2 then Inl SecondRemaining
            else Inr D))) \<and>
       (i < n1 \<and>
        read_clusters i old False = Inr (eoi, oldi) \<and>
        read_clusters i new False = Inr (eni, newi) \<and>
        read_next_cluster oldi False = Inl e1 \<longrightarrow>
        create_delta f1 f2 = Inl e1 \<and> e1 \<noteq> FirstRemaining \<and> e1 \<noteq> SecondRemaining) \<and>
       (j < n2 \<and>
        read_clusters (min (Suc j) n1) old False = Inr (eoj, oldj) \<and>
        read_clusters j new False = Inr (enj, newj) \<and>
        read_next_cluster newj False = Inl e2 \<longrightarrow>
        create_delta f1 f2 = Inl e2 \<and> e2 \<noteq> FirstRemaining \<and> e2 \<noteq> SecondRemaining))) \<and>
   (prepare_image_files g1 IMAGE_MAGIC g2 DELTA_MAGIC IMAGE_MAGIC = Inr (pold, delta, n0) \<and>
    unat (csize pold) \<le> NTFS_MAX_CLUSTER_SIZE \<longrightarrow>
    (let n = nat (sint (ccount pold));
         n1 = n + (if bbs_present pold \<and> \<not> bbs_present delta then 1 else 0);
         t = (if \<not> bbs_present pold \<and> bbs_present delta then 1 else 0)
     in
       (read_clusters n1 pold False = Inr (po, pold2) \<and>
        read_clusters n delta True = Inr (ed, delta1) \<and>
        read_clusters t delta1 False = Inr (et, delta2) \<longrightarrow>
        (\<exists>N. apply_patch g1 g2 =
           (if 0 <s cmd_repeat pold2 then Inl FirstRemaining
            else if 0 <s cmd_repeat delta2 then Inl SecondRemaining
            else Inr N))) \<and>
       (k < n1 \<and>
        read_clusters k pold False = Inr (pok, poldk) \<and>
        read_clusters k delta True = Inr (edk, deltak) \<and>
        read_next_cluster poldk False = Inl e3 \<longrightarrow>
        apply_patch g1 g2 = Inl e3 \<and> e3 \<noteq> FirstRemaining \<and> e3 \<noteq> SecondRemaining) \<and>
       (l < n + t \<and>
        read_clusters (min (Suc l) n1) pold False = Inr (pol, poldl) \<and>
        read_clusters l delta True = Inr (edl, deltal) \<and>
        read_next_cluster deltal (l < n) = Inl e4 \<longrightarrow>
        apply_patch g1 g2 = Inl e4 \<and> e4 \<noteq> FirstRemaining \<and> e4 \<noteq> SecondRemaining))) \<and>
   (\<not> 0 <s cmd_repeat img \<and> fd img = [] \<longrightarrow> read_next_cluster img a = Inl UnexpectedEOF)"
proof (intro conjI impI)
  assume h: "prepare_image_files f1 IMAGE_MAGIC f2 IMAGE_MAGIC DELTA_MAGIC = Inr (old, new, d0) \<and>
    unat (csize old) \<le> NTFS_MAX_CLUSTER_SIZE"
  show "let n = nat (sint (if bbs_present old \<and> bbs_present new then ccount old + 1 else ccount old));
         n1 = n + (if bbs_present old \<and> \<not> bbs_present new then 1 else 0);
         n2 = n + (if \<not> bbs_present old \<and> bbs_present new then 1 else 0)
     in
       (read_clusters n1 old False = Inr (eo, old2) \<and>
        read_clusters n2 new False = Inr (en, new2) \<longrightarrow>
        (\<exists>D. create_delta f1 f2 =
           (if 0 <s cmd_repeat old2 then Inl FirstRemaining
            else if 0 <s cmd_repeat new2 then Inl SecondRemaining
            else Inr D))) \<and>
       (i < n1 \<and>
        read_clusters i old False = Inr (eoi, oldi) \<and>
        read_clusters i new False = Inr (eni, newi) \<and>
        read_next_cluster oldi False = Inl e1 \<longrightarrow>
        create_delta f1 f2 = Inl e1 \<and> e1 \<noteq> FirstRemaining \<and> e1 \<noteq> SecondRemaining) \<and>
       (j < n2 \<and>
        read_clusters (min (Suc j) n1) old False = Inr (eoj, oldj) \<and>
        read_clusters j new False = Inr (enj, newj) \<and>
        read_next_cluster newj False = Inl e2 \<longrightarrow>
        create_delta f1 f2 = Inl e2 \<and> e2 \<noteq> FirstRemaining \<and> e2 \<noteq> SecondRemaining)"
    unfolding Let_def
  proof (intro conjI impI)
    assume "read_clusters
              (nat (sint (if bbs_present old \<and> bbs_present new then ccount old + 1 else ccount old)) +
               (if bbs_present old \<and> \<not> bbs_present new then 1 else 0)) old False = Inr (eo, old2) \<and>
            read_clusters
              (nat (sint (if bbs_present old \<and> bbs_present new then ccount old + 1 else ccount old)) +
               (if \<not> bbs_present old \<and> bbs_present new then 1 else 0)) new False = Inr (en, new2)"
    then show "\<exists>D. create_delta f1 f2 =
           (if 0 <s cmd_repeat old2 then Inl FirstRemaining
            else if 0 <s cmd_repeat new2 then Inl SecondRemaining
            else Inr D)"
      using create_delta_count_check [of f1 f2 old new d0 eo old2 en new2] h by blast
  next
    assume a: "i < nat (sint (if bbs_present old \<and> bbs_present new then ccount old + 1 else ccount old)) +
               (if bbs_present old \<and> \<not> bbs_present new then 1 else 0) \<and>
        read_clusters i old False = Inr (eoi, oldi) \<and>
        read_clusters i new False = Inr (eni, newi) \<and>
        read_next_cluster oldi False = Inl e1"
    then show "create_delta f1 f2 = Inl e1"
      using create_delta_first_fails [of f1 f2 old new d0 i eoi oldi eni newi e1] h by blast
    from a show "e1 \<noteq> FirstRemaining" "e1 \<noteq> SecondRemaining"
      using read_next_cluster_error [of oldi False e1] by auto
  next
    assume a: "j < nat (sint (if bbs_present old \<and> bbs_present new then ccount old + 1 else ccount old)) +
               (if \<not> bbs_present old \<and> bbs_present new then 1 else 0) \<and>
        read_clusters
          (min (Suc j)
             (nat (sint (if bbs_present old \<and> bbs_present new then ccount old + 1 else ccount old)) +
              (if bbs_present old \<and> \<not> bbs_present new then 1 else 0))) old False = Inr (eoj, oldj) \<and>
        read_clusters j new False = Inr (enj, newj) \<and>
        read_next_cluster newj False = Inl e2"
    then show "create_delta f1 f2 = Inl e2"
      using create_delta_second_fails [of f1 f2 old new d0 j eoj oldj enj newj e2] h by blast
    from a show "e2 \<noteq> FirstRemaining" "e2 \<noteq> SecondRemaining"
      using read_next_cluster_error [of newj False e2] by auto
  qed
next
  assume h: "prepare_image_files g1 IMAGE_MAGIC g2 DELTA_MAGIC IMAGE_MAGIC = Inr (pold, delta, n0) \<and>
    unat (csize pold) \<le> NTFS_MAX_CLUSTER_SIZE"
  show "let n = nat (sint (ccount pold));
         n1 = n + (if bbs_present pold \<and> \<not> bbs_present delta then 1 else 0);
         t = (if \<not> bbs_present pold \<and> bbs_present delta then 1 else 0)
     in
       (read_clusters n1 pold False = Inr (po, pold2) \<and>
        read_clusters n delta True = Inr (ed, delta1) \<and>
        read_clusters t delta1 False = Inr (et, delta2) \<longrightarrow>
        (\<exists>N. apply_patch g1 g2 =
           (if 0 <s cmd_repeat pold2 then Inl FirstRemaining
            else if 0 <s cmd_repeat delta2 then Inl SecondRemaining
            else Inr N))) \<and>
       (k < n1 \<and>
        read_clusters k pold False = Inr (pok, poldk) \<and>
        read_clusters k delta True = Inr (edk, deltak) \<and>
        read_next_cluster poldk False = Inl e3 \<longrightarrow>
        apply_patch g1 g2 = Inl e3 \<and> e3 \<noteq> FirstRemaining \<and> e3 \<noteq> SecondRemaining) \<and>
       (l < n + t \<and>
        read_clusters (min (Suc l) n1) pold False = Inr (pol, poldl) \<and>
        read_clusters l delta True = Inr (edl, deltal) \<and>
        read_next_cluster deltal (l < n) = Inl e4 \<longrightarrow>
        apply_patch g1 g2 = Inl e4 \<and> e4 \<noteq> FirstRemaining \<and> e4 \<noteq> SecondRemaining)"
    unfolding Let_def
  proof (intro conjI impI)
    assume "read_clusters
              (nat (sint (ccount pold)) +
               (if bbs_present pold \<and> \<not> bbs_present delta then 1 else 0)) pold False = Inr (po, pold2) \<and>
            read_clusters (nat (sint (ccount pold))) delta True = Inr (ed, delta1) \<and>
            read_clusters (if \<not> bbs_present pold \<and> bbs_present delta then 1 else 0) delta1 False =
              Inr (et, delta2)"
    then show "\<exists>N. apply_patch g1 g2 =
           (if 0 <s cmd_repeat pold2 then Inl FirstRemaining
            else if 0 <s cmd_repeat delta2 then Inl SecondRemaining
            else Inr N)"
      using apply_patch_count_check [of g1 g2 pold delta n0 po pold2 ed delta1 et delta2] h
      by blast
  next
    assume a: "k < nat (sint (ccount pold)) +
               (if bbs_present pold \<and> \<not> bbs_present delta then 1 else 0) \<and>
        read_clusters k pold False = Inr (pok, poldk) \<and>
        read_clusters k delta True = Inr (edk, deltak) \<and>
        read_next_cluster poldk False = Inl e3"
    then show "apply_patch g1 g2 = Inl e3"
      using apply_patch_first_fails [of g1 g2 pold delta n0 k pok poldk edk deltak e3] h by blast
    from a show "e3 \<noteq> FirstRemaining" "e3 \<noteq> SecondRemaining"
      using read_next_cluster_error [of poldk False e3] by auto
  next
    assume a: "l < nat (sint (ccount pold)) +
               (if \<not> bbs_present pold \<and> bbs_present delta then 1 else 0) \<and>
        read_clusters
          (min (Suc l)
             (nat (sint (ccount pold)) +
              (if bbs_present pold \<and> \<not> bbs_present delta then 1 else 0))) pold False = Inr (pol, poldl) \<and>
        read_clusters l delta True = Inr (edl, deltal) \<and>
        read_next_cluster deltal (l < nat (sint (ccount pold))) = Inl e4"
    then show "apply_patch g1 g2 = Inl e4"
      using apply_patch_second_fails [of g1 g2 pold delta n0 l pol poldl edl deltal e4] h by blast
    from a show "e4 \<noteq> FirstRemaining" "e4 \<noteq> SecondRemaining"
      using read_next_cluster_error [of deltal "l < nat (sint (ccount pold))" e4] by auto
  qed
next
  assume "\<not> 0 <s cmd_repeat img \<and> fd img = []"
  then show "read_next_cluster img a = Inl UnexpectedEOF"
    using read_next_cluster_eof [of img a] by blast
qed

theorem cluster_count_check_witness:
  "create_delta ex_run3 ex_merged = Inl FirstRemaining \<and>
   apply_patch ex_merged ex_run3_delta = Inl SecondRemaining \<and>
   create_delta ex_short ex_run3 = Inl UnexpectedEOF \<and>
   create_delta ex_run3 ex_short = Inl UnexpectedEOF \<and>
   apply_patch ex_short ex_run3_delta = Inl UnexpectedEOF \<and>
   apply_patch ex_run3 ex_short_delta = Inl UnexpectedEOF"
proof -
  let ?img = "\<lambda>f h c r d. \<lparr> fd = f, hdr = h, hdr_extra = [], hdr_extra_len = 0, csize = 1,
           ccount = 2, bbs_present = False, cmd = c, cmd_repeat = r, cdata = d \<rparr>"
  let ?run3 = "?img [0, 3, 0, 0, 0, 0, 0, 0, 0] (take 50 ex_run3) 0 0 []"
  let ?merged = "?img [0, 2, 0, 0, 0, 0, 0, 0, 0] (take 50 ex_merged) 0 0 []"
  let ?rdelta = "?img [0, 3, 0, 0, 0, 0, 0, 0, 0] (take 50 ex_run3_delta) 0 0 []"
  let ?short = "?img [1, 5] (take 50 ex_short) 0 0 []"
  let ?sdelta = "?img [1, 5] (take 50 ex_short_delta) 0 0 []"
  have p1: "prepare_image_files ex_run3 IMAGE_MAGIC ex_merged IMAGE_MAGIC DELTA_MAGIC =
              Inr (?run3, ?merged, create_output_image DELTA_MAGIC ?merged)"
    by (simp add: ex_run3_def ex_merged_def eval_open eval_prepare)
  have p2: "prepare_image_files ex_merged IMAGE_MAGIC ex_run3_delta DELTA_MAGIC IMAGE_MAGIC =
              Inr (?merged, ?rdelta, create_output_image IMAGE_MAGIC ?rdelta)"
    by (simp add: ex_merged_def ex_run3_delta_def eval_open eval_prepare)
  have p3: "prepare_image_files ex_short IMAGE_MAGIC ex_run3 IMAGE_MAGIC DELTA_MAGIC =
              Inr (?short, ?run3, create_output_image DELTA_MAGIC ?run3)"
    by (simp add: ex_short_def ex_run3_def eval_open eval_prepare)
  have p4: "prepare_image_files ex_run3 IMAGE_MAGIC ex_short IMAGE_MAGIC DELTA_MAGIC =
              Inr (?run3, ?short, create_output_image DELTA_MAGIC ?short)"
    by (simp add: ex_short_def ex_run3_def eval_open eval_prepare)
  have p5: "prepare_image_files ex_short IMAGE_MAGIC ex_run3_delta DELTA_MAGIC IMAGE_MAGIC =
              Inr (?short, ?rdelta, create_output_image IMAGE_MAGIC ?rdelta)"
    by (simp add: ex_short_def ex_run3_delta_def eval_open eval_prepare)
  have p6: "prepare_image_files ex_run3 IMAGE_MAGIC ex_short_delta DELTA_MAGIC IMAGE_MAGIC =
              Inr (?run3, ?sdelta, create_output_image IMAGE_MAGIC ?sdelta)"
    by (simp add: ex_run3_def ex_short_delta_def eval_open eval_prepare)
  have run3_1: "read_clusters 1 ?run3 False =
                  Inr ([Skip], ?img [] (take 50 ex_run3) 0 2 [])"
    by (simp add: event_of_def eval_codec eval_prepare read_all_def)
  have run3_2: "read_clusters 2 ?run3 False =
                  Inr ([Skip, Skip], ?img [] (take 50 ex_run3) 0 1 [])"
    by (simp add: read_clusters_numeral event_of_def eval_codec eval_prepare read_all_def)
  have merged_2: "read_clusters 2 ?merged False =
                    Inr ([Skip, Skip], ?img [] (take 50 ex_merged) 0 0 [])"
    by (simp add: read_clusters_numeral event_of_def eval_codec eval_prepare read_all_def)
  have rdelta_1: "read_clusters 1 ?rdelta True =
                    Inr ([Skip], ?img [] (take 50 ex_run3_delta) 0 2 [])"
    by (simp add: event_of_def eval_codec eval_prepare read_all_def)
  have rdelta_2: "read_clusters 2 ?rdelta True =
                    Inr ([Skip, Skip], ?img [] (take 50 ex_run3_delta) 0 1 [])"
    by (simp add: read_clusters_numeral event_of_def eval_codec eval_prepare read_all_def)
  have short_1: "read_clusters 1 ?short False =
                   Inr ([Data [5]], ?img [] (take 50 ex_short) 1 0 [5])"
    by (simp add: event_of_def eval_codec eval_prepare read_all_def)
  have sdelta_1: "read_clusters 1 ?sdelta True =
                    Inr ([Data [5]], ?img [] (take 50 ex_short_delta) 1 0 [5])"
    by (simp add: event_of_def eval_codec eval_prepare read_all_def)
  have short_end: "read_next_cluster (?img [] (take 50 ex_short) 1 0 [5]) False = Inl UnexpectedEOF"
    by (simp add: eval_codec read_all_def)
  have sdelta_end: "read_next_cluster (?img [] (take 50 ex_short_delta) 1 0 [5]) False =
                      Inl UnexpectedEOF"
    by (simp add: eval_codec read_all_def)
  have c1: "create_delta ex_run3 ex_merged = Inl FirstRemaining"
    using cluster_count_check [where ?f1.0 = ex_run3 and ?f2.0 = ex_merged and old = ?run3
        and new = ?merged and ?d0.0 = "create_output_image DELTA_MAGIC ?merged"
        and eo = "[Skip, Skip]" and ?old2.0 = "?img [] (take 50 ex_run3) 0 1 []"
        and en = "[Skip, Skip]" and ?new2.0 = "?img [] (take 50 ex_merged) 0 0 []"]
      p1 run3_2 merged_2
    by (simp add: Let_def NTFS_MAX_CLUSTER_SIZE_def word_sless_alt)
  have c2: "apply_patch ex_merged ex_run3_delta = Inl SecondRemaining"
    using cluster_count_check [where ?g1.0 = ex_merged and ?g2.0 = ex_run3_delta
        and pold = ?merged and delta = ?rdelta
        and ?n0.0 = "create_output_image IMAGE_MAGIC ?rdelta"
        and po = "[Skip, Skip]" and ?pold2.0 = "?img [] (take 50 ex_merged) 0 0 []"
        and ed = "[Skip, Skip]" and ?delta1.0 = "?img [] (take 50 ex_run3_delta) 0 1 []"
        and et = "[]" and ?delta2.0 = "?img [] (take 50 ex_run3_delta) 0 1 []"]
      p2 merged_2 rdelta_2
    by (simp add: Let_def NTFS_MAX_CLUSTER_SIZE_def word_sless_alt)
  have c3: "create_delta ex_short ex_run3 = Inl UnexpectedEOF"
    using cluster_count_check [where ?f1.0 = ex_short and ?f2.0 = ex_run3 and old = ?short
        and new = ?run3 and ?d0.0 = "create_output_image DELTA_MAGIC ?run3" and i = 1
        and eoi = "[Data [5]]" and oldi = "?img [] (take 50 ex_short) 1 0 [5]"
        and eni = "[Skip]" and newi = "?img [] (take 50 ex_run3) 0 2 []"
        and ?e1.0 = UnexpectedEOF]
      p3 short_1 run3_1 short_end
    by (simp add: Let_def NTFS_MAX_CLUSTER_SIZE_def)
  have c4: "create_delta ex_run3 ex_short = Inl UnexpectedEOF"
    using cluster_count_check [where ?f1.0 = ex_run3 and ?f2.0 = ex_short and old = ?run3
        and new = ?short and ?d0.0 = "create_output_image DELTA_MAGIC ?short" and j = 1
        and eoj = "[Skip, Skip]" and oldj = "?img [] (take 50 ex_run3) 0 1 []"
        and enj = "[Data [5]]" and newj = "?img [] (take 50 ex_short) 1 0 [5]"
        and ?e2.0 = UnexpectedEOF]
      p4 run3_2 short_1 short_end
    by (simp add: Let_def NTFS_MAX_CLUSTER_SIZE_def numeral_2_eq_2)
  have c5: "apply_patch ex_short ex_run3_delta = Inl UnexpectedEOF"
    using cluster_count_check [where ?g1.0 = ex_short and ?g2.0 = ex_run3_delta
        and pold = ?short and delta = ?rdelta
        and ?n0.0 = "create_output_image IMAGE_MAGIC ?rdelta" and k = 1
        and pok = "[Data [5]]" and poldk = "?img [] (take 50 ex_short) 1 0 [5]"
        and edk = "[Skip]" and deltak = "?img [] (take 50 ex_run3_delta) 0 2 []"
        and ?e3.0 = UnexpectedEOF]
      p5 short_1 rdelta_1 short_end
    by (simp add: Let_def NTFS_MAX_CLUSTER_SIZE_def)
  have c6: "apply_patch ex_run3 ex_short_delta = Inl UnexpectedEOF"
    using cluster_count_check [where ?g1.0 = ex_run3 and ?g2.0 = ex_short_delta
        and pold = ?run3 and delta = ?sdelta
        and ?n0.0 = "create_output_image IMAGE_MAGIC ?sdelta" and l = 1
        and pol = "[Skip, Skip]" and poldl = "?img [] (take 50 ex_run3) 0 1 []"
        and edl = "[Data [5]]" and deltal = "?img [] (take 50 ex_short_delta) 1 0 [5]"
        and ?e4.0 = UnexpectedEOF]
      p6 run3_2 sdelta_1 sdelta_end
    by (simp add: Let_def NTFS_MAX_CLUSTER_SIZE_def numeral_2_eq_2)
  show ?thesis
    using c1 c2 c3 c4 c5 c6 by simp
qed

text \<open>The claim as stated fails in both directions: an image that declares one cluster and
  holds two data records is accepted (the delta with itself is generated), and an image
  that declares two clusters and holds one stops with "read: unexpected end of file",
  which does not say which input is short.\<close>

theorem cluster_count_unchecked_counterexample:
  "create_delta ex_long ex_long = Inr ex_long_delta \<and>
   create_delta ex_short ex_short = Inl UnexpectedEOF"
  by (simp add: ex_long_def ex_long_delta_def ex_short_def eval_ops eval_open eval_prepare
        eval_codec)

section \<open>C10: the cluster size is not validated\<close>

text \<open>
  C10. \<open>open_input_image\<close> does not look at \<open>cluster_size\<close>: if it succeeds on a file, it
  succeeds on the same file with any four bytes in the place of the cluster size, and
  \<open>csize\<close> is then their value, also beyond \<open>NTFS_MAX_CLUSTER_SIZE\<close>. A later data record
  is read with \<open>csize\<close> as the count into the array \<open>cdata\<close> of \<open>NTFS_MAX_CLUSTER_SIZE\<close>
  bytes: when more bytes than that arrive, the read leaves the array.
\<close>

theorem open_ignores_cluster_size:
  assumes "open_input_image file magic = Inr img" "length cs = 4"
  shows "open_input_image (take 18 file @ cs @ drop 22 file) magic =
           Inr (img\<lparr>hdr := take 18 (hdr img) @ cs @ drop 22 (hdr img), csize := le_word cs\<rparr>) \<and>
         (\<forall>p a img1. csize img1 = le_word cs \<and> int NTFS_MAX_CLUSTER_SIZE < sint (csize img1) \<and>
            \<not> 0 <s cmd_repeat img1 \<and> fd img1 = CMD_DATA # p \<and> NTFS_MAX_CLUSTER_SIZE < length p \<longrightarrow>
            read_next_cluster img1 a = Inl OutOfBounds)"
proof (intro conjI allI impI)
  note f = open_input_image_Inr [OF assms(1)]
  let ?h = "take 18 (hdr img) @ cs @ drop 22 (hdr img)"
  have l: "length (hdr img) = 50" using f by simp
  have fl: "take 18 file @ cs @ drop 22 file = ?h @ hdr_extra img @ fd img"
  proof -
    have "file = hdr img @ (hdr_extra img @ fd img)" using f by simp
    then have "take 18 file = take 18 (hdr img)"
      "drop 22 file = drop 22 (hdr img) @ hdr_extra img @ fd img"
      using l by simp_all
    then show ?thesis by simp
  qed
  have acc: "length ?h = 50" "take 16 ?h = take 16 (hdr img)"
    "hdr_major_ver ?h = hdr_major_ver (hdr img)" "hdr_minor_ver ?h = hdr_minor_ver (hdr img)"
    "hdr_cluster_size ?h = cs" "hdr_nr_clusters ?h = hdr_nr_clusters (hdr img)"
    "hdr_offset_to_image_data ?h = hdr_offset_to_image_data (hdr img)"
    using l assms(2)
    by (simp_all add: hdr_major_ver_def hdr_minor_ver_def hdr_cluster_size_def
          hdr_nr_clusters_def hdr_offset_to_image_data_def nth_append)
  have "open_input_image (?h @ hdr_extra img @ fd img) magic =
          Inr \<lparr> fd = fd img, hdr = ?h, hdr_extra = hdr_extra img,
                hdr_extra_len = hdr_extra_len img,
                csize = le_word (hdr_cluster_size ?h),
                ccount = le_word (hdr_nr_clusters ?h),
                bbs_present = (hdr_minor_ver ?h = NTFSCLONE_IMG_VER_MINOR_NEW),
                cmd = 0, cmd_repeat = 0, cdata = [] \<rparr>"
    using f acc by (intro open_input_image_intro) simp_all
  also have "\<dots> = Inr (img\<lparr>hdr := ?h, csize := le_word cs\<rparr>)"
    using f acc by simp
  finally show "open_input_image (take 18 file @ cs @ drop 22 file) magic =
                  Inr (img\<lparr>hdr := ?h, csize := le_word cs\<rparr>)"
    unfolding fl .
next
  fix p a and img1 :: input_image
  assume a: "csize img1 = le_word cs \<and> int NTFS_MAX_CLUSTER_SIZE < sint (csize img1) \<and>
            \<not> 0 <s cmd_repeat img1 \<and> fd img1 = CMD_DATA # p \<and> NTFS_MAX_CLUSTER_SIZE < length p"
  then have "int NTFS_MAX_CLUSTER_SIZE < sint (csize img1)" "\<not> 0 <s cmd_repeat img1"
    "fd img1 = CMD_DATA # p" "NTFS_MAX_CLUSTER_SIZE < length p"
    by blast+
  then show "read_next_cluster img1 a = Inl OutOfBounds"
    by (simp add: read_next_cluster_def read_all_def Let_def CMD_SKIP_def CMD_DATA_def CMD_DROP_def)
qed

theorem open_ignores_cluster_size_witness:
  "open_input_image (take 18 ex_merged @ [0, 0, 2, 0] @ drop 22 ex_merged) IMAGE_MAGIC =
     Inr \<lparr> fd = [0, 2, 0, 0, 0, 0, 0, 0, 0],
           hdr = take 18 (take 50 ex_merged) @ [0, 0, 2, 0] @ drop 22 (take 50 ex_merged),
           hdr_extra = [], hdr_extra_len = 0, csize = 131072, ccount = 2, bbs_present = False,
           cmd = 0, cmd_repeat = 0, cdata = [] \<rparr> \<and>
   NTFS_MAX_CLUSTER_SIZE < unat (131072 :: 32 word)"
proof -
  let ?img = "\<lparr> fd = [0, 2, 0, 0, 0, 0, 0, 0, 0], hdr = take 50 ex_merged, hdr_extra = [],
           hdr_extra_len = 0, csize = 1, ccount = 2, bbs_present = False, cmd = 0,
           cmd_repeat = 0, cdata = [] \<rparr>"
  have 1: "open_input_image ex_merged IMAGE_MAGIC = Inr ?img"
    by (simp add: ex_merged_def eval_open)
  have 2: "length [0, 0, 2, 0 :: byte] = 4" by simp
  have 3: "(le_word [0, 0, 2, 0] :: 32 word) = 131072" by simp
  show ?thesis
    using open_ignores_cluster_size [OF 1 2] 3 by (simp add: NTFS_MAX_CLUSTER_SIZE_def)
qed

end
